(* ===== verification/Prelude.thy ===== *)
theory Prelude
  imports Main "HOL-Library.Word" "HOL-Library.Sublist" "HOL-Library.Multiset"
begin

text \<open>
  Shared vocabulary of the development: bytes, the tail of a list (what a capped buffer of
  the program keeps), list surgery by index (what Go's slice idioms
  \<open>append(xs[:i], xs[i+1:]...)\<close> compute), and the interface of a capped log, which the
  raw replay buffer, the logical scrollback, the observed lines and the diagnostic ring
  of the program all implement.
\<close>

type_synonym byte = "8 word"
type_synonym bytes = "byte list"

named_theorems tail_simps \<open>rewriting of the tail of a list\<close>
named_theorems surgery_simps \<open>rewriting of removal and insertion by index\<close>

section \<open>The tail of a list\<close>

definition last_n :: "nat \<Rightarrow> 'a list \<Rightarrow> 'a list" where
  "last_n n xs = drop (length xs - n) xs"

lemma set_last_n_subset: "set (last_n n xs) \<subseteq> set xs"
  by (simp add: last_n_def set_drop_subset)

lemma length_last_n [simp]: "length (last_n n xs) = min n (length xs)"
  by (simp add: last_n_def)

lemma last_n_all [tail_simps]: "length xs \<le> n \<Longrightarrow> last_n n xs = xs"
  by (simp add: last_n_def)

lemma last_n_Nil [simp]: "last_n n [] = []"
  by (simp add: last_n_def)

lemma last_n_suffix: "suffix (last_n n xs) xs"
  by (simp add: last_n_def suffix_drop)

lemma last_n_append_long [tail_simps]:
  "n \<le> length ys \<Longrightarrow> last_n n (xs @ ys) = last_n n ys"
  by (simp add: last_n_def)

lemma last_n_append_short [tail_simps]:
  "length ys \<le> n \<Longrightarrow> last_n n (xs @ ys) = last_n (n - length ys) xs @ ys"
  by (simp add: last_n_def)

lemma last_n_last_n_append [tail_simps]:
  "last_n n (last_n n xs @ ys) = last_n n (xs @ ys)"
proof (cases "length xs \<le> n")
  case True
  then show ?thesis by (simp add: last_n_all)
next
  case False
  then have "length xs - n + n = length xs" by simp
  then have "length (last_n n xs @ ys) - n = length ys"
    and "length (xs @ ys) - n = (length xs - n) + length ys"
    using False by auto
  then show ?thesis
    using False by (simp add: last_n_def add.commute)
qed

lemma last_n_snoc_full:
  "length xs = n \<Longrightarrow> 0 < n \<Longrightarrow> last_n n (xs @ [x]) = tl xs @ [x]"
  by (cases xs) (auto simp: last_n_def)

section \<open>Removal and insertion by index\<close>

definition remove_at :: "nat \<Rightarrow> 'a list \<Rightarrow> 'a list" where
  "remove_at i xs = take i xs @ drop (Suc i) xs"

definition insert_at :: "nat \<Rightarrow> 'a \<Rightarrow> 'a list \<Rightarrow> 'a list" where
  "insert_at i x xs = take i xs @ x # drop i xs"

lemma length_remove_at [simp]: "i < length xs \<Longrightarrow> length (remove_at i xs) = length xs - 1"
  by (simp add: remove_at_def)

lemma length_insert_at [simp]: "length (insert_at i x xs) = Suc (length xs)"
  by (simp add: insert_at_def)

lemma mset_remove_at [surgery_simps]:
  "i < length xs \<Longrightarrow> mset (remove_at i xs) = mset xs - {#xs ! i#}"
  by (subst (2) id_take_nth_drop [of i xs]) (auto simp: remove_at_def)

lemma mset_insert_at [surgery_simps]: "mset (insert_at i x xs) = add_mset x (mset xs)"
proof -
  have "mset (take i xs) + mset (drop i xs) = mset xs"
    by (metis append_take_drop_id mset_append)
  then show ?thesis
    by (metis insert_at_def mset.simps(2) mset_append union_mset_add_mset_right)
qed

lemma distinct_remove_at: "distinct xs \<Longrightarrow> distinct (remove_at i xs)"
  by (simp add: remove_at_def set_take_disj_set_drop_if_distinct)

lemma set_remove_at: "i < length xs \<Longrightarrow> distinct xs \<Longrightarrow> set (remove_at i xs) = set xs - {xs ! i}"
proof -
  assume i: "i < length xs" and d: "distinct xs"
  have xs: "xs = take i xs @ xs ! i # drop (Suc i) xs"
    using i by (rule id_take_nth_drop)
  with d have "distinct (take i xs @ xs ! i # drop (Suc i) xs)" by simp
  moreover have "set xs = set (take i xs @ xs ! i # drop (Suc i) xs)" using xs by simp
  ultimately show ?thesis by (auto simp: remove_at_def)
qed

lemma set_insert_at [simp]: "set (insert_at i x xs) = insert x (set xs)"
  by (metis mset_insert_at set_mset_add_mset_insert set_mset_mset)

lemma nth_remove_at [surgery_simps]:
  "i < length xs \<Longrightarrow> j < length xs - 1 \<Longrightarrow>
   remove_at i xs ! j = (if j < i then xs ! j else xs ! Suc j)"
  by (auto simp: remove_at_def nth_append min_def)

lemma nth_insert_at [surgery_simps]:
  "i \<le> length xs \<Longrightarrow> j \<le> length xs \<Longrightarrow>
   insert_at i x xs ! j = (if j < i then xs ! j else if j = i then x else xs ! (j - 1))"
  by (auto simp: insert_at_def nth_append nth_Cons' min_def)

lemma remove_at_insert_at: "i \<le> length xs \<Longrightarrow> remove_at i (insert_at i x xs) = xs"
  by (simp add: remove_at_def insert_at_def)

lemma insert_at_remove_at: "i < length xs \<Longrightarrow> insert_at i (xs ! i) (remove_at i xs) = xs"
  by (simp add: remove_at_def insert_at_def id_take_nth_drop [symmetric])

lemma distinct_insert_at: "distinct xs \<Longrightarrow> x \<notin> set xs \<Longrightarrow> distinct (insert_at i x xs)"
  by (metis distinct.simps(2) mset.simps(2) mset_eq_imp_distinct_iff mset_insert_at)

section \<open>The interface of a capped log\<close>

text \<open>
  A capped log is appended to in chunks and shows the last \<open>cap\<close> items ever appended.
  \<open>capped_queue\<close> is the same contract for a log that takes one item at a time; a
  \<open>sublocale\<close> gives it the chunk contract.
\<close>

locale capped_log =
  fixes cap :: nat
    and empty :: "'r"
    and app :: "'r \<Rightarrow> 'a list \<Rightarrow> 'r"
    and contents :: "'r \<Rightarrow> 'a list"
    and inv :: "'r \<Rightarrow> bool"
  assumes inv_empty: "inv empty"
    and contents_empty: "contents empty = []"
    and inv_app: "inv r \<Longrightarrow> inv (app r p)"
    and contents_app: "inv r \<Longrightarrow> contents (app r p) = last_n cap (contents r @ p)"
    and contents_cap: "inv r \<Longrightarrow> length (contents r) \<le> cap"
begin

lemma inv_foldl: "inv r \<Longrightarrow> inv (foldl app r ps)"
  by (induction ps arbitrary: r) (auto intro: inv_app)

lemma contents_foldl:
  "inv r \<Longrightarrow> contents (foldl app r ps) = last_n cap (contents r @ concat ps)"
proof (induction ps arbitrary: r)
  case Nil
  then show ?case by (simp add: last_n_all contents_cap)
next
  case (Cons p ps)
  then have "contents (foldl app (app r p) ps) = last_n cap (contents (app r p) @ concat ps)"
    by (blast intro: inv_app)
  also have "\<dots> = last_n cap (contents r @ p @ concat ps)"
    using Cons.prems by (simp add: contents_app last_n_last_n_append)
  finally show ?case by simp
qed

lemma contents_from_empty: "contents (foldl app empty ps) = last_n cap (concat ps)"
  using contents_foldl [OF inv_empty] by (simp add: contents_empty)

lemma chunking_irrelevant:
  "concat ps = concat qs \<Longrightarrow> contents (foldl app empty ps) = contents (foldl app empty qs)"
  by (simp add: contents_from_empty)

end

locale capped_queue =
  fixes cap :: nat
    and empty :: "'r"
    and push :: "'r \<Rightarrow> 'a \<Rightarrow> 'r"
    and contents :: "'r \<Rightarrow> 'a list"
    and inv :: "'r \<Rightarrow> bool"
  assumes inv_empty: "inv empty"
    and contents_empty: "contents empty = []"
    and inv_push: "inv r \<Longrightarrow> inv (push r x)"
    and contents_push: "inv r \<Longrightarrow> contents (push r x) = last_n cap (contents r @ [x])"
    and contents_cap: "inv r \<Longrightarrow> length (contents r) \<le> cap"

sublocale capped_queue \<subseteq> chunks: capped_log cap empty "foldl push" contents inv
proof unfold_locales
  fix r p
  assume r: "inv r"
  show "inv (foldl push r p)"
    using r by (induction p arbitrary: r) (auto intro: inv_push)
  show "contents (foldl push r p) = last_n cap (contents r @ p)"
    using r
  proof (induction p arbitrary: r)
    case Nil
    then show ?case by (simp add: last_n_all contents_cap)
  next
    case (Cons x p)
    then have "contents (foldl push (push r x) p) = last_n cap (contents (push r x) @ p)"
      by (blast intro: inv_push)
    with Cons.prems show ?case by (simp add: contents_push last_n_last_n_append)
  qed
qed (simp_all add: inv_empty contents_empty contents_cap)

end
