(* ===== verification/ByteRing.thy ===== *)
theory ByteRing
  imports Prelude
begin

text \<open>
  The raw replay history of a screen (\<open>byteRing\<close> in \<open>src/pkg/session/vtscreen.go\<close>):
  a buffer that grows to \<open>maxScrollback\<close> bytes and is then overwritten in place from a
  moving start index, so that a long history is never copied on a PTY write.
  The abstract view is a capped log: the last \<open>maxScrollback\<close> bytes ever appended.
\<close>

definition maxScrollback :: nat where
  "maxScrollback = 256 * 1024"

lemma maxScrollback_pos [simp]: "0 < maxScrollback"
  by (simp add: maxScrollback_def)

record byteRing =
  ring_buf :: bytes
  ring_start :: nat

definition ring_empty :: byteRing where
  "ring_empty = \<lparr>ring_buf = [], ring_start = 0\<rparr>"

text \<open>Go's \<open>copy(dst[k:], src)\<close>: as many bytes as fit, and how many they were.\<close>

definition copy_count :: "'a list \<Rightarrow> nat \<Rightarrow> 'a list \<Rightarrow> nat" where
  "copy_count dst k src = min (length dst - k) (length src)"

definition copy_into :: "'a list \<Rightarrow> nat \<Rightarrow> 'a list \<Rightarrow> 'a list" where
  "copy_into dst k src =
     (let n = copy_count dst k src in take k dst @ take n src @ drop (k + n) dst)"

definition ring_append :: "byteRing \<Rightarrow> bytes \<Rightarrow> byteRing" where
  "ring_append r p =
     (if p = [] then r
      else if maxScrollback \<le> length p then
        r\<lparr>ring_buf := drop (length p - maxScrollback) p, ring_start := 0\<rparr>
      else if length (ring_buf r) < maxScrollback then
        (if length (ring_buf r) + length p \<le> maxScrollback then
           r\<lparr>ring_buf := ring_buf r @ p\<rparr>
         else
           (let keep = maxScrollback - length p;
                next0 = copy_into (replicate maxScrollback 0) 0
                          (drop (length (ring_buf r) - keep) (ring_buf r))
            in r\<lparr>ring_buf := copy_into next0 keep p, ring_start := 0\<rparr>))
      else
        (let first = copy_count (ring_buf r) (ring_start r) p;
             buf1 = copy_into (ring_buf r) (ring_start r) p
         in r\<lparr>ring_buf := copy_into buf1 0 (drop first p),
              ring_start := (ring_start r + length p) mod maxScrollback\<rparr>))"

definition ring_len :: "byteRing \<Rightarrow> nat" where
  "ring_len r = length (ring_buf r)"

definition ring_bytes :: "byteRing \<Rightarrow> bytes" where
  "ring_bytes r =
     (let out = replicate (length (ring_buf r)) 0 in
      if ring_start r = 0 \<or> length (ring_buf r) < maxScrollback then copy_into out 0 (ring_buf r)
      else
        (let n = copy_count out 0 (drop (ring_start r) (ring_buf r));
             out1 = copy_into out 0 (drop (ring_start r) (ring_buf r))
         in copy_into out1 n (take (ring_start r) (ring_buf r))))"

section \<open>Representation invariant and abstract contents\<close>

definition ring_inv :: "byteRing \<Rightarrow> bool" where
  "ring_inv r \<longleftrightarrow> length (ring_buf r) \<le> maxScrollback \<and> ring_start r < maxScrollback \<and>
     (length (ring_buf r) < maxScrollback \<longrightarrow> ring_start r = 0)"

lemma length_copy_into: "k \<le> length dst \<Longrightarrow> length (copy_into dst k src) = length dst"
  by (auto simp: copy_into_def copy_count_def Let_def)

lemma copy_into_exact: "length src = length dst \<Longrightarrow> copy_into dst 0 src = src"
  by (simp add: copy_into_def copy_count_def)

lemma ring_bytes_eq:
  "ring_inv r \<Longrightarrow> ring_bytes r = drop (ring_start r) (ring_buf r) @ take (ring_start r) (ring_buf r)"
  by (auto simp: ring_inv_def ring_bytes_def Let_def copy_into_def copy_count_def)

lemma length_ring_bytes: "ring_inv r \<Longrightarrow> length (ring_bytes r) = ring_len r"
  by (auto simp: ring_bytes_eq ring_len_def ring_inv_def)

lemma ring_inv_empty: "ring_inv ring_empty"
  by (simp add: ring_inv_def ring_empty_def)

lemma ring_append_overflow:
  assumes "length b < maxScrollback" and "length p < maxScrollback"
    and "maxScrollback < length b + length p"
  shows "copy_into (copy_into (replicate maxScrollback (0::byte)) 0
           (drop (length b - (maxScrollback - length p)) b)) (maxScrollback - length p) p
         = last_n maxScrollback (b @ p)"
proof -
  let ?keep = "maxScrollback - length p"
  let ?tail = "drop (length b - ?keep) b"
  have keep: "length ?tail = ?keep" using assms by simp
  have "copy_into (replicate maxScrollback (0::byte)) 0 ?tail = ?tail @ replicate (length p) 0"
    using assms keep by (simp add: copy_into_def copy_count_def Let_def)
  moreover have "copy_into (?tail @ replicate (length p) (0::byte)) ?keep p = ?tail @ p"
    using assms keep by (simp add: copy_into_def copy_count_def Let_def)
  moreover have "last_n maxScrollback (b @ p) = ?tail @ p"
    using assms by (simp add: last_n_def)
  ultimately show ?thesis by simp
qed

text \<open>
  Writing \<open>p\<close> over a full ring of size \<open>m\<close> from \<open>start\<close>, wrapping once, is a rotation:
  the oldest bytes are the ones replaced.
\<close>

lemma ring_wrap:
  assumes "length b = m" and "start < m" and "length p < m"
  shows "let first = copy_count b start p;
             b' = copy_into (copy_into b start p) 0 (drop first p);
             s' = (start + length p) mod m
         in drop s' b' @ take s' b' = last_n m ((drop start b @ take start b) @ p)"
proof (cases "start + length p < m")
  case True
  then show ?thesis
    using assms by (simp add: copy_count_def copy_into_def Let_def last_n_def add.commute)
next
  case False
  let ?q = "m - start"
  have n: "copy_count b start p = ?q" using assms False by (simp add: copy_count_def)
  have b1: "copy_into b start p = take start b @ take ?q p"
    using assms False n by (simp add: copy_into_def Let_def)
  have s: "(start + length p) mod m = length p - ?q"
    using assms False by (simp add: mod_if add.commute)
  have b2: "copy_into (take start b @ take ?q p) 0 (drop ?q p)
              = drop ?q p @ drop (length p - ?q) (take start b) @ take ?q p"
    using assms False by (auto simp: copy_into_def copy_count_def Let_def min_def)
  have "last_n m ((drop start b @ take start b) @ p) = drop (length p - ?q) (take start b) @ p"
    using assms False by (simp add: last_n_def)
  moreover have "take ?q p @ drop ?q p = p" by simp
  ultimately show ?thesis
    unfolding Let_def n b1 s b2 using assms False by simp
qed

lemma ring_append_inv: "ring_inv r \<Longrightarrow> ring_inv (ring_append r p)"
  by (auto simp: ring_inv_def ring_append_def Let_def length_copy_into not_less not_le)

lemma ring_append_bytes:
  assumes "ring_inv r"
  shows "ring_bytes (ring_append r p) = last_n maxScrollback (ring_bytes r @ p)"
proof -
  have inv': "ring_inv (ring_append r p)" using assms by (rule ring_append_inv)
  have len: "length (ring_bytes r) \<le> maxScrollback"
    using assms by (simp add: length_ring_bytes ring_len_def ring_inv_def)
  consider (nil) "p = []" | (huge) "p \<noteq> []" "maxScrollback \<le> length p"
    | (grow) "p \<noteq> []" "length p < maxScrollback" "length (ring_buf r) < maxScrollback"
        "length (ring_buf r) + length p \<le> maxScrollback"
    | (spill) "p \<noteq> []" "length p < maxScrollback" "length (ring_buf r) < maxScrollback"
        "maxScrollback < length (ring_buf r) + length p"
    | (full) "p \<noteq> []" "length p < maxScrollback" "length (ring_buf r) = maxScrollback"
    using assms by (fastforce simp: ring_inv_def)
  then show ?thesis
  proof cases
    case nil
    then show ?thesis using len by (simp add: ring_append_def last_n_all)
  next
    case huge
    then have "ring_append r p = r\<lparr>ring_buf := drop (length p - maxScrollback) p, ring_start := 0\<rparr>"
      by (simp add: ring_append_def)
    with huge inv' show ?thesis by (simp add: ring_bytes_eq last_n_append_long last_n_def)
  next
    case grow
    with assms have "ring_start r = 0" by (simp add: ring_inv_def)
    with grow assms inv' show ?thesis
      by (simp add: ring_bytes_eq) (simp add: ring_append_def last_n_all)
  next
    case spill
    with assms have "ring_start r = 0" by (simp add: ring_inv_def)
    with spill assms inv' show ?thesis
      by (simp add: ring_bytes_eq)
        (simp add: ring_append_def Let_def ring_append_overflow del: diff_diff_right)
  next
    case full
    with assms inv' show ?thesis
      using ring_wrap [of "ring_buf r" maxScrollback "ring_start r" p]
      by (simp add: ring_bytes_eq) (simp add: ring_append_def Let_def ring_inv_def)
  qed
qed

interpretation ring: capped_log maxScrollback ring_empty ring_append ring_bytes ring_inv
proof unfold_locales
  show "ring_bytes ring_empty = []"
    by (simp add: ring_empty_def ring_bytes_def copy_into_def copy_count_def)
  show "ring_inv r \<Longrightarrow> length (ring_bytes r) \<le> maxScrollback" for r
    by (simp add: length_ring_bytes ring_len_def ring_inv_def)
qed (simp_all add: ring_inv_empty ring_append_inv ring_append_bytes)

section \<open>Properties\<close>

text \<open>
  C12. Whatever the chunks the PTY delivers, the replay history holds exactly the last
  \<open>maxScrollback\<close> bytes of their concatenation, in order: the in-place ring is a capped
  log, through growth, the copy at the moment the cap is crossed and every wrap-around.
\<close>

theorem ring_history_exact:
  "ring_bytes (foldl ring_append ring_empty ps) = last_n maxScrollback (concat ps)"
  by (rule ring.contents_from_empty)

end
