(* ===== verification/GoText.thy ===== *)
theory GoText
  imports Prelude
begin

text \<open>
  What the program uses of Go's strings: a Go string is its bytes, \<open>[]rune(s)\<close> decodes
  UTF-8 (an invalid byte decodes to U+FFFD and is skipped alone), \<open>string(rs)\<close> encodes
  (a surrogate or an out-of-range rune encodes as U+FFFD). Also \<open>strings.TrimRight\<close>,
  \<open>strings.Repeat\<close> of a space, \<open>strings.Split\<close> and \<open>strings.Contains\<close> on bytes.
\<close>

type_synonym rune = nat

definition rune_error :: rune where
  "rune_error = 0xFFFD"

definition valid_rune :: "rune \<Rightarrow> bool" where
  "valid_rune r \<longleftrightarrow> r < 0xD800 \<or> (0xE000 \<le> r \<and> r < 0x110000)"

section \<open>Encoding and decoding of runes\<close>

definition byte_in :: "nat \<Rightarrow> nat \<Rightarrow> byte \<Rightarrow> bool" where
  "byte_in lo hi b \<longleftrightarrow> lo \<le> unat b \<and> unat b \<le> hi"

definition cont :: "byte \<Rightarrow> bool" where
  "cont b \<longleftrightarrow> byte_in 0x80 0xBF b"

fun decode2 :: "nat \<Rightarrow> bytes \<Rightarrow> rune \<times> nat" where
  "decode2 c (b1 # _) =
     (if cont b1 then ((c - 0xC0) * 64 + (unat b1 - 0x80), 2) else (rune_error, 1))"
| "decode2 c _ = (rune_error, 1)"

fun decode3 :: "nat \<Rightarrow> bytes \<Rightarrow> rune \<times> nat" where
  "decode3 c (b1 # b2 # _) =
     (if byte_in (if c = 0xE0 then 0xA0 else 0x80) (if c = 0xED then 0x9F else 0xBF) b1 \<and> cont b2
      then ((c - 0xE0) * 4096 + (unat b1 - 0x80) * 64 + (unat b2 - 0x80), 3)
      else (rune_error, 1))"
| "decode3 c _ = (rune_error, 1)"

fun decode4 :: "nat \<Rightarrow> bytes \<Rightarrow> rune \<times> nat" where
  "decode4 c (b1 # b2 # b3 # _) =
     (if byte_in (if c = 0xF0 then 0x90 else 0x80) (if c = 0xF4 then 0x8F else 0xBF) b1
         \<and> cont b2 \<and> cont b3
      then ((c - 0xF0) * 262144 + (unat b1 - 0x80) * 4096 + (unat b2 - 0x80) * 64
            + (unat b3 - 0x80), 4)
      else (rune_error, 1))"
| "decode4 c _ = (rune_error, 1)"

definition decode_lead :: "nat \<Rightarrow> bytes \<Rightarrow> rune \<times> nat" where
  "decode_lead c bs =
     (if c < 0x80 then (c, 1)
      else if 0xC2 \<le> c \<and> c < 0xE0 then decode2 c bs
      else if 0xE0 \<le> c \<and> c < 0xF0 then decode3 c bs
      else if 0xF0 \<le> c \<and> c < 0xF5 then decode4 c bs
      else (rune_error, 1))"

fun decode_rune :: "bytes \<Rightarrow> rune \<times> nat" where
  "decode_rune [] = (rune_error, 0)"
| "decode_rune (b0 # bs) = decode_lead (unat b0) bs"

lemma decode2_size: "0 < snd (decode2 c bs)" by (cases "(c, bs)" rule: decode2.cases) auto
lemma decode3_size: "0 < snd (decode3 c bs)" by (cases "(c, bs)" rule: decode3.cases) auto
lemma decode4_size: "0 < snd (decode4 c bs)" by (cases "(c, bs)" rule: decode4.cases) auto

lemma decode_rune_size: "0 < snd (decode_rune (b # bs))"
  by (simp add: decode_lead_def decode2_size decode3_size decode4_size)

function runes_of :: "bytes \<Rightarrow> rune list" where
  "runes_of [] = []"
| "runes_of (b # bs) =
     (let d = decode_rune (b # bs) in fst d # runes_of (drop (snd d) (b # bs)))"
  by pat_completeness auto
termination
proof (relation "measure length")
  fix b bs d
  assume "d = decode_rune (b # bs)"
  then show "(drop (snd d) (b # bs), b # bs) \<in> measure length"
    using decode_rune_size [of b bs] by simp
qed simp

definition byte_of :: "nat \<Rightarrow> byte" where
  "byte_of n = of_nat n"

definition encode_valid :: "rune \<Rightarrow> bytes" where
  "encode_valid r =
     (if r < 0x80 then [byte_of r]
      else if r < 0x800 then [byte_of (0xC0 + r div 64), byte_of (0x80 + r mod 64)]
      else if r < 0x10000 then
        [byte_of (0xE0 + r div 4096), byte_of (0x80 + r div 64 mod 64), byte_of (0x80 + r mod 64)]
      else
        [byte_of (0xF0 + r div 262144), byte_of (0x80 + r div 4096 mod 64),
         byte_of (0x80 + r div 64 mod 64), byte_of (0x80 + r mod 64)])"

definition encode_rune :: "rune \<Rightarrow> bytes" where
  "encode_rune r = encode_valid (if valid_rune r then r else rune_error)"

definition string_of :: "rune list \<Rightarrow> bytes" where
  "string_of rs = concat (map encode_rune rs)"

definition rune_count :: "bytes \<Rightarrow> nat" where
  "rune_count s = length (runes_of s)"

text \<open>The text as Go re-encodes it: itself, where it is valid UTF-8.\<close>

definition reencode :: "bytes \<Rightarrow> bytes" where
  "reencode s = string_of (runes_of s)"

section \<open>Round trips\<close>

lemma unat_byte_of [simp]: "n < 256 \<Longrightarrow> unat (byte_of n) = n"
  by (simp add: byte_of_def unat_of_nat)

lemma byte_of_unat [simp]: "byte_of (unat b) = b"
  by (simp add: byte_of_def)

lemma unat_byte_of_cont [simp]: "unat (byte_of (0x80 + n mod 64)) = 0x80 + n mod 64"
proof -
  have "n mod 64 < 64" by simp
  then show ?thesis by simp
qed

lemma cont_byte_of: "n < 64 \<Longrightarrow> cont (byte_of (0x80 + n))"
  by (simp add: cont_def byte_in_def)

lemma valid_rune_error [simp]: "valid_rune rune_error"
  by (simp add: valid_rune_def rune_error_def)

lemma digits64:
  fixes r :: nat
  shows "r div 64 * 64 + r mod 64 = r"
    and "r div 4096 * 64 + r div 64 mod 64 = r div 64"
    and "r div 262144 * 64 + r div 4096 mod 64 = r div 4096"
proof -
  show "r div 64 * 64 + r mod 64 = r" by simp
  have "r div 4096 = r div 64 div 64" by (simp flip: div_mult2_eq)
  then show "r div 4096 * 64 + r div 64 mod 64 = r div 64" by simp
  have "r div 262144 = r div 4096 div 64" by (simp flip: div_mult2_eq)
  then show "r div 262144 * 64 + r div 4096 mod 64 = r div 4096" by simp
qed

lemma decode_encode_valid:
  assumes "valid_rune r"
  shows "decode_rune (encode_valid r @ bs) = (r, length (encode_valid r))"
proof -
  note d = digits64 [of r]
  have small: "r div 64 mod 64 < 64" "r mod 64 < 64" "r div 4096 mod 64 < 64" by simp_all
  consider "r < 0x80" | "0x80 \<le> r" "r < 0x800" | "0x800 \<le> r" "r < 0x10000" | "0x10000 \<le> r"
    by linarith
  then show ?thesis
  proof cases
    case 1
    then show ?thesis by (simp add: encode_valid_def decode_lead_def)
  next
    case 2
    then have "r div 64 < 32" "2 \<le> r div 64" using d small by linarith+
    with 2 d show ?thesis
      by (simp add: encode_valid_def decode_lead_def cont_byte_of byte_in_def)
  next
    case 3
    have "r div 4096 < 16" using 3 d small by linarith
    moreover have "r div 4096 = 0 \<Longrightarrow> 32 \<le> r div 64 mod 64" using 3 d small by linarith
    moreover have "r div 4096 = 13 \<Longrightarrow> r div 64 mod 64 \<le> 31"
      using 3 assms d small unfolding valid_rune_def by linarith
    moreover have "r div 4096 * 4096 + r div 64 mod 64 * 64 + r mod 64 = r" using d by linarith
    moreover have "r div 4096 = 0 \<Longrightarrow> r div 64 \<le> 63" "r div 64 mod 64 \<le> 63"
      using d small by linarith+
    ultimately show ?thesis
      using 3 by (simp add: encode_valid_def decode_lead_def cont_byte_of byte_in_def)
  next
    case 4
    have "r div 262144 < 5" using 4 assms d small unfolding valid_rune_def by linarith
    moreover have "r div 262144 = 0 \<Longrightarrow> 16 \<le> r div 4096 mod 64" using 4 d small by linarith
    moreover have "r div 262144 = 4 \<Longrightarrow> r div 4096 mod 64 \<le> 15"
      using 4 assms d small unfolding valid_rune_def by linarith
    moreover have "r div 262144 * 262144 + r div 4096 mod 64 * 4096 + r div 64 mod 64 * 64 + r mod 64 = r"
      using d by linarith
    moreover have "r div 262144 = 0 \<Longrightarrow> r div 4096 \<le> 63" "r div 4096 mod 64 \<le> 63"
      using d small by linarith+
    ultimately show ?thesis
      using 4 by (simp add: encode_valid_def decode_lead_def cont_byte_of byte_in_def)
  qed
qed

lemma encode_valid_nonempty: "encode_valid r \<noteq> []"
  by (simp add: encode_valid_def)

lemma runes_of_unfold:
  "s \<noteq> [] \<Longrightarrow> runes_of s = fst (decode_rune s) # runes_of (drop (snd (decode_rune s)) s)"
  by (cases s) (simp_all add: Let_def)

lemma runes_of_encode:
  "runes_of (encode_rune r @ bs) = (if valid_rune r then r else rune_error) # runes_of bs"
  by (subst runes_of_unfold)
    (simp_all add: encode_rune_def decode_encode_valid encode_valid_nonempty)

theorem runes_of_string_of:
  "runes_of (string_of rs) = map (\<lambda>r. if valid_rune r then r else rune_error) rs"
  by (induction rs) (simp_all add: string_of_def runes_of_encode)

lemma decode2_valid: "0xC2 \<le> c \<Longrightarrow> c < 0xE0 \<Longrightarrow> valid_rune (fst (decode2 c bs))"
  by (cases "(c, bs)" rule: decode2.cases) (auto simp: valid_rune_def rune_error_def cont_def byte_in_def)

lemma decode3_valid:
  assumes "0xE0 \<le> c" and "c < 0xF0"
  shows "valid_rune (fst (decode3 c bs))"
proof (cases "(c, bs)" rule: decode3.cases)
  case (1 c' b1 b2 r)
  then show ?thesis
    using assms by (cases "c = 0xED") (auto simp: valid_rune_def rune_error_def cont_def byte_in_def)
qed auto

lemma decode4_valid: "0xF0 \<le> c \<Longrightarrow> c < 0xF5 \<Longrightarrow> valid_rune (fst (decode4 c bs))"
proof (cases "(c, bs)" rule: decode4.cases)
  case (1 c' b1 b2 b3 r)
  moreover assume "0xF0 \<le> c" and "c < 0xF5"
  ultimately show ?thesis
    by (cases "c = 0xF0"; cases "c = 0xF4") (auto simp: valid_rune_def rune_error_def cont_def byte_in_def)
qed auto

lemma decode_lead_valid: "valid_rune (fst (decode_lead c bs))"
  by (auto simp: decode_lead_def decode2_valid decode3_valid decode4_valid valid_rune_def [of c])

lemma runes_of_valid: "r \<in> set (runes_of s) \<Longrightarrow> valid_rune r"
  by (induction s rule: runes_of.induct) (auto simp: Let_def decode_lead_valid)

lemma runes_of_reencode [simp]: "runes_of (reencode s) = runes_of s"
  by (auto simp: reencode_def runes_of_string_of runes_of_valid intro: map_idI)

lemma runes_of_string_of_valid:
  "\<forall>r\<in>set rs. valid_rune r \<Longrightarrow> runes_of (string_of rs) = rs"
  by (auto simp: runes_of_string_of intro: map_idI)

lemma string_of_append [simp]: "string_of (rs @ ss) = string_of rs @ string_of ss"
  by (simp add: string_of_def)

lemma string_of_Nil [simp]: "string_of [] = []"
  by (simp add: string_of_def)

lemma string_of_concat: "string_of (concat rss) = concat (map string_of rss)"
  by (induction rss) simp_all

text \<open>Plain ASCII text decodes byte by byte.\<close>

lemma runes_of_ascii: "\<forall>b\<in>set s. unat b < 0x80 \<Longrightarrow> runes_of s = map unat s"
  by (induction s) (simp_all add: decode_lead_def Let_def)

lemma string_of_ascii: "\<forall>b\<in>set s. unat b < 0x80 \<Longrightarrow> string_of (map unat s) = s"
  by (induction s) (auto simp: string_of_def encode_rune_def encode_valid_def valid_rune_def)

lemma reencode_ascii: "\<forall>b\<in>set s. unat b < 0x80 \<Longrightarrow> reencode s = s"
  by (simp add: reencode_def runes_of_ascii string_of_ascii)

lemma rune_count_le: "rune_count s \<le> length s"
  unfolding rune_count_def
proof (induction s rule: runes_of.induct)
  case (2 b bs)
  then show ?case using decode_rune_size [of b bs] by (auto simp: Let_def)
qed simp

lemma runes_of_Nil_iff [simp]: "runes_of s = [] \<longleftrightarrow> s = []"
  by (cases s) (simp_all add: Let_def)

section \<open>Spaces, splitting, searching\<close>

definition trim_right_sp :: "bytes \<Rightarrow> bytes" where
  "trim_right_sp s = rev (dropWhile (\<lambda>b. b = 0x20) (rev s))"

lemma trim_right_sp_prefix: "\<exists>k. s = trim_right_sp s @ replicate k 0x20"
proof -
  have "rev s = takeWhile (\<lambda>b. b = 0x20) (rev s) @ dropWhile (\<lambda>b. b = 0x20) (rev s)" by simp
  then have "s = trim_right_sp s @ rev (takeWhile (\<lambda>b. b = 0x20) (rev s))"
    unfolding trim_right_sp_def by (metis rev_append rev_rev_ident)
  moreover have "takeWhile (\<lambda>b. b = 0x20) (rev s)
      = replicate (length (takeWhile (\<lambda>b. b = (0x20::byte)) (rev s))) 0x20"
    by (rule replicate_eqI [symmetric, THEN sym]) (auto dest: set_takeWhileD)
  ultimately show ?thesis by (metis rev_replicate)
qed

lemma dropWhile_replicate_append:
  "P a \<Longrightarrow> dropWhile P (replicate k a @ ys) = dropWhile P ys"
  by (induction k) simp_all

lemma trim_right_sp_snoc_sp [simp]: "trim_right_sp (s @ replicate k 0x20) = trim_right_sp s"
  by (simp add: trim_right_sp_def dropWhile_replicate_append)

lemma trim_right_sp_idem [simp]: "trim_right_sp (trim_right_sp s) = trim_right_sp s"
  by (metis trim_right_sp_prefix trim_right_sp_snoc_sp)

fun split_on :: "'a \<Rightarrow> 'a list \<Rightarrow> 'a list list" where
  "split_on c [] = [[]]"
| "split_on c (x # xs) =
     (if x = c then [] # split_on c xs
      else (case split_on c xs of [] \<Rightarrow> [[x]] | w # ws \<Rightarrow> (x # w) # ws))"

fun contains :: "'a list \<Rightarrow> 'a list \<Rightarrow> bool" where
  "contains [] sub = (sub = [])"
| "contains (x # xs) sub = (prefix sub (x # xs) \<or> contains xs sub)"

lemma contains_iff_sublist: "contains s sub \<longleftrightarrow> sublist sub s"
  by (induction s) (auto simp: sublist_Cons_right)

text \<open>\<open>strconv.Atoi\<close>: an optional sign and at least one decimal digit, in the range of int64.\<close>

fun digits_val :: "nat \<Rightarrow> bytes \<Rightarrow> nat option" where
  "digits_val n [] = Some n"
| "digits_val n (b # bs) =
     (if byte_in 0x30 0x39 b then digits_val (10 * n + (unat b - 0x30)) bs else None)"

definition atoi :: "bytes \<Rightarrow> int option" where
  "atoi s =
     (let neg = (s \<noteq> [] \<and> hd s = 0x2D);
          ds = (if s \<noteq> [] \<and> (hd s = 0x2D \<or> hd s = 0x2B) then tl s else s)
      in if ds = [] then None
         else (case digits_val 0 ds of
                 None \<Rightarrow> None
               | Some n \<Rightarrow>
                   (if neg then (if n \<le> 2 ^ 63 then Some (- int n) else None)
                    else (if n < 2 ^ 63 then Some (int n) else None))))"

end
