(* ===== verification/ScreenText.thy ===== *)
theory ScreenText
  imports GoText
begin

text \<open>
  The pure text routines of \<open>src/pkg/session/vtscreen.go\<close>: wrapping a logical line into
  display rows, counting those rows, erasing the last rune, rewriting the restore-cursor
  sequence for the emulator, and choosing the tail of the raw history that a resize replays.
  Columns, rows and row counts are Go \<open>int\<close>s and may be zero or negative here, as the code's
  guards expect.
\<close>

record bufferLine =
  bl_Text :: bytes
  bl_SoftWrap :: bool
  bl_WrapKnown :: bool

section \<open>Wrapping\<close>

definition wrappedLineCount :: "bytes \<Rightarrow> int \<Rightarrow> int" where
  "wrappedLineCount s width =
     (if width \<le> 0 then 1
      else (let n = int (rune_count s) in if n = 0 then 1 else (n + width - 1) div width))"

text \<open>The loop \<open>for len(runes) > width\<close> and the append that follows it.\<close>

function wrap_loop :: "nat \<Rightarrow> rune list \<Rightarrow> bufferLine list" where
  "wrap_loop w rs =
     (if 0 < w \<and> w < length rs then
        \<lparr>bl_Text = string_of (take w rs), bl_SoftWrap = True, bl_WrapKnown = True\<rparr>
          # wrap_loop w (drop w rs)
      else [\<lparr>bl_Text = string_of rs, bl_SoftWrap = False, bl_WrapKnown = True\<rparr>])"
  by pat_completeness auto
termination by (relation "measure (\<lambda>(w, rs). length rs)") auto

declare wrap_loop.simps [simp del]

definition appendWrappedBufferLines ::
  "bufferLine list \<Rightarrow> bytes \<Rightarrow> int \<Rightarrow> bufferLine list" where
  "appendWrappedBufferLines out s width =
     (if width \<le> 0 \<or> int (rune_count s) \<le> width
      then out @ [\<lparr>bl_Text = s, bl_SoftWrap = False, bl_WrapKnown = True\<rparr>]
      else out @ wrap_loop (nat width) (runes_of s))"

lemma wrap_loop_nonempty [simp]: "wrap_loop w rs \<noteq> []"
  by (subst wrap_loop.simps) simp

lemma wrap_loop_length:
  "0 < w \<Longrightarrow> rs \<noteq> [] \<Longrightarrow> int (length (wrap_loop w rs)) = (int (length rs) + int w - 1) div int w"
proof (induction w rs rule: wrap_loop.induct)
  case (1 w rs)
  show ?case
  proof (cases "w < length rs")
    case True
    then have "int (length (wrap_loop w (drop w rs))) = (int (length rs - w) + int w - 1) div int w"
      using 1 by simp
    also have "\<dots> = (int (length rs) + int w - 1) div int w - 1"
      using True "1.prems" div_add_self2 [of "int w" "int (length rs) - 1"] by (simp add: algebra_simps)
    finally show ?thesis using True "1.prems" by (simp add: wrap_loop.simps [of w rs])
  next
    case False
    have "(int (length rs) + int w - 1) div int w = 1"
      using False "1.prems" by (intro int_div_pos_eq [where r = "int (length rs) - 1"]) auto
    then show ?thesis using False by (simp add: wrap_loop.simps [of w rs])
  qed
qed

lemma wrap_loop_runes:
  "\<forall>r\<in>set rs. valid_rune r \<Longrightarrow> concat (map (\<lambda>l. runes_of (bl_Text l)) (wrap_loop w rs)) = rs"
proof (induction w rs rule: wrap_loop.induct)
  case (1 w rs)
  then have "\<forall>r\<in>set (take w rs). valid_rune r" "\<forall>r\<in>set (drop w rs). valid_rune r"
    by (auto dest: in_set_takeD in_set_dropD)
  with 1 show ?case
    by (subst wrap_loop.simps) (auto simp: runes_of_string_of_valid)
qed

lemma wrap_loop_width:
  "0 < w \<Longrightarrow> \<forall>r\<in>set rs. valid_rune r \<Longrightarrow> l \<in> set (wrap_loop w rs) \<Longrightarrow> rune_count (bl_Text l) \<le> w"
proof (induction w rs rule: wrap_loop.induct)
  case (1 w rs)
  then have "\<forall>r\<in>set (take w rs). valid_rune r" "\<forall>r\<in>set (drop w rs). valid_rune r"
    by (auto dest: in_set_takeD in_set_dropD)
  with 1 show ?case
    by (subst (asm) wrap_loop.simps)
      (auto simp: rune_count_def runes_of_string_of_valid split: if_splits)
qed

lemma wrap_loop_soft:
  "map bl_SoftWrap (wrap_loop w rs) = replicate (length (wrap_loop w rs) - 1) True @ [False]"
proof (induction w rs rule: wrap_loop.induct)
  case (1 w rs)
  show ?case
  proof (cases "0 < w \<and> w < length rs")
    case True
    then have "wrap_loop w rs =
        \<lparr>bl_Text = string_of (take w rs), bl_SoftWrap = True, bl_WrapKnown = True\<rparr> # wrap_loop w (drop w rs)"
      by (simp add: wrap_loop.simps [of w rs])
    moreover have "0 < length (wrap_loop w (drop w rs))" by simp
    ultimately show ?thesis
      using 1 True by (cases "length (wrap_loop w (drop w rs))") auto
  qed (simp add: wrap_loop.simps [of w rs])
qed

lemma appendWrapped_out:
  "appendWrappedBufferLines out s width = out @ appendWrappedBufferLines [] s width"
  by (simp add: appendWrappedBufferLines_def)

lemma appendWrapped_length:
  "int (length (appendWrappedBufferLines [] s width)) = wrappedLineCount s width"
proof (cases "width \<le> 0 \<or> int (rune_count s) \<le> width")
  case True
  moreover have "0 < width \<Longrightarrow> 0 < rune_count s \<Longrightarrow> int (rune_count s) \<le> width \<Longrightarrow>
      (int (rune_count s) + width - 1) div width = 1"
    by (intro int_div_pos_eq [where r = "int (rune_count s) - 1"]) auto
  ultimately show ?thesis
    by (auto simp: appendWrappedBufferLines_def wrappedLineCount_def Let_def)
next
  case False
  then show ?thesis
    using wrap_loop_length [of "nat width" "runes_of s"]
    by (auto simp: appendWrappedBufferLines_def wrappedLineCount_def rune_count_def Let_def)
qed

lemma wrappedLineCount_pos: "1 \<le> wrappedLineCount s width"
proof -
  have "0 < length (appendWrappedBufferLines [] s width)"
    by (simp add: appendWrappedBufferLines_def)
  then have "1 \<le> int (length (appendWrappedBufferLines [] s width))" by linarith
  then show ?thesis by (simp only: appendWrapped_length)
qed

section \<open>Erasing the last rune\<close>

definition trimLastRune :: "bytes \<Rightarrow> bytes" where
  "trimLastRune s = (if s = [] then s else string_of (butlast (runes_of s)))"

lemma trimLastRune_runes: "runes_of (trimLastRune s) = butlast (runes_of s)"
  by (auto simp: trimLastRune_def intro!: runes_of_string_of_valid dest!: in_set_butlastD runes_of_valid)

lemma trimLastRune_ascii: "\<forall>b\<in>set s. unat b < 0x80 \<Longrightarrow> trimLastRune s = butlast s"
  using string_of_ascii [of "butlast s"]
  by (auto simp: trimLastRune_def runes_of_ascii map_butlast [symmetric] dest: in_set_butlastD)

section \<open>Restore cursor\<close>

definition containsESC :: "bytes \<Rightarrow> bool" where
  "containsESC p \<longleftrightarrow> (\<exists>b\<in>set p. b = 0x1B)"

fun scorc_loop :: "bytes \<Rightarrow> bytes" where
  "scorc_loop (a # b # c # rest) =
     (if a = 0x1B \<and> b = 0x5B \<and> c = 0x75 then 0x1B # 0x38 # scorc_loop rest
      else a # scorc_loop (b # c # rest))"
| "scorc_loop p = p"

definition translateSCORC :: "bytes \<Rightarrow> bytes" where
  "translateSCORC p = (if containsESC p then scorc_loop p else p)"

abbreviation SCORC :: bytes where "SCORC \<equiv> [0x1B, 0x5B, 0x75]"

lemma scorc_loop_absent: "\<not> sublist SCORC p \<Longrightarrow> scorc_loop p = p"
  by (induction p rule: scorc_loop.induct) (auto simp: sublist_Cons_right)

lemma scorc_loop_Cons: "\<exists>t. scorc_loop (c # rest) = c # t"
  by (cases "c # rest" rule: scorc_loop.cases) auto

lemma scorc_loop_other: "b \<noteq> 0x1B \<Longrightarrow> scorc_loop (b # q) = b # scorc_loop q"
  by (cases "b # q" rule: scorc_loop.cases) auto

lemma scorc_loop_gone: "\<not> sublist SCORC (scorc_loop p)"
proof (induction p rule: scorc_loop.induct)
  case (1 a b c rest)
  show ?case
  proof (cases "a = 0x1B \<and> b = 0x5B \<and> c = 0x75")
    case True
    with 1 show ?thesis by (auto simp: sublist_Cons_right)
  next
    case False
    have "\<not> prefix SCORC (a # scorc_loop (b # c # rest))"
    proof
      assume pre: "prefix SCORC (a # scorc_loop (b # c # rest))"
      moreover obtain t where "scorc_loop (b # c # rest) = b # t" using scorc_loop_Cons by blast
      ultimately have ab: "a = 0x1B" "b = 0x5B" by auto
      moreover obtain u where "scorc_loop (c # rest) = c # u" using scorc_loop_Cons by blast
      ultimately show False using pre False by (simp add: scorc_loop_other)
    qed
    with 1 False show ?thesis by (auto simp: sublist_Cons_right)
  qed
qed (auto simp: sublist_Cons_right)

lemma translateSCORC_absent: "\<not> sublist SCORC p \<Longrightarrow> translateSCORC p = p"
  by (simp add: translateSCORC_def scorc_loop_absent)

lemma translateSCORC_gone: "\<not> sublist SCORC (translateSCORC p)"
  by (auto simp: translateSCORC_def scorc_loop_gone containsESC_def dest!: set_mono_sublist)

text \<open>A cut that does not fall inside a sequence is invisible.\<close>

definition cuts_scorc :: "bytes \<Rightarrow> bool" where
  "cuts_scorc p \<longleftrightarrow> suffix [0x1B] p \<or> suffix [0x1B, 0x5B] p"

lemma scorc_loop_append:
  "\<not> cuts_scorc p \<Longrightarrow> scorc_loop (p @ q) = scorc_loop p @ scorc_loop q"
proof (induction p rule: scorc_loop.induct)
  case (1 a b c rest)
  then show ?case by (auto simp: cuts_scorc_def suffix_Cons)
next
  case "2_1"
  then show ?case by simp
next
  case "2_2"
  then show ?case
    by (cases q rule: scorc_loop.cases) (auto simp: cuts_scorc_def)
next
  case "2_3"
  then show ?case
    by (cases q rule: scorc_loop.cases) (auto simp: cuts_scorc_def suffix_Cons)
qed

lemma scorc_loop_no_esc: "\<not> containsESC p \<Longrightarrow> scorc_loop p = p"
  by (induction p rule: scorc_loop.induct) (auto simp: containsESC_def)

lemma translateSCORC_loop: "translateSCORC p = scorc_loop p"
  by (simp add: translateSCORC_def scorc_loop_no_esc)

section \<open>The tail a resize replays\<close>

definition reflowPadRows :: int where "reflowPadRows = 8"
definition reflowMaxTail :: nat where "reflowMaxTail = 96 * 1024"

abbreviation NL :: byte where "NL \<equiv> 0x0A"

text \<open>
  The backward loop, with \<open>k\<close> indices still to visit above \<open>low\<close>: it returns the start of
  the tail and whether the loop ran to its bound (\<open>hitCap\<close>).
\<close>

fun reflow_scan :: "bytes \<Rightarrow> int \<Rightarrow> nat \<Rightarrow> nat \<Rightarrow> int \<Rightarrow> nat \<Rightarrow> nat \<times> bool" where
  "reflow_scan raw wantLines low 0 ls start = (start, True)"
| "reflow_scan raw wantLines low (Suc k) ls start =
     (let i = low + k in
      if raw ! i = NL then
        (if wantLines \<le> ls + 1 then (i + 1, False)
         else reflow_scan raw wantLines low k (ls + 1) i)
      else reflow_scan raw wantLines low k ls i)"

fun indexByte :: "bytes \<Rightarrow> byte \<Rightarrow> int" where
  "indexByte [] b = -1"
| "indexByte (x # xs) b =
     (if x = b then 0 else (let j = indexByte xs b in if j = -1 then -1 else j + 1))"

definition reflowTail :: "bytes \<Rightarrow> int \<Rightarrow> bytes" where
  "reflowTail raw rows =
     (let wantLines = rows + reflowPadRows;
          limit = min (length raw) reflowMaxTail;
          (start, hitCap) = reflow_scan raw wantLines (length raw - limit) limit 0 (length raw);
          tail = drop start raw
      in if hitCap \<and> limit < length raw then
           (let nl = indexByte tail NL in
            if 0 \<le> nl \<and> nl + 1 < int (length tail) then drop (nat (nl + 1)) tail else tail)
         else tail)"

lemma indexByte_spec:
  "if b \<in> set xs then (\<exists>j. indexByte xs b = int j \<and> j < length xs \<and> xs ! j = b \<and> b \<notin> set (take j xs))
   else indexByte xs b = -1"
proof (induction xs)
  case (Cons x xs)
  show ?case
  proof (cases "x = b")
    case False
    show ?thesis
    proof (cases "b \<in> set xs")
      case True
      then obtain j where "indexByte xs b = int j" "j < length xs" "xs ! j = b" "b \<notin> set (take j xs)"
        using Cons by auto
      then show ?thesis using True False by (auto intro!: exI [of _ "Suc j"])
    next
      case notin: False
      then show ?thesis using Cons False by simp
    qed
  qed (auto intro!: exI [of _ 0])
qed simp

lemma count_list_take_Suc:
  "n < length xs \<Longrightarrow> count_list (take (Suc n) xs) x = count_list (take n xs) x + (if xs ! n = x then 1 else 0)"
  by (simp add: take_Suc_conv_app_nth count_list_append)

text \<open>Newlines of \<open>raw\<close> from position \<open>a\<close> up to \<open>b\<close>, and what the loop knows when it stops.\<close>

definition nl_between :: "bytes \<Rightarrow> nat \<Rightarrow> nat \<Rightarrow> int" where
  "nl_between raw a b = int (count_list (drop a (take b raw)) NL)"

lemma nl_between_Suc:
  "a \<le> b \<Longrightarrow> b < length raw \<Longrightarrow>
   nl_between raw a (Suc b) = nl_between raw a b + (if raw ! b = NL then 1 else 0)"
  by (simp add: nl_between_def take_Suc_conv_app_nth count_list_append)

lemma nl_between_empty [simp]: "b \<le> a \<Longrightarrow> nl_between raw a b = 0"
  by (simp add: nl_between_def)

lemma reflow_scan_spec:
  assumes "low + k \<le> length raw" and "ls < want" and "reflow_scan raw want low k ls (low + k) = (st, hit)"
  shows "low \<le> st \<and> st \<le> low + k \<and>
    (if hit then st = low \<and> ls + nl_between raw low (low + k) < want
     else 0 < st \<and> raw ! (st - 1) = NL \<and> low < st \<and> ls + nl_between raw st (low + k) = want - 1)"
  using assms
proof (induction k arbitrary: ls)
  case 0
  then show ?case by simp
next
  case (Suc k)
  let ?i = "low + k"
  consider (stop) "raw ! ?i = NL" "want \<le> ls + 1" | (nl) "raw ! ?i = NL" "ls + 1 < want"
    | (other) "raw ! ?i \<noteq> NL" by linarith
  then show ?case
  proof cases
    case stop
    then show ?thesis using Suc.prems by auto
  next
    case nl
    then have "reflow_scan raw want low k (ls + 1) (low + k) = (st, hit)" using Suc.prems by simp
    from Suc.IH [OF _ _ this] nl Suc.prems show ?thesis
      by (auto simp: nl_between_Suc split: if_splits)
  next
    case other
    then have "reflow_scan raw want low k ls (low + k) = (st, hit)" using Suc.prems by simp
    from Suc.IH [OF _ _ this] other Suc.prems show ?thesis
      by (auto simp: nl_between_Suc split: if_splits)
  qed
qed

lemma reflow_scan_start:
  assumes "0 < rows"
  obtains st hit where
    "reflow_scan raw (rows + reflowPadRows) (length raw - min (length raw) reflowMaxTail)
       (min (length raw) reflowMaxTail) 0 (length raw) = (st, hit)"
    and "length raw - reflowMaxTail \<le> st" and "st \<le> length raw"
    and "hit \<longrightarrow> st = length raw - reflowMaxTail \<and>
           int (count_list (last_n reflowMaxTail raw) NL) < rows + reflowPadRows"
    and "\<not> hit \<longrightarrow> 0 < st \<and> raw ! (st - 1) = NL \<and>
           int (count_list (drop st raw) NL) = rows + reflowPadRows - 1"
proof -
  let ?lim = "min (length raw) reflowMaxTail"
  let ?low = "length raw - ?lim"
  obtain st hit where r: "reflow_scan raw (rows + reflowPadRows) ?low ?lim 0 (?low + ?lim) = (st, hit)"
    by (cases "reflow_scan raw (rows + reflowPadRows) ?low ?lim 0 (?low + ?lim)")
  have s: "?low + ?lim = length raw" by simp
  have low: "?low = length raw - reflowMaxTail" by simp
  from reflow_scan_spec [OF _ _ r] assms
  have spec: "?low \<le> st \<and> st \<le> length raw \<and>
    (if hit then st = ?low \<and> nl_between raw ?low (length raw) < rows + reflowPadRows
     else 0 < st \<and> raw ! (st - 1) = NL \<and> ?low < st \<and>
          nl_between raw st (length raw) = rows + reflowPadRows - 1)"
    unfolding s by (simp add: reflowPadRows_def split: if_splits)
  show thesis
    by (rule that [OF r [unfolded s]])
      (use spec in \<open>auto simp: low nl_between_def last_n_def split: if_splits\<close>)
qed

lemma split_before:
  "0 < st \<Longrightarrow> st \<le> length raw \<Longrightarrow> raw ! (st - 1) = x \<Longrightarrow> raw = take (st - 1) raw @ [x] @ drop st raw"
  using id_take_nth_drop [of "st - 1" raw] by simp

lemma reflowTail_shape:
  assumes "0 < rows"
  shows "suffix (reflowTail raw rows) raw" (is ?A)
    and "length (reflowTail raw rows) \<le> reflowMaxTail" (is ?B)
    and "int (count_list (reflowTail raw rows) NL) < rows + reflowPadRows" (is ?C)
    and "rows + reflowPadRows \<le> int (count_list (last_n reflowMaxTail raw) NL) \<Longrightarrow>
         int (count_list (reflowTail raw rows) NL) = rows + reflowPadRows - 1 \<and>
         (\<exists>pre. raw = pre @ [NL] @ reflowTail raw rows)" (is "?P \<Longrightarrow> ?D")
    and "int (count_list raw NL) < rows + reflowPadRows \<Longrightarrow> length raw \<le> reflowMaxTail \<Longrightarrow>
         reflowTail raw rows = raw" (is "?Q \<Longrightarrow> ?R \<Longrightarrow> ?E")
proof -
  obtain st hit where scan:
    "reflow_scan raw (rows + reflowPadRows) (length raw - min (length raw) reflowMaxTail)
       (min (length raw) reflowMaxTail) 0 (length raw) = (st, hit)"
    and st: "length raw - reflowMaxTail \<le> st" "st \<le> length raw"
    and hit: "hit \<longrightarrow> st = length raw - reflowMaxTail \<and>
           int (count_list (last_n reflowMaxTail raw) NL) < rows + reflowPadRows"
    and miss: "\<not> hit \<longrightarrow> 0 < st \<and> raw ! (st - 1) = NL \<and>
           int (count_list (drop st raw) NL) = rows + reflowPadRows - 1"
    by (rule reflow_scan_start [OF assms, of raw]) blast
  define j where "j = (if hit \<and> min (length raw) reflowMaxTail < length raw \<and>
      0 \<le> indexByte (drop st raw) NL \<and> indexByte (drop st raw) NL + 1 < int (length (drop st raw))
    then nat (indexByte (drop st raw) NL + 1) else 0)"
  have t: "reflowTail raw rows = drop j (drop st raw)"
    unfolding reflowTail_def Let_def scan j_def by simp
  have cnt: "count_list (drop j (drop st raw)) NL \<le> count_list (drop st raw) NL"
    by (metis append_take_drop_id count_list_append le_add2)
  show ?A unfolding t by (metis drop_drop suffix_drop)
  show ?B unfolding t using st by simp
  show ?C
  proof (cases hit)
    case True
    then have e: "drop st raw = last_n reflowMaxTail raw" using hit by (simp add: last_n_def)
    show ?thesis using cnt hit True unfolding t e by linarith
  next
    case False
    with cnt miss show ?thesis unfolding t by simp
  qed
  {
    assume P: ?P
    then have "\<not> hit" using hit by auto
    then have "j = 0" and m: "0 < st" "raw ! (st - 1) = NL"
      "int (count_list (drop st raw) NL) = rows + reflowPadRows - 1"
      using miss by (simp_all add: j_def)
    moreover have "raw = take (st - 1) raw @ [NL] @ drop st raw"
      using m st by (intro split_before)
    ultimately show ?D unfolding t by auto
  }
  {
    assume Q: ?Q and R: ?R
    have "count_list (drop st raw) NL \<le> count_list raw NL"
      by (metis append_take_drop_id count_list_append le_add2)
    moreover have "count_list (drop st raw) NL < count_list raw NL" if "\<not> hit"
    proof -
      have "raw = take (st - 1) raw @ [NL] @ drop st raw"
        using that miss st by (intro split_before) simp_all
      from arg_cong [OF this, of "\<lambda>s. count_list s NL"] show ?thesis
        by (simp add: count_list_append del: append_take_drop_id)
    qed
    ultimately have "st = 0" using Q R hit miss by (cases hit) auto
    moreover have "j = 0" using R by (simp add: j_def)
    ultimately show ?E unfolding t by simp
  }
qed

section \<open>Properties\<close>

text \<open>
  Wrapping a logical line for selection loses nothing and agrees with the row count the
  scrollback bookkeeping uses: the rows are as many as \<open>wrappedLineCount\<close> says, their runes
  in order are the runes of the line, none is wider than the screen, and every row but the
  last is marked as a soft wrap.
\<close>

theorem wrapping_preserves_text:
  assumes "0 < width"
  shows "let rows = appendWrappedBufferLines [] s width in
    int (length rows) = wrappedLineCount s width \<and>
    concat (map (\<lambda>l. runes_of (bl_Text l)) rows) = runes_of s \<and>
    list_all (\<lambda>l. int (rune_count (bl_Text l)) \<le> width) rows \<and>
    map bl_SoftWrap rows = replicate (length rows - 1) True @ [False]"
proof -
  let ?rows = "appendWrappedBufferLines [] s width"
  have v: "\<forall>r\<in>set (runes_of s). valid_rune r" by (blast intro: runes_of_valid)
  have "concat (map (\<lambda>l. runes_of (bl_Text l)) ?rows) = runes_of s"
    using wrap_loop_runes [OF v] by (simp add: appendWrappedBufferLines_def)
  moreover have "list_all (\<lambda>l. int (rune_count (bl_Text l)) \<le> width) ?rows"
    using wrap_loop_width [OF _ v, of "nat width"] assms
    by (fastforce simp: appendWrappedBufferLines_def list_all_iff)
  moreover have "map bl_SoftWrap ?rows = replicate (length ?rows - 1) True @ [False]"
    by (simp add: appendWrappedBufferLines_def wrap_loop_soft)
  ultimately show ?thesis by (simp add: Let_def appendWrapped_length)
qed

theorem wrapping_preserves_text_witness:
  "let rows = appendWrappedBufferLines [] [0x61, 0xC3, 0xA9, 0x62] 2
   in concat (map (\<lambda>l. runes_of (bl_Text l)) rows) = [0x61, 0xE9, 0x62]"
proof -
  have "runes_of [0x61, 0xC3, 0xA9, 0x62] = [0x61, 0xE9, 0x62]"
    by (simp add: decode_lead_def cont_def byte_in_def)
  then show ?thesis
    using wrapping_preserves_text [of 2 "[0x61, 0xC3, 0xA9, 0x62]"] by (simp add: Let_def)
qed

text \<open>
  After \<open>translateSCORC\<close> no canonical restore-cursor sequence is left for the emulator to
  ignore, and bytes with none in them (keyboard reports with parameters included) pass
  through unchanged.
\<close>

theorem translateSCORC_complete:
  "\<not> sublist SCORC (translateSCORC p) \<and> (translateSCORC p = p \<longleftrightarrow> \<not> sublist SCORC p)"
  using translateSCORC_gone [of p] translateSCORC_absent [of p] by metis

text \<open>
  The translation sees one write at a time: a chunk boundary outside a sequence is
  invisible, but one that falls inside \<open>ESC [ u\<close> leaves the sequence untranslated although
  the same bytes in one write are translated.
\<close>

theorem translateSCORC_chunks:
  "(\<not> cuts_scorc p \<longrightarrow> translateSCORC (p @ q) = translateSCORC p @ translateSCORC q) \<and>
   translateSCORC [0x1B, 0x5B] @ translateSCORC [0x75] = SCORC \<and>
   translateSCORC ([0x1B, 0x5B] @ [0x75]) = [0x1B, 0x38]"
  by (simp add: translateSCORC_loop scorc_loop_append)

theorem translateSCORC_chunks_witness:
  "translateSCORC ([0x61] @ SCORC) = translateSCORC [0x61] @ translateSCORC SCORC"
  using translateSCORC_chunks [of "[0x61]" SCORC] by (simp add: cuts_scorc_def suffix_Cons)

text \<open>
  The replayed tail of the raw history: a suffix of it, at most \<open>reflowMaxTail\<close> bytes and
  at most a screenful and the pad of lines; when that window holds enough newlines the tail
  starts right after one and has exactly \<open>rows + 7\<close> of them, so it always fills the screen;
  and a history short in both bytes and lines is replayed whole.
\<close>

theorem reflowTail_fills_screen:
  assumes "0 < rows"
  shows "suffix (reflowTail raw rows) raw \<and>
    length (reflowTail raw rows) \<le> reflowMaxTail \<and>
    int (count_list (reflowTail raw rows) NL) < rows + reflowPadRows \<and>
    (rows + reflowPadRows \<le> int (count_list (last_n reflowMaxTail raw) NL) \<longrightarrow>
       int (count_list (reflowTail raw rows) NL) = rows + reflowPadRows - 1 \<and>
       (\<exists>pre. raw = pre @ [NL] @ reflowTail raw rows)) \<and>
    (int (count_list raw NL) < rows + reflowPadRows \<longrightarrow> length raw \<le> reflowMaxTail \<longrightarrow>
       reflowTail raw rows = raw)"
  using reflowTail_shape [OF assms] by blast

theorem reflowTail_fills_screen_witness: "reflowTail (replicate 3 NL) 24 = replicate 3 NL"
  using reflowTail_fills_screen [of 24 "replicate 3 NL"]
  by (simp add: reflowPadRows_def reflowMaxTail_def numeral_3_eq_3)

end
