(* ===== verification/WrapMeta.thy ===== *)
theory WrapMeta
  imports ScreenText
begin

text \<open>
  Which rows of the painted screen are soft wraps (\<open>applyMatchingWrapMetadata\<close> and
  \<open>applyAdjacentWrapMetadata\<close> in \<open>src/pkg/session/vtscreen.go\<close>): the longest run of painted
  rows that equals a run of wrapped logical rows takes over their wrap flags and trailing
  spaces, and a pair of adjacent rows that some logical line joins becomes a soft wrap.
  The display width of a text (\<open>ansi.StringWidth\<close> of the terminal library) is the parameter
  \<open>width_of\<close>.
\<close>

section \<open>The longest matching run\<close>

fun match_len :: "bufferLine list \<Rightarrow> bufferLine list \<Rightarrow> nat" where
  "match_len (v # vs) (l # ls) =
     (if bl_Text v = trim_right_sp (bl_Text l) then Suc (match_len vs ls) else 0)"
| "match_len _ _ = 0"

type_synonym run = "nat \<times> nat \<times> nat"

definition better_run :: "bufferLine list \<Rightarrow> bufferLine list \<Rightarrow> run \<Rightarrow> nat \<times> nat \<Rightarrow> run" where
  "better_run visible logical best pos =
     (let n = match_len (drop (fst pos) visible) (drop (snd pos) logical)
      in if snd (snd best) < n then (fst pos, snd pos, n) else best)"

definition best_run :: "bufferLine list \<Rightarrow> bufferLine list \<Rightarrow> run" where
  "best_run visible logical =
     foldl (better_run visible logical) (0, 0, 0)
       (List.product [0..<length visible] [0..<length logical])"

definition take_wrap :: "bufferLine \<Rightarrow> bufferLine \<Rightarrow> bufferLine" where
  "take_wrap v l =
     (let trailing = length (bl_Text l) - length (trim_right_sp (bl_Text l))
      in v\<lparr>bl_SoftWrap := bl_SoftWrap l, bl_WrapKnown := True,
           bl_Text := bl_Text v @ replicate trailing 0x20\<rparr>)"

definition applyMatchingWrapMetadata :: "bufferLine list \<Rightarrow> bufferLine list \<Rightarrow> bufferLine list" where
  "applyMatchingWrapMetadata visible logical =
     (let (bestVisible, bestLogical, bestLen) = best_run visible logical
      in foldl (\<lambda>vis i. vis[bestVisible + i := take_wrap (vis ! (bestVisible + i)) (logical ! (bestLogical + i))])
           visible [0..<bestLen])"

section \<open>Adjacent rows\<close>

definition adjacent_step ::
  "(bytes \<Rightarrow> int) \<Rightarrow> bytes list \<Rightarrow> int \<Rightarrow> bufferLine list \<Rightarrow> nat \<Rightarrow> bufferLine list" where
  "adjacent_step width_of logical width visible i =
     (let v = visible ! i; nxt = visible ! Suc i; padding = width - width_of (bl_Text v) in
      if bl_WrapKnown v \<or> bl_Text v = [] \<or> bl_Text nxt = [] then visible
      else if padding \<le> 0 then visible
      else
        (let joined = bl_Text v @ replicate (nat padding) 0x20 @ bl_Text nxt in
         if \<exists>source\<in>set logical. contains source joined
         then visible[i := v\<lparr>bl_Text := bl_Text v @ replicate (nat padding) 0x20,
                             bl_SoftWrap := True, bl_WrapKnown := True\<rparr>]
         else visible))"

definition applyAdjacentWrapMetadata ::
  "(bytes \<Rightarrow> int) \<Rightarrow> bufferLine list \<Rightarrow> bytes list \<Rightarrow> int \<Rightarrow> bufferLine list" where
  "applyAdjacentWrapMetadata width_of visible logical width =
     (if width \<le> 0 then visible
      else foldl (adjacent_step width_of logical width) visible [0..<length visible - 1])"

section \<open>Rows only gain trailing spaces\<close>

definition pads_row :: "bufferLine \<Rightarrow> bufferLine \<Rightarrow> bool" where
  "pads_row v w \<longleftrightarrow> (\<exists>k. bl_Text w = bl_Text v @ replicate k 0x20)"

definition pads_rows :: "bufferLine list \<Rightarrow> bufferLine list \<Rightarrow> bool" where
  "pads_rows = list_all2 pads_row"

lemma pads_row_refl [simp]: "pads_row v v"
  by (auto simp: pads_row_def intro: exI [of _ 0])

lemma pads_row_trans: "pads_row u v \<Longrightarrow> pads_row v w \<Longrightarrow> pads_row u w"
  by (auto simp: pads_row_def replicate_add [symmetric])

lemma pads_rows_refl [simp]: "pads_rows vs vs"
  by (simp add: pads_rows_def list_all2_refl)

lemma pads_rows_trans: "pads_rows us vs \<Longrightarrow> pads_rows vs ws \<Longrightarrow> pads_rows us ws"
  unfolding pads_rows_def using list_all2_trans pads_row_trans by blast

lemma pads_rows_length: "pads_rows vs ws \<Longrightarrow> length ws = length vs"
  by (simp add: pads_rows_def list_all2_lengthD)

lemma pads_rows_update: "pads_row (vs ! i) v \<Longrightarrow> pads_rows vs (vs[i := v])"
  by (cases "i < length vs") (auto simp: pads_rows_def list_all2_conv_all_nth nth_list_update list_update_beyond)

lemma pads_rows_foldl:
  "(\<And>vs x. pads_rows vs (f vs x)) \<Longrightarrow> pads_rows vs (foldl f vs xs)"
  by (induction xs arbitrary: vs) (auto intro: pads_rows_trans)

lemma take_wrap_pads: "pads_row v (take_wrap v l)"
  by (auto simp: pads_row_def take_wrap_def Let_def)

lemma applyMatching_pads: "pads_rows visible (applyMatchingWrapMetadata visible logical)"
  unfolding applyMatchingWrapMetadata_def
  by (auto split: prod.split intro!: pads_rows_foldl pads_rows_update take_wrap_pads)

lemma adjacent_step_pads: "pads_rows visible (adjacent_step width_of logical width visible i)"
  by (auto simp: adjacent_step_def Let_def pads_row_def intro!: pads_rows_update)

lemma applyAdjacent_pads: "pads_rows visible (applyAdjacentWrapMetadata width_of visible logical width)"
  by (auto simp: applyAdjacentWrapMetadata_def intro: pads_rows_foldl adjacent_step_pads)

section \<open>The run chosen is a longest one\<close>

lemma better_run_ge: "snd (snd best) \<le> snd (snd (better_run visible logical best pos))"
  by (simp add: better_run_def Let_def)

lemma foldl_better_run_ge:
  "snd (snd best) \<le> snd (snd (foldl (better_run visible logical) best ps))"
proof (induction ps arbitrary: best)
  case (Cons p ps)
  show ?case unfolding foldl.simps by (rule order_trans [OF better_run_ge Cons.IH])
qed simp

lemma foldl_better_run_max:
  "(vi, li) \<in> set ps \<Longrightarrow>
   match_len (drop vi visible) (drop li logical) \<le> snd (snd (foldl (better_run visible logical) best ps))"
proof (induction ps arbitrary: best)
  case (Cons p ps)
  have "(vi, li) = p \<Longrightarrow> match_len (drop vi visible) (drop li logical)
      \<le> snd (snd (better_run visible logical best p))"
    by (auto simp: better_run_def Let_def)
  moreover have "(vi, li) = p \<or> (vi, li) \<in> set ps" using Cons.prems by auto
  ultimately show ?case
    unfolding foldl.simps using Cons.IH by (blast intro: order_trans [OF _ foldl_better_run_ge])
qed simp

lemma match_len_le: "match_len vs ls \<le> length vs \<and> match_len vs ls \<le> length ls"
  by (induction vs ls rule: match_len.induct) auto

definition run_matches :: "bufferLine list \<Rightarrow> bufferLine list \<Rightarrow> run \<Rightarrow> bool" where
  "run_matches visible logical r \<longleftrightarrow>
     (case r of (vi, li, n) \<Rightarrow> n = 0 \<or> n = match_len (drop vi visible) (drop li logical))"

lemma foldl_better_run_matches:
  "run_matches visible logical best \<Longrightarrow>
   run_matches visible logical (foldl (better_run visible logical) best ps)"
  by (induction ps arbitrary: best) (auto simp: better_run_def run_matches_def Let_def)

lemma match_len_nth:
  "i < match_len vs ls \<Longrightarrow> bl_Text (vs ! i) = trim_right_sp (bl_Text (ls ! i))"
  by (induction vs ls arbitrary: i rule: match_len.induct)
    (auto simp: nth_Cons' split: if_splits)

end
