(* ===== verification/Capture.thy ===== *)
theory Capture
  imports ScreenText
begin

text \<open>
  The logical-line capture of a screen (\<open>captureLogicalLines\<close> and what it calls in
  \<open>src/pkg/session/vtscreen.go\<close>). It runs ahead of the terminal emulator over the same bytes
  and keeps, per logical line, the plain text and the text with its colour sequences: the
  scrollback that survives a resize. The record \<open>capture\<close> holds the fields of \<open>VTScreen\<close>
  these functions read and write; \<open>Screen\<close> extends it with the rest.
\<close>

record logicalLine =
  line_ANSI :: bytes
  line_Plain :: bytes

record capture =
  cols :: int
  rows :: int
  logicalScrollback :: "logicalLine list"
  pendingLines :: "logicalLine list"
  pendingRows :: int
  linePlain :: bytes
  lineANSI :: bytes
  pendingControl :: bytes
  captureAltScreen :: bool
  pendingCR :: bool
  pendingCRANSI :: bytes
  observedLines :: "bytes list"
  observedPlain :: bytes
  observedControl :: bytes
  observedCR :: bool

abbreviation ESC :: byte where "ESC \<equiv> 0x1B"
abbreviation CR :: byte where "CR \<equiv> 0x0D"
abbreviation BS :: byte where "BS \<equiv> 0x08"
abbreviation TAB :: byte where "TAB \<equiv> 0x09"

definition maxScrollbackLines :: nat where "maxScrollbackLines = 10000"
definition maxObservedLines :: nat where "maxObservedLines = 256"

section \<open>Control sequences\<close>

definition ansiSequenceComplete :: "bytes \<Rightarrow> bool" where
  "ansiSequenceComplete seq =
     (if seq = [] \<or> seq ! 0 \<noteq> ESC then True
      else if length seq = 1 then False
      else if seq ! 1 = 0x5B then
        (if length seq < 3 then False else 0x40 \<le> last seq \<and> last seq \<le> 0x7E)
      else if seq ! 1 = 0x5D then
        last seq = 0x07 \<or> (3 \<le> length seq \<and> seq ! (length seq - 2) = ESC \<and> last seq = 0x5C)
      else True)"

definition isSGR :: "bytes \<Rightarrow> bool" where
  "isSGR seq \<longleftrightarrow> 3 \<le> length seq \<and> seq ! 0 = ESC \<and> seq ! 1 = 0x5B \<and> last seq = 0x6D"

definition isEraseDisplay :: "bytes \<Rightarrow> byte \<Rightarrow> bool" where
  "isEraseDisplay seq mode \<longleftrightarrow> seq = [ESC, 0x5B, mode, 0x4A]"

definition isRIS :: "bytes \<Rightarrow> bool" where
  "isRIS seq \<longleftrightarrow> seq = [ESC, 0x63]"

section \<open>Observed lines\<close>

definition append_observed :: "bytes list \<Rightarrow> bytes \<Rightarrow> bytes list" where
  "append_observed obs line =
     (let obs' = obs @ [line]; overflow = length obs' - maxObservedLines
      in if 0 < overflow then drop overflow obs' else obs')"

definition finishObservedLine :: "'a capture_scheme \<Rightarrow> 'a capture_scheme" where
  "finishObservedLine s =
     (let s1 = (if observedPlain s \<noteq> []
                then s\<lparr>observedLines := append_observed (observedLines s) (observedPlain s)\<rparr> else s)
      in s1\<lparr>observedPlain := []\<rparr>)"

definition observe_plain :: "'a capture_scheme \<Rightarrow> byte \<Rightarrow> 'a capture_scheme" where
  "observe_plain s b =
     (if b = ESC then s\<lparr>observedControl := [b]\<rparr>
      else if b = CR then s\<lparr>observedCR := True\<rparr>
      else if b = NL then finishObservedLine s
      else if b = BS then s\<lparr>observedPlain := trimLastRune (observedPlain s)\<rparr>
      else if b = TAB then s\<lparr>observedPlain := observedPlain s @ [TAB]\<rparr>
      else if 0x20 \<le> b \<or> 0x80 \<le> b then s\<lparr>observedPlain := observedPlain s @ [b]\<rparr>
      else s)"

definition observe_byte :: "'a capture_scheme \<Rightarrow> byte \<Rightarrow> 'a capture_scheme" where
  "observe_byte s b =
     (if observedControl s \<noteq> [] then
        (let ctl = observedControl s @ [b]
         in s\<lparr>observedControl := (if ansiSequenceComplete ctl then [] else ctl)\<rparr>)
      else if observedCR s then
        (if b = NL then finishObservedLine (s\<lparr>observedCR := False\<rparr>)
         else if b = CR then s
         else if b = ESC then s\<lparr>observedControl := [b]\<rparr>
         else observe_plain (s\<lparr>observedCR := False, observedPlain := []\<rparr>) b)
      else observe_plain s b)"

definition captureObservedLines :: "'a capture_scheme \<Rightarrow> bytes \<Rightarrow> 'a capture_scheme" where
  "captureObservedLines s p = foldl observe_byte s p"

section \<open>Committing lines\<close>

definition appendLogicalScrollback :: "logicalLine list \<Rightarrow> logicalLine \<Rightarrow> logicalLine list" where
  "appendLogicalScrollback sb line =
     (let sb' = sb @ [line]; overflow = length sb' - maxScrollbackLines
      in if 0 < overflow then drop overflow sb' else sb')"

text \<open>
  The loop of \<open>flushPendingLogicalLines\<close>: scrollback, pending rows and pending lines after it.
\<close>

fun flush_loop :: "int \<Rightarrow> int \<Rightarrow> logicalLine list \<Rightarrow> int \<Rightarrow> logicalLine list \<Rightarrow>
    logicalLine list \<times> int \<times> logicalLine list" where
  "flush_loop c r sb pr [] = (sb, pr, [])"
| "flush_loop c r sb pr (l # ls) =
     (if r < pr
      then flush_loop c r (appendLogicalScrollback sb l) (pr - wrappedLineCount (line_Plain l) c) ls
      else (sb, pr, l # ls))"

definition flushPendingLogicalLines :: "'a capture_scheme \<Rightarrow> 'a capture_scheme" where
  "flushPendingLogicalLines s =
     (let (sb, pr, ls) =
        flush_loop (cols s) (rows s) (logicalScrollback s) (pendingRows s) (pendingLines s)
      in s\<lparr>logicalScrollback := sb, pendingRows := pr, pendingLines := ls\<rparr>)"

definition finishLogicalLine :: "'a capture_scheme \<Rightarrow> 'a capture_scheme" where
  "finishLogicalLine s =
     (let line = \<lparr>line_ANSI = lineANSI s, line_Plain = linePlain s\<rparr>
      in flushPendingLogicalLines
           (s\<lparr>pendingLines := pendingLines s @ [line],
              pendingRows := pendingRows s + wrappedLineCount (line_Plain line) (cols s),
              linePlain := [], lineANSI := []\<rparr>))"

definition recalcPendingRows :: "'a capture_scheme \<Rightarrow> 'a capture_scheme" where
  "recalcPendingRows s =
     s\<lparr>pendingRows := foldl (\<lambda>n l. n + wrappedLineCount (line_Plain l) (cols s)) 0 (pendingLines s)\<rparr>"

definition clearLogicalScreen :: "'a capture_scheme \<Rightarrow> 'a capture_scheme" where
  "clearLogicalScreen s =
     s\<lparr>pendingLines := [], pendingRows := 0, linePlain := [], lineANSI := [],
       pendingCR := False, pendingCRANSI := [],
       observedLines := [], observedPlain := [], observedCR := False\<rparr>"

definition captureControlSequence :: "'a capture_scheme \<Rightarrow> bytes \<Rightarrow> 'a capture_scheme" where
  "captureControlSequence s seq =
     (if isSGR seq then s\<lparr>lineANSI := lineANSI s @ seq\<rparr>
      else if isEraseDisplay seq 0x32 then clearLogicalScreen s
      else if isEraseDisplay seq 0x33 then s\<lparr>logicalScrollback := [], observedLines := []\<rparr>
      else if isRIS seq then clearLogicalScreen (s\<lparr>logicalScrollback := []\<rparr>)
      else s)"

text \<open>
  The DEC private modes that switch screens: 1047 and 1049, the values of
  \<open>ansi.ModeAltScreen\<close> and \<open>ansi.ModeAltScreenSaveCursor\<close>
  (see \<open>src/pkg/session/vtscreen_altscreen_test.go\<close>).
\<close>

definition alt_screen_mode :: "int \<Rightarrow> bool" where
  "alt_screen_mode m \<longleftrightarrow> m = 1047 \<or> m = 1049"

definition captureScreenSwitch :: "'a capture_scheme \<Rightarrow> bytes \<Rightarrow> 'a capture_scheme \<times> bool" where
  "captureScreenSwitch s seq =
     (if isRIS seq then (s\<lparr>captureAltScreen := False\<rparr>, False)
      else if length seq < 5 \<or> take 3 seq \<noteq> [ESC, 0x5B, 0x3F] then (s, False)
      else if last seq \<noteq> 0x68 \<and> last seq \<noteq> 0x6C then (s, False)
      else
        foldl (\<lambda>(s, switched) param.
                 case atoi param of
                   None \<Rightarrow> (s, switched)
                 | Some mode \<Rightarrow>
                     (if alt_screen_mode mode
                      then (s\<lparr>captureAltScreen := (last seq = 0x68)\<rparr>, True)
                      else (s, switched)))
          (s, False) (split_on 0x3B (drop 3 (butlast seq))))"

section \<open>One byte of output\<close>

definition capture_plain :: "'a capture_scheme \<Rightarrow> byte \<Rightarrow> 'a capture_scheme" where
  "capture_plain s b =
     (if b = ESC then s\<lparr>pendingControl := [b]\<rparr>
      else if b = CR then s\<lparr>pendingCR := True, pendingCRANSI := []\<rparr>
      else if b = NL then finishLogicalLine s
      else if b = BS then
        s\<lparr>linePlain := trimLastRune (linePlain s), lineANSI := trimLastRune (lineANSI s)\<rparr>
      else if b = TAB then
        s\<lparr>linePlain := linePlain s @ [TAB], lineANSI := lineANSI s @ [TAB]\<rparr>
      else if 0x20 \<le> b \<or> 0x80 \<le> b then
        s\<lparr>linePlain := linePlain s @ [b], lineANSI := lineANSI s @ [b]\<rparr>
      else s)"

definition capture_sequence :: "'a capture_scheme \<Rightarrow> bytes \<Rightarrow> 'a capture_scheme" where
  "capture_sequence s ctl =
     (let (s1, switched) = captureScreenSwitch s ctl in
      if switched \<or> captureAltScreen s1 then s1\<lparr>pendingControl := []\<rparr>
      else
        (let s2 = captureObservedLines s1 ctl;
             s3 = (if pendingCR s2 \<and> isSGR ctl
                   then s2\<lparr>pendingCRANSI := pendingCRANSI s2 @ ctl\<rparr>
                   else captureControlSequence
                     (if pendingCR s2
                      then s2\<lparr>pendingCR := False, pendingCRANSI := [], linePlain := [], lineANSI := []\<rparr>
                      else s2) ctl)
         in s3\<lparr>pendingControl := []\<rparr>))"

definition capture_after_cr :: "'a capture_scheme \<Rightarrow> byte \<Rightarrow> 'a capture_scheme" where
  "capture_after_cr s b =
     (if b = NL then finishLogicalLine (s\<lparr>pendingCR := False, pendingCRANSI := []\<rparr>)
      else if b = CR then s\<lparr>pendingCRANSI := []\<rparr>
      else if b = ESC then s\<lparr>pendingControl := [b]\<rparr>
      else capture_plain
        (s\<lparr>pendingCR := False, linePlain := [], lineANSI := pendingCRANSI s, pendingCRANSI := []\<rparr>) b)"

definition capture_byte :: "'a capture_scheme \<Rightarrow> byte \<Rightarrow> 'a capture_scheme" where
  "capture_byte s b =
     (if pendingControl s \<noteq> [] then
        (let ctl = pendingControl s @ [b]; s1 = s\<lparr>pendingControl := ctl\<rparr>
         in if ansiSequenceComplete ctl then capture_sequence s1 ctl else s1)
      else if captureAltScreen s then
        (if b = ESC then s\<lparr>pendingControl := pendingControl s @ [b]\<rparr> else s)
      else
        (let s1 = (if b \<noteq> ESC then captureObservedLines s [b] else s)
         in if pendingCR s1 then capture_after_cr s1 b else capture_plain s1 b))"

definition captureLogicalLines :: "'a capture_scheme \<Rightarrow> bytes \<Rightarrow> 'a capture_scheme" where
  "captureLogicalLines s p = foldl capture_byte s p"

definition writeLogicalRender :: "'a capture_scheme \<Rightarrow> bool \<Rightarrow> bytes" where
  "writeLogicalRender s includeScrollback =
     (let sb = (if includeScrollback
                then concat (map (\<lambda>l. line_ANSI l @ [NL]) (logicalScrollback s)) else []);
          pend = concat (map (\<lambda>l. line_ANSI l @ [NL]) (pendingLines s));
          currentRows = (if lineANSI s \<noteq> [] then pendingRows s + wrappedLineCount (linePlain s) (cols s)
                         else pendingRows s + 1)
      in sb @ pend @ lineANSI s @ replicate (nat (rows s - currentRows)) NL)"

definition new_capture :: "int \<Rightarrow> int \<Rightarrow> capture" where
  "new_capture c r =
     \<lparr>cols = c, rows = r, logicalScrollback = [], pendingLines = [], pendingRows = 0,
      linePlain = [], lineANSI = [], pendingControl = [], captureAltScreen = False,
      pendingCR = False, pendingCRANSI = [], observedLines = [], observedPlain = [],
      observedControl = [], observedCR = False\<rparr>"

section \<open>The capped logs\<close>

lemma appendLogicalScrollback_last_n:
  "appendLogicalScrollback sb l = last_n maxScrollbackLines (sb @ [l])"
  by (auto simp: appendLogicalScrollback_def last_n_def Let_def)

lemma append_observed_last_n: "append_observed obs l = last_n maxObservedLines (obs @ [l])"
  by (auto simp: append_observed_def last_n_def Let_def)

interpretation sblog: capped_queue maxScrollbackLines "[]" appendLogicalScrollback id
    "\<lambda>sb. length sb \<le> maxScrollbackLines"
  by unfold_locales (auto simp: appendLogicalScrollback_last_n)

interpretation obslog: capped_queue maxObservedLines "[]" append_observed id
    "\<lambda>obs. length obs \<le> maxObservedLines"
  by unfold_locales (auto simp: append_observed_last_n)

section \<open>What each step leaves alone\<close>

named_theorems capture_frame \<open>fields a capture function does not write\<close>

lemma finishObservedLine_frame [capture_frame]:
  "cols (finishObservedLine s) = cols s" "rows (finishObservedLine s) = rows s"
  "logicalScrollback (finishObservedLine s) = logicalScrollback s"
  "pendingLines (finishObservedLine s) = pendingLines s"
  "pendingRows (finishObservedLine s) = pendingRows s"
  "linePlain (finishObservedLine s) = linePlain s" "lineANSI (finishObservedLine s) = lineANSI s"
  "pendingControl (finishObservedLine s) = pendingControl s"
  "captureAltScreen (finishObservedLine s) = captureAltScreen s"
  "pendingCR (finishObservedLine s) = pendingCR s"
  "pendingCRANSI (finishObservedLine s) = pendingCRANSI s"
  "observedControl (finishObservedLine s) = observedControl s"
  "observedCR (finishObservedLine s) = observedCR s"
  by (simp_all add: finishObservedLine_def Let_def)

lemma observe_byte_frame [capture_frame]:
  "cols (observe_byte s b) = cols s" "rows (observe_byte s b) = rows s"
  "logicalScrollback (observe_byte s b) = logicalScrollback s"
  "pendingLines (observe_byte s b) = pendingLines s"
  "pendingRows (observe_byte s b) = pendingRows s"
  "linePlain (observe_byte s b) = linePlain s" "lineANSI (observe_byte s b) = lineANSI s"
  "pendingControl (observe_byte s b) = pendingControl s"
  "captureAltScreen (observe_byte s b) = captureAltScreen s"
  "pendingCR (observe_byte s b) = pendingCR s"
  "pendingCRANSI (observe_byte s b) = pendingCRANSI s"
  by (simp_all add: observe_byte_def observe_plain_def Let_def capture_frame)

lemma captureObservedLines_frame [capture_frame]:
  "cols (captureObservedLines s p) = cols s" "rows (captureObservedLines s p) = rows s"
  "logicalScrollback (captureObservedLines s p) = logicalScrollback s"
  "pendingLines (captureObservedLines s p) = pendingLines s"
  "pendingRows (captureObservedLines s p) = pendingRows s"
  "linePlain (captureObservedLines s p) = linePlain s"
  "lineANSI (captureObservedLines s p) = lineANSI s"
  "pendingControl (captureObservedLines s p) = pendingControl s"
  "captureAltScreen (captureObservedLines s p) = captureAltScreen s"
  "pendingCR (captureObservedLines s p) = pendingCR s"
  "pendingCRANSI (captureObservedLines s p) = pendingCRANSI s"
  unfolding captureObservedLines_def
  by (induction p arbitrary: s) (simp_all add: capture_frame)

lemma captureScreenSwitch_frame [capture_frame]:
  "\<exists>alt. fst (captureScreenSwitch s seq) = s\<lparr>captureAltScreen := alt\<rparr>"
proof -
  let ?f = "\<lambda>(s :: 'a capture_scheme, switched) param.
     case atoi param of None \<Rightarrow> (s, switched)
     | Some mode \<Rightarrow> if alt_screen_mode mode
         then (s\<lparr>captureAltScreen := (last seq = 0x68)\<rparr>, True) else (s, switched)"
  have "\<exists>alt. fst (foldl ?f (s, w) ps) = s\<lparr>captureAltScreen := alt\<rparr>" for w ps
  proof (induction ps arbitrary: s w)
    case Nil
    show ?case by (auto intro: exI [of _ "captureAltScreen s"])
  next
    case (Cons p ps)
    show ?case
      using Cons.IH [of s w] Cons.IH [of "s\<lparr>captureAltScreen := (last seq = 0x68)\<rparr>" True]
      by (auto split: option.split)
  qed
  moreover have "\<exists>alt. s = s\<lparr>captureAltScreen := alt\<rparr>"
    by (auto intro: exI [of _ "captureAltScreen s"])
  ultimately show ?thesis
    by (auto simp: captureScreenSwitch_def)
qed

section \<open>Flushing\<close>

definition rows_of :: "int \<Rightarrow> logicalLine list \<Rightarrow> int" where
  "rows_of c ls = (\<Sum>l\<leftarrow>ls. wrappedLineCount (line_Plain l) c)"

lemma rows_of_simps [simp]:
  "rows_of c [] = 0" "rows_of c (l # ls) = wrappedLineCount (line_Plain l) c + rows_of c ls"
  "rows_of c (ls @ ms) = rows_of c ls + rows_of c ms"
  by (simp_all add: rows_of_def)

lemma rows_of_nonneg: "int (length ls) \<le> rows_of c ls"
proof (induction ls)
  case (Cons l ls)
  then show ?case using wrappedLineCount_pos [of "line_Plain l" c] by simp
qed simp

lemma recalc_rows: "foldl (\<lambda>n l. n + wrappedLineCount (line_Plain l) c) k ls = k + rows_of c ls"
  by (induction ls arbitrary: k) simp_all

text \<open>
  A flush moves a prefix of the pending lines, in order, to the scrollback: just enough of
  them for the rest to fit on the screen.
\<close>

lemma flush_loop_spec:
  assumes "pr = rows_of c ls" and "length sb \<le> maxScrollbackLines"
  shows "\<exists>moved rest. ls = moved @ rest \<and>
    flush_loop c r sb pr ls = (last_n maxScrollbackLines (sb @ moved), rows_of c rest, rest) \<and>
    (rest = [] \<or> rows_of c rest \<le> r) \<and> (moved \<noteq> [] \<longrightarrow> r < rows_of c (last moved # rest))"
  using assms
proof (induction ls arbitrary: sb pr)
  case Nil
  then show ?case by (simp add: last_n_all)
next
  case (Cons l ls)
  show ?case
  proof (cases "r < pr")
    case True
    have "\<exists>moved rest. ls = moved @ rest \<and>
        flush_loop c r (appendLogicalScrollback sb l) (rows_of c ls) ls =
          (last_n maxScrollbackLines (appendLogicalScrollback sb l @ moved), rows_of c rest, rest) \<and>
        (rest = [] \<or> rows_of c rest \<le> r) \<and> (moved \<noteq> [] \<longrightarrow> r < rows_of c (last moved # rest))"
      by (rule Cons.IH) (simp_all add: appendLogicalScrollback_last_n)
    then obtain moved rest where
      "ls = moved @ rest"
      "flush_loop c r (appendLogicalScrollback sb l) (rows_of c ls) ls =
         (last_n maxScrollbackLines (appendLogicalScrollback sb l @ moved), rows_of c rest, rest)"
      "rest = [] \<or> rows_of c rest \<le> r" "moved \<noteq> [] \<longrightarrow> r < rows_of c (last moved # rest)"
      by blast
    with True Cons.prems show ?thesis
      by (intro exI [of _ "l # moved"] exI [of _ rest])
        (auto simp: appendLogicalScrollback_last_n last_n_last_n_append)
  next
    case False
    with Cons.prems show ?thesis
      by (intro exI [of _ "[]"] exI [of _ "l # ls"]) (auto simp: last_n_all)
  qed
qed

definition history :: "'a capture_scheme \<Rightarrow> logicalLine list" where
  "history s = logicalScrollback s @ pendingLines s"

section \<open>The invariant\<close>

definition open_seq :: "bytes \<Rightarrow> bool" where
  "open_seq c \<longleftrightarrow> (\<forall>k. 0 < k \<longrightarrow> k \<le> length c \<longrightarrow> \<not> ansiSequenceComplete (take k c))"

definition capture_inv :: "'a capture_scheme \<Rightarrow> bool" where
  "capture_inv s \<longleftrightarrow>
     pendingRows s = rows_of (cols s) (pendingLines s) \<and>
     (pendingLines s = [] \<or> pendingRows s \<le> rows s) \<and>
     length (logicalScrollback s) \<le> maxScrollbackLines \<and>
     length (observedLines s) \<le> maxObservedLines \<and>
     open_seq (pendingControl s) \<and> open_seq (observedControl s) \<and>
     (pendingCRANSI s \<noteq> [] \<longrightarrow> pendingCR s)"

lemma open_seq_Nil [simp]: "open_seq []"
  by (simp add: open_seq_def)

lemma open_seq_ESC [simp]: "open_seq [ESC]"
  by (simp add: open_seq_def ansiSequenceComplete_def less_Suc_eq_le le_Suc_eq)

lemma open_seq_snoc: "open_seq c \<Longrightarrow> \<not> ansiSequenceComplete (c @ [b]) \<Longrightarrow> open_seq (c @ [b])"
  by (auto simp: open_seq_def le_Suc_eq)

lemma open_seq_Cons: "open_seq (a # t) \<Longrightarrow> a = ESC"
proof (rule ccontr)
  assume "open_seq (a # t)" and "a \<noteq> ESC"
  then have "0 < Suc 0 \<longrightarrow> Suc 0 \<le> length (a # t) \<longrightarrow> \<not> ansiSequenceComplete (take (Suc 0) (a # t))"
    unfolding open_seq_def by blast
  then have "\<not> ansiSequenceComplete [a]" by simp
  with \<open>a \<noteq> ESC\<close> show False by (simp add: ansiSequenceComplete_def)
qed

lemma new_capture_inv: "capture_inv (new_capture c r)"
  by (simp add: capture_inv_def new_capture_def)

lemma finishLogicalLine_eq:
  assumes "capture_inv s"
  defines "line \<equiv> \<lparr>line_ANSI = lineANSI s, line_Plain = linePlain s\<rparr>"
  shows "\<exists>moved rest. pendingLines s @ [line] = moved @ rest \<and>
    finishLogicalLine s =
      s\<lparr>logicalScrollback := last_n maxScrollbackLines (logicalScrollback s @ moved),
        pendingRows := rows_of (cols s) rest, pendingLines := rest,
        linePlain := [], lineANSI := []\<rparr> \<and>
    (rest = [] \<or> rows_of (cols s) rest \<le> rows s) \<and>
    (moved \<noteq> [] \<longrightarrow> rows s < rows_of (cols s) (last moved # rest))"
proof -
  from assms have "pendingRows s + wrappedLineCount (linePlain s) (cols s)
      = rows_of (cols s) (pendingLines s @ [line])"
    by (simp add: capture_inv_def)
  moreover have "length (logicalScrollback s) \<le> maxScrollbackLines"
    using assms by (simp add: capture_inv_def)
  ultimately obtain moved rest where "pendingLines s @ [line] = moved @ rest"
    "flush_loop (cols s) (rows s) (logicalScrollback s)
       (pendingRows s + wrappedLineCount (linePlain s) (cols s)) (pendingLines s @ [line])
     = (last_n maxScrollbackLines (logicalScrollback s @ moved), rows_of (cols s) rest, rest)"
    "rest = [] \<or> rows_of (cols s) rest \<le> rows s"
    "moved \<noteq> [] \<longrightarrow> rows s < rows_of (cols s) (last moved # rest)"
    using flush_loop_spec by blast
  then show ?thesis
    by (intro exI [of _ moved] exI [of _ rest])
      (simp add: finishLogicalLine_def flushPendingLogicalLines_def Let_def line_def)
qed

lemma finishLogicalLine_inv: "capture_inv s \<Longrightarrow> capture_inv (finishLogicalLine s)"
  using finishLogicalLine_eq [of s] by (auto simp: capture_inv_def)

lemma finishObservedLine_inv: "capture_inv s \<Longrightarrow> capture_inv (finishObservedLine s)"
  by (auto simp: capture_inv_def finishObservedLine_def append_observed_last_n Let_def)

lemma observe_plain_inv: "capture_inv s \<Longrightarrow> capture_inv (observe_plain s b)"
  by (auto simp: observe_plain_def finishObservedLine_inv) (auto simp: capture_inv_def)

lemma capture_inv_observed:
  "capture_inv s \<Longrightarrow> capture_inv (s\<lparr>observedCR := cr\<rparr>)"
  "capture_inv s \<Longrightarrow> capture_inv (s\<lparr>observedPlain := x\<rparr>)"
  "capture_inv s \<Longrightarrow> open_seq c \<Longrightarrow> capture_inv (s\<lparr>observedControl := c\<rparr>)"
  by (auto simp: capture_inv_def)

lemma capture_inv_open: "capture_inv s \<Longrightarrow> open_seq (pendingControl s) \<and> open_seq (observedControl s)"
  by (simp add: capture_inv_def)

lemma observe_byte_inv:
  assumes "capture_inv s"
  shows "capture_inv (observe_byte s b)"
proof -
  have "capture_inv (s\<lparr>observedCR := False, observedPlain := []\<rparr>)"
    using assms by (intro capture_inv_observed)
  then show ?thesis
    using assms capture_inv_open [OF assms] open_seq_snoc [of "observedControl s" b]
    by (simp add: observe_byte_def Let_def finishObservedLine_inv observe_plain_inv capture_inv_observed)
qed

lemma captureObservedLines_inv: "capture_inv s \<Longrightarrow> capture_inv (captureObservedLines s p)"
  unfolding captureObservedLines_def
  by (induction p arbitrary: s) (auto intro: observe_byte_inv)

lemma capture_plain_inv: "capture_inv s \<Longrightarrow> capture_inv (capture_plain s b)"
  by (auto simp: capture_plain_def finishLogicalLine_inv) (auto simp: capture_inv_def)

lemma clearLogicalScreen_inv: "capture_inv s \<Longrightarrow> capture_inv (clearLogicalScreen s)"
  by (auto simp: clearLogicalScreen_def capture_inv_def)

lemma captureControlSequence_inv: "capture_inv s \<Longrightarrow> capture_inv (captureControlSequence s seq)"
  by (auto simp: captureControlSequence_def clearLogicalScreen_def capture_inv_def)

lemma capture_after_cr_inv: "capture_inv s \<Longrightarrow> pendingCR s \<Longrightarrow> capture_inv (capture_after_cr s b)"
proof -
  assume inv: "capture_inv s" and cr: "pendingCR s"
  have "capture_inv (s\<lparr>pendingCR := False, pendingCRANSI := []\<rparr>)"
    "capture_inv (s\<lparr>pendingCR := False, linePlain := [], lineANSI := pendingCRANSI s, pendingCRANSI := []\<rparr>)"
    "capture_inv (s\<lparr>pendingCRANSI := []\<rparr>)" "capture_inv (s\<lparr>pendingControl := [ESC]\<rparr>)"
    using inv by (auto simp: capture_inv_def)
  then show ?thesis
    by (auto simp: capture_after_cr_def finishLogicalLine_inv capture_plain_inv)
qed

lemma observe_byte_control:
  "observe_byte (s\<lparr>pendingControl := c\<rparr>) b = (observe_byte s b)\<lparr>pendingControl := c\<rparr>"
  by (simp add: observe_byte_def observe_plain_def finishObservedLine_def Let_def)

lemma captureObservedLines_control:
  "captureObservedLines (s\<lparr>pendingControl := c\<rparr>) p = (captureObservedLines s p)\<lparr>pendingControl := c\<rparr>"
  unfolding captureObservedLines_def
  by (induction p arbitrary: s) (simp_all add: observe_byte_control)

lemma captureControlSequence_control:
  "(captureControlSequence s ctl)\<lparr>pendingControl := c\<rparr> =
   captureControlSequence (s\<lparr>pendingControl := c\<rparr>) ctl"
  by (simp add: captureControlSequence_def clearLogicalScreen_def)

lemma capture_sequence_inv:
  assumes "capture_inv (s\<lparr>pendingControl := []\<rparr>)"
  shows "capture_inv (capture_sequence s ctl)"
proof -
  obtain alt w where sw: "captureScreenSwitch s ctl = (s\<lparr>captureAltScreen := alt\<rparr>, w)"
    using captureScreenSwitch_frame [of s ctl] by (metis prod.collapse)
  define s1 where "s1 = s\<lparr>captureAltScreen := alt\<rparr>"
  define s2 where "s2 = (captureObservedLines s1 ctl)\<lparr>pendingControl := []\<rparr>"
  have s1: "capture_inv (s1\<lparr>pendingControl := []\<rparr>)" using assms by (auto simp: capture_inv_def s1_def)
  then have s2: "capture_inv s2"
    unfolding s2_def captureObservedLines_control [symmetric] by (rule captureObservedLines_inv)
  have "capture_sequence s ctl =
     (if w \<or> alt then s1\<lparr>pendingControl := []\<rparr>
      else if pendingCR s2 \<and> isSGR ctl then s2\<lparr>pendingCRANSI := pendingCRANSI s2 @ ctl\<rparr>
      else captureControlSequence
        (if pendingCR s2
         then (captureObservedLines s1 ctl)\<lparr>pendingCR := False, pendingCRANSI := [], linePlain := [],
                lineANSI := [], pendingControl := []\<rparr> else s2) ctl)"
    unfolding capture_sequence_def sw Let_def prod.case s2_def s1_def
    by (simp add: captureControlSequence_control)
  moreover have "capture_inv ((captureObservedLines s1 ctl)\<lparr>pendingCR := False, pendingCRANSI := [],
      linePlain := [], lineANSI := [], pendingControl := []\<rparr>)"
    using s2 unfolding s2_def by (auto simp: capture_inv_def)
  moreover have "capture_inv (s2\<lparr>pendingCRANSI := pendingCRANSI s2 @ ctl\<rparr>)" if "pendingCR s2"
    using s2 that by (auto simp: capture_inv_def)
  ultimately show ?thesis using s1 s2 by (simp add: captureControlSequence_inv)
qed

lemma capture_byte_inv: "capture_inv s \<Longrightarrow> capture_inv (capture_byte s b)"
proof -
  assume inv: "capture_inv s"
  have ctl: "capture_inv (s\<lparr>pendingControl := c\<rparr>)" if "open_seq c" for c
    using inv that by (auto simp: capture_inv_def)
  have seq: "capture_inv (capture_sequence (s\<lparr>pendingControl := c\<rparr>) c)" for c
    by (rule capture_sequence_inv) (simp add: ctl)
  have o: "capture_inv (captureObservedLines s [b])" using inv by (rule captureObservedLines_inv)
  show ?thesis
    using inv ctl seq o open_seq_snoc [of "pendingControl s" b]
    by (auto simp: capture_byte_def Let_def capture_after_cr_inv capture_plain_inv
        capture_frame capture_inv_def [of s])
qed

lemma captureLogicalLines_inv: "capture_inv s \<Longrightarrow> capture_inv (captureLogicalLines s p)"
  unfolding captureLogicalLines_def
  by (induction p arbitrary: s) (auto intro: capture_byte_inv)

end
