(* ===== verification/CaptureProps.thy ===== *)
theory CaptureProps
  imports Capture
begin

text \<open>
  What the logical-line capture of a screen guarantees: its invariant on every stream, the
  conservation of committed lines, its exact result on ordinary line output and in-place
  redraws, and the agreement of the coloured text with the plain text.
\<close>

section \<open>Runs of plain text\<close>

definition plain_byte :: "byte \<Rightarrow> bool" where
  "plain_byte b \<longleftrightarrow> 0x20 \<le> b \<or> b = TAB"

definition plain_text :: "bytes \<Rightarrow> bool" where
  "plain_text l \<longleftrightarrow> list_all plain_byte l"

lemma plain_text_simps [simp]:
  "plain_text []" "plain_text (b # l) \<longleftrightarrow> plain_byte b \<and> plain_text l"
  by (simp_all add: plain_text_def)

lemma plain_byte_not_control:
  "plain_byte b \<Longrightarrow> b \<noteq> ESC \<and> b \<noteq> CR \<and> b \<noteq> NL \<and> b \<noteq> BS"
  by (auto simp: plain_byte_def)

text \<open>The fields of a capture that line output moves, without the observed lines.\<close>

definition same_core :: "'a capture_scheme \<Rightarrow> 'a capture_scheme \<Rightarrow> bool" where
  "same_core s t \<longleftrightarrow>
     cols s = cols t \<and> rows s = rows t \<and> logicalScrollback s = logicalScrollback t \<and>
     pendingLines s = pendingLines t \<and> pendingRows s = pendingRows t \<and>
     linePlain s = linePlain t \<and> lineANSI s = lineANSI t \<and> pendingControl s = pendingControl t \<and>
     captureAltScreen s = captureAltScreen t \<and> pendingCR s = pendingCR t \<and>
     pendingCRANSI s = pendingCRANSI t"

lemma same_core_refl [simp]: "same_core s s"
  by (simp add: same_core_def)

lemma same_core_trans [trans]: "same_core s t \<Longrightarrow> same_core t u \<Longrightarrow> same_core s u"
  by (simp add: same_core_def)

lemma same_core_observed: "same_core (captureObservedLines s p) s"
  by (simp add: same_core_def capture_frame)

lemma finishLogicalLine_core: "same_core s t \<Longrightarrow> same_core (finishLogicalLine s) (finishLogicalLine t)"
  by (simp add: same_core_def finishLogicalLine_def flushPendingLogicalLines_def Let_def split: prod.split)

lemma capture_plain_core: "same_core s t \<Longrightarrow> same_core (capture_plain s b) (capture_plain t b)"
  by (simp add: capture_plain_def finishLogicalLine_core) (simp add: same_core_def)

lemma capture_after_cr_core: "same_core s t \<Longrightarrow> same_core (capture_after_cr s b) (capture_after_cr t b)"
  unfolding capture_after_cr_def
  by (auto intro!: finishLogicalLine_core capture_plain_core) (simp_all add: same_core_def)

text \<open>One byte outside a control sequence, on the main screen.\<close>

definition at_text :: "'a capture_scheme \<Rightarrow> bool" where
  "at_text s \<longleftrightarrow> pendingControl s = [] \<and> \<not> captureAltScreen s"

lemma capture_byte_text:
  assumes "at_text s"
  shows "same_core (capture_byte s b) (if pendingCR s then capture_after_cr s b else capture_plain s b)"
  using assms capture_after_cr_core [OF same_core_observed] capture_plain_core [OF same_core_observed]
  by (auto simp: capture_byte_def at_text_def capture_frame)

lemma capture_byte_core:
  assumes "at_text s" and "same_core s t"
  shows "same_core (capture_byte s b) (capture_byte t b)"
proof -
  have t: "at_text t" and cr: "pendingCR t = pendingCR s"
    using assms by (simp_all add: at_text_def same_core_def)
  have "same_core (if pendingCR s then capture_after_cr s b else capture_plain s b)
      (if pendingCR t then capture_after_cr t b else capture_plain t b)"
    using assms(2) by (simp add: cr capture_after_cr_core capture_plain_core)
  with capture_byte_text [OF assms(1), of b] capture_byte_text [OF t, of b] show ?thesis
    by (auto simp: same_core_def)
qed

lemma captureLogicalLines_append:
  "captureLogicalLines s (p @ q) = captureLogicalLines (captureLogicalLines s p) q"
  by (simp add: captureLogicalLines_def)

lemma captureScreenSwitch_size:
  "cols (fst (captureScreenSwitch s seq)) = cols s" "rows (fst (captureScreenSwitch s seq)) = rows s"
  using captureScreenSwitch_frame [of s seq] by auto

lemma finishLogicalLine_size:
  "cols (finishLogicalLine s) = cols s" "rows (finishLogicalLine s) = rows s"
  by (simp_all add: finishLogicalLine_def flushPendingLogicalLines_def Let_def split: prod.split)

lemma captureControlSequence_size:
  "cols (captureControlSequence s seq) = cols s" "rows (captureControlSequence s seq) = rows s"
  by (simp_all add: captureControlSequence_def clearLogicalScreen_def)

lemma capture_sequence_size:
  "cols (capture_sequence s seq) = cols s" "rows (capture_sequence s seq) = rows s"
  by (simp_all add: capture_sequence_def captureControlSequence_size capture_frame
      captureScreenSwitch_size case_prod_beta Let_def)

lemma capture_plain_size:
  "cols (capture_plain s b) = cols s" "rows (capture_plain s b) = rows s"
  by (simp_all add: capture_plain_def finishLogicalLine_size)

lemma capture_byte_size:
  "cols (capture_byte s b) = cols s" "rows (capture_byte s b) = rows s"
  by (simp_all add: capture_byte_def capture_after_cr_def capture_sequence_size capture_plain_size
      finishLogicalLine_size capture_frame Let_def)

lemma captureLogicalLines_size:
  "cols (captureLogicalLines s p) = cols s" "rows (captureLogicalLines s p) = rows s"
  unfolding captureLogicalLines_def by (induction p arbitrary: s) (simp_all add: capture_byte_size)

lemma captureLogicalLines_simps [simp]:
  "captureLogicalLines s [] = s"
  "captureLogicalLines s (b # p) = captureLogicalLines (capture_byte s b) p"
  by (simp_all add: captureLogicalLines_def)

lemma at_text_core: "same_core s t \<Longrightarrow> at_text t \<Longrightarrow> at_text s"
  by (simp add: at_text_def same_core_def)

lemma capture_plain_run:
  assumes "at_text s" and "\<not> pendingCR s" and "plain_text l"
  shows "same_core (captureLogicalLines s l)
           (s\<lparr>linePlain := linePlain s @ l, lineANSI := lineANSI s @ l\<rparr>)"
  using assms
proof (induction l arbitrary: s)
  case Nil
  then show ?case by simp
next
  case (Cons b l)
  let ?t = "s\<lparr>linePlain := linePlain s @ [b], lineANSI := lineANSI s @ [b]\<rparr>"
  have "capture_plain s b = ?t"
    using Cons.prems plain_byte_not_control [of b] by (auto simp: capture_plain_def plain_byte_def)
  then have step: "same_core (capture_byte s b) ?t"
    using capture_byte_text [OF Cons.prems(1), of b] Cons.prems(2) by simp
  then have t: "at_text (capture_byte s b)" "\<not> pendingCR (capture_byte s b)"
    using Cons.prems by (simp_all add: at_text_def same_core_def)
  from Cons.IH [OF t] Cons.prems step show ?case
    by (simp add: same_core_def)
qed

text \<open>After a lone carriage return the next text replaces the line.\<close>

lemma capture_redraw:
  assumes "at_text s" and "pendingCR s" and "pendingCRANSI s = []" and "plain_text l" and "l \<noteq> []"
  shows "same_core (captureLogicalLines s l) (s\<lparr>pendingCR := False, linePlain := l, lineANSI := l\<rparr>)"
proof -
  obtain b l' where l: "l = b # l'" using assms(5) by (cases l) auto
  let ?t = "s\<lparr>pendingCR := False, linePlain := [b], lineANSI := [b]\<rparr>"
  have "capture_after_cr s b = s\<lparr>pendingCR := False, linePlain := [b], lineANSI := [b], pendingCRANSI := []\<rparr>"
    using assms l plain_byte_not_control [of b]
    by (auto simp: capture_after_cr_def capture_plain_def plain_byte_def)
  then have step: "same_core (capture_byte s b) ?t"
    using capture_byte_text [OF assms(1), of b] assms by (simp add: same_core_def)
  then have t: "at_text (capture_byte s b)" "\<not> pendingCR (capture_byte s b)"
    using assms by (simp_all add: at_text_def same_core_def)
  from capture_plain_run [OF t] assms(4) step show ?thesis
    by (simp add: l same_core_def)
qed

lemma capture_cr:
  "at_text s \<Longrightarrow> \<not> pendingCR s \<Longrightarrow>
   same_core (captureLogicalLines s [CR]) (s\<lparr>pendingCR := True, pendingCRANSI := []\<rparr>)"
  using capture_byte_text [of s CR] by (simp add: capture_plain_def)

section \<open>Whole lines\<close>

text \<open>
  One output line: the first text, any number of in-place redraws, each after a lone carriage
  return, and the CRLF that ends it. What is committed is the last text.
\<close>

fun redraws :: "bytes list \<Rightarrow> bytes" where
  "redraws [] = []"
| "redraws (g # gs) = CR # g @ redraws gs"

definition output_line :: "bytes \<times> bytes list \<Rightarrow> bytes" where
  "output_line w = fst w @ redraws (snd w) @ [CR, NL]"

definition final_text :: "bytes \<times> bytes list \<Rightarrow> bytes" where
  "final_text w = last (fst w # snd w)"

definition plain_line :: "bytes \<times> bytes list \<Rightarrow> bool" where
  "plain_line w \<longleftrightarrow> plain_text (fst w) \<and> list_all (\<lambda>g. plain_text g \<and> g \<noteq> []) (snd w)"

definition mk_line :: "bytes \<Rightarrow> logicalLine" where
  "mk_line l = \<lparr>line_ANSI = l, line_Plain = l\<rparr>"

lemma capture_redraws:
  assumes "at_text s" and "\<not> pendingCR s" and "pendingCRANSI s = []"
    and "linePlain s = l" and "lineANSI s = l" and "list_all (\<lambda>g. plain_text g \<and> g \<noteq> []) gs"
  shows "same_core (captureLogicalLines s (redraws gs))
           (s\<lparr>linePlain := last (l # gs), lineANSI := last (l # gs)\<rparr>)"
  using assms
proof (induction gs arbitrary: s l)
  case Nil
  then show ?case by (simp add: same_core_def)
next
  case (Cons g gs)
  let ?s1 = "captureLogicalLines s [CR]"
  have s1: "same_core ?s1 (s\<lparr>pendingCR := True, pendingCRANSI := []\<rparr>)"
    using Cons.prems by (intro capture_cr)
  then have a1: "at_text ?s1" "pendingCR ?s1" "pendingCRANSI ?s1 = []"
    using Cons.prems by (simp_all add: at_text_def same_core_def)
  let ?s2 = "captureLogicalLines ?s1 g"
  have s2: "same_core ?s2 (?s1\<lparr>pendingCR := False, linePlain := g, lineANSI := g\<rparr>)"
    using Cons.prems by (intro capture_redraw [OF a1]) simp_all
  then have a2: "at_text ?s2" "\<not> pendingCR ?s2" "pendingCRANSI ?s2 = []" "linePlain ?s2 = g" "lineANSI ?s2 = g"
    using a1 by (simp_all add: at_text_def same_core_def)
  have "captureLogicalLines s (redraws (g # gs)) = captureLogicalLines ?s2 (redraws gs)"
    by (simp add: captureLogicalLines_append)
  moreover have "same_core (captureLogicalLines ?s2 (redraws gs))
      (?s2\<lparr>linePlain := last (g # gs), lineANSI := last (g # gs)\<rparr>)"
    using Cons.prems by (intro Cons.IH [OF a2]) simp
  ultimately show ?case
    using s1 s2 Cons.prems by (simp add: same_core_def)
qed

definition at_line_start :: "'a capture_scheme \<Rightarrow> bool" where
  "at_line_start s \<longleftrightarrow> at_text s \<and> \<not> pendingCR s \<and> pendingCRANSI s = [] \<and>
     linePlain s = [] \<and> lineANSI s = []"

lemma capture_output_line:
  assumes "at_line_start s" and "plain_line w"
  shows "same_core (captureLogicalLines s (output_line w))
     (finishLogicalLine (s\<lparr>linePlain := final_text w, lineANSI := final_text w\<rparr>))"
proof -
  let ?s1 = "captureLogicalLines s (fst w)"
  have s1: "same_core ?s1 (s\<lparr>linePlain := fst w, lineANSI := fst w\<rparr>)"
    using capture_plain_run [of s "fst w"] assms by (simp add: at_line_start_def plain_line_def)
  then have a1: "at_text ?s1" "\<not> pendingCR ?s1" "pendingCRANSI ?s1 = []" "linePlain ?s1 = fst w"
    "lineANSI ?s1 = fst w"
    using assms by (simp_all add: at_line_start_def at_text_def same_core_def)
  let ?s2 = "captureLogicalLines ?s1 (redraws (snd w))"
  have "same_core ?s2 (?s1\<lparr>linePlain := final_text w, lineANSI := final_text w\<rparr>)"
    using capture_redraws [OF a1] assms by (simp add: plain_line_def final_text_def)
  with s1 have s2: "same_core ?s2 (s\<lparr>linePlain := final_text w, lineANSI := final_text w\<rparr>)"
    by (simp add: same_core_def)
  then have a2: "at_text ?s2" "\<not> pendingCR ?s2"
    using assms by (simp_all add: at_line_start_def at_text_def same_core_def)
  let ?s3 = "captureLogicalLines ?s2 [CR]"
  have s3: "same_core ?s3 (s\<lparr>linePlain := final_text w, lineANSI := final_text w, pendingCR := True\<rparr>)"
    using capture_cr [OF a2] s2 assms by (simp add: same_core_def at_line_start_def)
  then have a3: "at_text ?s3" "pendingCR ?s3"
    using assms by (simp_all add: at_line_start_def at_text_def same_core_def)
  have "captureLogicalLines s (output_line w) = capture_byte ?s3 NL"
    by (simp add: output_line_def captureLogicalLines_append)
  also have "same_core (capture_byte ?s3 NL)
      (finishLogicalLine (?s3\<lparr>pendingCR := False, pendingCRANSI := []\<rparr>))"
    using capture_byte_text [OF a3(1), of NL] a3(2) by (simp add: capture_after_cr_def)
  also have "same_core (finishLogicalLine (?s3\<lparr>pendingCR := False, pendingCRANSI := []\<rparr>))
      (finishLogicalLine (s\<lparr>linePlain := final_text w, lineANSI := final_text w\<rparr>))"
    using s3 assms by (intro finishLogicalLine_core) (simp add: same_core_def at_line_start_def)
  finally show ?thesis .
qed

lemma capture_output_lines:
  assumes "capture_inv s" and "at_line_start s" and "list_all plain_line ws"
    and "logicalScrollback s = last_n maxScrollbackLines done_before"
  shows "\<exists>flushed. pendingLines s @ map (mk_line \<circ> final_text) ws
       = flushed @ pendingLines (captureLogicalLines s (concat (map output_line ws))) \<and>
     logicalScrollback (captureLogicalLines s (concat (map output_line ws)))
       = last_n maxScrollbackLines (done_before @ flushed)"
  using assms
proof (induction ws arbitrary: s done_before)
  case Nil
  then show ?case by simp
next
  case (Cons w ws)
  let ?t = "s\<lparr>linePlain := final_text w, lineANSI := final_text w\<rparr>"
  let ?u = "captureLogicalLines s (output_line w)"
  have u: "same_core ?u (finishLogicalLine ?t)"
    using Cons.prems by (intro capture_output_line) simp_all
  have "capture_inv ?t" using Cons.prems(1) by (auto simp: capture_inv_def)
  then obtain moved where m:
    "pendingLines s @ [mk_line (final_text w)] = moved @ pendingLines (finishLogicalLine ?t)"
    "logicalScrollback (finishLogicalLine ?t) = last_n maxScrollbackLines (logicalScrollback s @ moved)"
    "at_line_start (finishLogicalLine ?t)"
    using finishLogicalLine_eq [of ?t] Cons.prems(2)
    by (auto simp: mk_line_def at_line_start_def at_text_def)
  have "capture_inv ?u" using Cons.prems(1) by (rule captureLogicalLines_inv)
  moreover have "at_line_start ?u"
    using u m(3) by (simp add: at_line_start_def at_text_def same_core_def)
  moreover have "logicalScrollback ?u = last_n maxScrollbackLines (done_before @ moved)"
    using u m(2) Cons.prems(4) by (simp add: same_core_def last_n_last_n_append)
  ultimately obtain flushed where
    "pendingLines ?u @ map (mk_line \<circ> final_text) ws
       = flushed @ pendingLines (captureLogicalLines ?u (concat (map output_line ws)))"
    "logicalScrollback (captureLogicalLines ?u (concat (map output_line ws)))
       = last_n maxScrollbackLines ((done_before @ moved) @ flushed)"
    using Cons.IH Cons.prems(3) by fastforce
  moreover have "captureLogicalLines s (concat (map output_line (w # ws)))
      = captureLogicalLines ?u (concat (map output_line ws))"
    by (simp add: captureLogicalLines_append)
  moreover have "pendingLines ?u = pendingLines (finishLogicalLine ?t)"
    using u by (simp add: same_core_def)
  ultimately show ?case
    using m(1) by (intro exI [of _ "moved @ flushed"]) (metis append.assoc append_Cons append_Nil list.simps(9) comp_apply)
qed

section \<open>The coloured text and the plain text\<close>

text \<open>Removing the control sequences of a text: the open sequence, and what is left.\<close>

definition strip_step :: "bytes \<times> bytes \<Rightarrow> byte \<Rightarrow> bytes \<times> bytes" where
  "strip_step st b =
     (if fst st \<noteq> [] then
        (if ansiSequenceComplete (fst st @ [b]) then ([], snd st) else (fst st @ [b], snd st))
      else if b = ESC then ([ESC], snd st)
      else ([], snd st @ [b]))"

definition strip_ansi :: "bytes \<Rightarrow> bytes \<times> bytes" where
  "strip_ansi x = foldl strip_step ([], []) x"

lemma strip_ansi_simps [simp]:
  "strip_ansi [] = ([], [])" "strip_ansi (x @ [b]) = strip_step (strip_ansi x) b"
  by (simp_all add: strip_ansi_def)

lemma strip_ansi_append: "strip_ansi (x @ y) = foldl strip_step (strip_ansi x) y"
  by (simp add: strip_ansi_def)

lemma open_seq_butlast: "open_seq (c @ [b]) \<Longrightarrow> open_seq c \<and> \<not> ansiSequenceComplete (c @ [b])"
  unfolding open_seq_def
  by (auto dest: spec [of _ "Suc (length c)"]) (metis le_SucI take_append diff_is_0_eq' take0 append_Nil2 take_Nil)

lemma strip_open:
  "open_seq c \<Longrightarrow> c \<noteq> [] \<Longrightarrow> foldl strip_step ([], out) c = (c, out)"
proof (induction c rule: rev_induct)
  case (snoc b c)
  have o: "open_seq c" "\<not> ansiSequenceComplete (c @ [b])"
    using open_seq_butlast [OF snoc.prems(1)] by auto
  show ?case
  proof (cases "c = []")
    case True
    then show ?thesis using snoc.prems open_seq_Cons [of b "[]"] by (simp add: strip_step_def)
  next
    case False
    with snoc.IH o show ?thesis by (simp add: strip_step_def)
  qed
qed simp

lemma strip_closed:
  assumes "open_seq c" and "c \<noteq> []" and "ansiSequenceComplete (c @ [b])"
    and "strip_ansi x = ([], out)"
  shows "strip_ansi (x @ c @ [b]) = ([], out)"
  using strip_open [OF assms(1,2), of out] assms(3,4) assms(2)
  by (simp add: strip_ansi_append strip_step_def)

definition line_ok :: "logicalLine \<Rightarrow> bool" where
  "line_ok l \<longleftrightarrow> strip_ansi (line_ANSI l) = ([], line_Plain l) \<and> plain_text (line_Plain l)"

definition ansi_ok :: "'a capture_scheme \<Rightarrow> bool" where
  "ansi_ok s \<longleftrightarrow>
     strip_ansi (lineANSI s) = ([], linePlain s) \<and> plain_text (linePlain s) \<and>
     strip_ansi (pendingCRANSI s) = ([], []) \<and>
     (\<forall>l \<in> set (logicalScrollback s) \<union> set (pendingLines s). line_ok l)"

lemma ansi_ok_finish:
  assumes "capture_inv s" and "ansi_ok s"
  shows "ansi_ok (finishLogicalLine s)"
proof -
  obtain moved rest where m:
    "pendingLines s @ [\<lparr>line_ANSI = lineANSI s, line_Plain = linePlain s\<rparr>] = moved @ rest"
    "finishLogicalLine s =
      s\<lparr>logicalScrollback := last_n maxScrollbackLines (logicalScrollback s @ moved),
        pendingRows := rows_of (cols s) rest, pendingLines := rest,
        linePlain := [], lineANSI := []\<rparr>"
    using finishLogicalLine_eq [OF assms(1)] by blast
  have "\<forall>l \<in> set (pendingLines s @ [\<lparr>line_ANSI = lineANSI s, line_Plain = linePlain s\<rparr>]). line_ok l"
    using assms(2) by (simp add: ansi_ok_def line_ok_def)
  then have mr: "\<forall>l \<in> set moved. line_ok l" "\<forall>l \<in> set rest. line_ok l"
    unfolding m(1) by simp_all
  with assms(2) have "\<forall>l \<in> set (logicalScrollback s @ moved). line_ok l"
    by (simp add: ansi_ok_def ball_Un)
  then have "\<forall>l \<in> set (last_n maxScrollbackLines (logicalScrollback s @ moved)) \<union> set rest. line_ok l"
    using mr(2) set_last_n_subset [of maxScrollbackLines "logicalScrollback s @ moved"] by blast
  then show ?thesis
    using assms(2) by (simp add: m(2) ansi_ok_def)
qed

lemma plain_text_snoc [simp]: "plain_text (l @ [b]) \<longleftrightarrow> plain_text l \<and> plain_byte b"
  by (auto simp: plain_text_def)

lemma ansi_ok_plain:
  assumes "capture_inv s" and "ansi_ok s" and "b \<noteq> BS"
  shows "ansi_ok (capture_plain s b)"
proof -
  have txtc: "ansi_ok (s\<lparr>linePlain := linePlain s @ [c], lineANSI := lineANSI s @ [c]\<rparr>)"
    if "plain_byte c" for c
    using assms(2) that plain_byte_not_control [OF that]
    by (simp add: ansi_ok_def strip_step_def)
  have "0x20 \<le> b \<or> 0x80 \<le> b \<Longrightarrow> plain_byte b"
    by (auto simp: plain_byte_def intro: order_trans [of "0x20::byte" "0x80"])
  then show ?thesis
    using assms txtc [of b] txtc [of TAB] ansi_ok_finish [OF assms(1,2)]
    by (auto simp: capture_plain_def ansi_ok_def plain_byte_def)
qed

lemma ansi_ok_after_cr:
  assumes "capture_inv s" and "ansi_ok s" and "b \<noteq> BS" and "pendingCR s"
  shows "ansi_ok (capture_after_cr s b)"
proof -
  have "capture_inv (s\<lparr>pendingCR := False, pendingCRANSI := []\<rparr>)"
    "capture_inv (s\<lparr>pendingCR := False, linePlain := [], lineANSI := pendingCRANSI s, pendingCRANSI := []\<rparr>)"
    using assms(1) by (auto simp: capture_inv_def)
  moreover have "ansi_ok (s\<lparr>pendingCR := False, pendingCRANSI := []\<rparr>)"
    "ansi_ok (s\<lparr>pendingCR := False, linePlain := [], lineANSI := pendingCRANSI s, pendingCRANSI := []\<rparr>)"
    "ansi_ok (s\<lparr>pendingCRANSI := []\<rparr>)" "ansi_ok (s\<lparr>pendingControl := [b]\<rparr>)"
    using assms(2) by (auto simp: ansi_ok_def)
  ultimately show ?thesis
    using assms(3) by (auto simp: capture_after_cr_def ansi_ok_finish ansi_ok_plain)
qed

lemma ansi_ok_frame: "ansi_ok (captureObservedLines s p) = ansi_ok s"
  by (simp add: ansi_ok_def capture_frame)

lemma ansi_ok_sequence:
  assumes "ansi_ok s" and "open_seq c" and "c \<noteq> []" and "ansiSequenceComplete (c @ [b])"
  shows "ansi_ok (capture_sequence s (c @ [b]))"
proof -
  obtain alt w where sw: "captureScreenSwitch s (c @ [b]) = (s\<lparr>captureAltScreen := alt\<rparr>, w)"
    using captureScreenSwitch_frame [of s "c @ [b]"] by (metis prod.collapse)
  define s2 where "s2 = captureObservedLines (s\<lparr>captureAltScreen := alt\<rparr>) (c @ [b])"
  have s2: "ansi_ok s2" using assms(1) by (simp add: s2_def ansi_ok_frame) (simp add: ansi_ok_def)
  have cr: "ansi_ok (s2\<lparr>pendingCRANSI := pendingCRANSI s2 @ c @ [b]\<rparr>)"
    using s2 strip_closed [OF assms(2-4), of "pendingCRANSI s2"] by (simp add: ansi_ok_def)
  have ctl: "ansi_ok (captureControlSequence t (c @ [b]))" if "ansi_ok t" for t :: "'a capture_scheme"
    using that strip_closed [OF assms(2-4), of "lineANSI t"]
    by (auto simp: captureControlSequence_def ansi_ok_def clearLogicalScreen_def)
  have "ansi_ok (if pendingCR s2
      then s2\<lparr>pendingCR := False, pendingCRANSI := [], linePlain := [], lineANSI := []\<rparr> else s2)"
    using s2 by (simp add: ansi_ok_def)
  note t = ctl [OF this]
  have drop_ctl: "ansi_ok (t\<lparr>pendingControl := []\<rparr>) = ansi_ok t" for t :: "'a capture_scheme"
    by (simp add: ansi_ok_def)
  have alt: "ansi_ok (s\<lparr>captureAltScreen := alt, pendingControl := []\<rparr>)"
    using assms(1) by (simp add: ansi_ok_def)
  show ?thesis
    unfolding capture_sequence_def sw Let_def prod.case s2_def [symmetric]
    using cr t alt by (simp add: drop_ctl)
qed

lemma ansi_ok_byte:
  assumes "capture_inv s" and "ansi_ok s" and "b \<noteq> BS"
  shows "ansi_ok (capture_byte s b)"
proof -
  have ctl: "ansi_ok (s\<lparr>pendingControl := c\<rparr>)" for c
    using assms(2) by (simp add: ansi_ok_def)
  have o: "capture_inv (captureObservedLines s [b])" using assms(1) by (rule captureObservedLines_inv)
  show ?thesis
    using assms o ctl ansi_ok_sequence [OF ctl, of "pendingControl s" b] capture_inv_open [OF assms(1)]
    by (simp add: capture_byte_def Let_def ansi_ok_after_cr ansi_ok_plain ansi_ok_frame capture_frame)
qed

lemma ansi_ok_stream:
  "capture_inv s \<Longrightarrow> ansi_ok s \<Longrightarrow> BS \<notin> set p \<Longrightarrow> ansi_ok (captureLogicalLines s p)"
  by (induction p arbitrary: s) (auto intro: ansi_ok_byte capture_byte_inv)

lemma ansi_ok_new: "ansi_ok (new_capture c r)"
  by (simp add: ansi_ok_def new_capture_def)

section \<open>The properties\<close>

text \<open>
  C39. Whatever bytes a session writes, however they are cut into control sequences, the capture
  keeps its books: \<open>pendingRows\<close> is the number of screen rows the pending lines wrap to, the
  pending lines fit on the screen, the scrollback holds at most 10000 lines and the observed
  lines at most 256, and the bytes held back are the beginning of a sequence that is not
  complete yet.
\<close>

theorem capture_invariant:
  "let s = captureLogicalLines (new_capture c r) p in
     pendingRows s = (\<Sum>l\<leftarrow>pendingLines s. wrappedLineCount (line_Plain l) c) \<and>
     (pendingLines s = [] \<or> pendingRows s \<le> r) \<and>
     length (logicalScrollback s) \<le> 10000 \<and> length (observedLines s) \<le> 256 \<and>
     (pendingControl s = [] \<or> hd (pendingControl s) = ESC \<and> \<not> ansiSequenceComplete (pendingControl s))"
proof -
  let ?s = "captureLogicalLines (new_capture c r) p"
  have inv: "capture_inv ?s" by (intro captureLogicalLines_inv new_capture_inv)
  then have o: "open_seq (pendingControl ?s)" by (simp add: capture_inv_def)
  have ctl: "pendingControl ?s = [] \<or> hd (pendingControl ?s) = ESC \<and> \<not> ansiSequenceComplete (pendingControl ?s)"
  proof (cases "pendingControl ?s")
    case (Cons a t)
    with o have "a = ESC" by (simp add: open_seq_Cons)
    moreover have "\<not> ansiSequenceComplete (take (length (a # t)) (a # t))"
      using o unfolding Cons open_seq_def by blast
    ultimately show ?thesis using Cons by simp
  qed simp
  have "cols ?s = c" "rows ?s = r"
    by (simp_all add: captureLogicalLines_size new_capture_def)
  with inv ctl show ?thesis
    by (auto simp: Let_def capture_inv_def rows_of_def maxScrollbackLines_def maxObservedLines_def)
qed

text \<open>
  A committed line is never lost or reordered between the screen and the scrollback: after
  any stream, finishing the current line moves a prefix of the pending lines, in order, to the
  end of the scrollback (of which the last 10000 lines are kept) and leaves the others pending;
  the prefix is no longer than it takes for the rest to fit on the screen.
\<close>

theorem finish_conserves_lines:
  "let s = captureLogicalLines (new_capture c r) p; t = finishLogicalLine s in
   \<exists>moved.
     pendingLines s @ [\<lparr>line_ANSI = lineANSI s, line_Plain = linePlain s\<rparr>] = moved @ pendingLines t \<and>
     logicalScrollback t = last_n 10000 (logicalScrollback s @ moved) \<and>
     (pendingLines t = [] \<or> rows_of c (pendingLines t) \<le> r) \<and>
     (moved = [] \<or> r < rows_of c (last moved # pendingLines t)) \<and>
     linePlain t = [] \<and> lineANSI t = []"
proof -
  let ?s = "captureLogicalLines (new_capture c r) p"
  have inv: "capture_inv ?s" by (intro captureLogicalLines_inv new_capture_inv)
  have sz: "cols ?s = c" "rows ?s = r" by (simp_all add: captureLogicalLines_size new_capture_def)
  obtain moved rest where
    "pendingLines ?s @ [\<lparr>line_ANSI = lineANSI ?s, line_Plain = linePlain ?s\<rparr>] = moved @ rest"
    "finishLogicalLine ?s =
      ?s\<lparr>logicalScrollback := last_n maxScrollbackLines (logicalScrollback ?s @ moved),
        pendingRows := rows_of (cols ?s) rest, pendingLines := rest, linePlain := [], lineANSI := []\<rparr>"
    "rest = [] \<or> rows_of (cols ?s) rest \<le> rows ?s"
    "moved \<noteq> [] \<longrightarrow> rows ?s < rows_of (cols ?s) (last moved # rest)"
    using finishLogicalLine_eq [OF inv] by blast
  then show ?thesis
    unfolding Let_def sz by (intro exI [of _ moved]) (auto simp: maxScrollbackLines_def)
qed

text \<open>
  C10. On ordinary output the capture is exact: lines of printable text, each possibly redrawn in
  place after lone carriage returns (a progress bar) and ended by CRLF, are captured as the final
  text of each line, in order, part in the scrollback (capped) and the rest pending.
\<close>

theorem captured_output_exact:
  assumes "list_all plain_line ws"
  shows "\<exists>k. pendingLines (captureLogicalLines (new_capture c r) (concat (map output_line ws)))
         = drop k (map (mk_line \<circ> final_text) ws) \<and>
     logicalScrollback (captureLogicalLines (new_capture c r) (concat (map output_line ws)))
         = last_n 10000 (take k (map (mk_line \<circ> final_text) ws))"
proof -
  let ?t = "captureLogicalLines (new_capture c r) (concat (map output_line ws))"
  have "\<exists>flushed. pendingLines (new_capture c r) @ map (mk_line \<circ> final_text) ws
       = flushed @ pendingLines ?t \<and> logicalScrollback ?t = last_n maxScrollbackLines ([] @ flushed)"
    using assms
    by (intro capture_output_lines new_capture_inv)
      (simp_all add: new_capture_def at_line_start_def at_text_def last_n_def)
  then obtain flushed where
    "map (mk_line \<circ> final_text) ws = flushed @ pendingLines ?t"
    "logicalScrollback ?t = last_n maxScrollbackLines flushed"
    by (auto simp: new_capture_def)
  then show ?thesis by (intro exI [of _ "length flushed"]) (simp add: maxScrollbackLines_def)
qed

theorem captured_output_exact_witness:
  "\<exists>k. pendingLines (captureLogicalLines (new_capture 4 1)
          (concat (map output_line [([0x61, 0x62], []), ([0x31, 0x25], [[0x39, 0x25]])])))
         = drop k (map (mk_line \<circ> final_text) [([0x61, 0x62], []), ([0x31, 0x25], [[0x39, 0x25]])]) \<and>
     logicalScrollback (captureLogicalLines (new_capture 4 1)
          (concat (map output_line [([0x61, 0x62], []), ([0x31, 0x25], [[0x39, 0x25]])])))
         = last_n 10000 (take k (map (mk_line \<circ> final_text)
             [([0x61, 0x62], []), ([0x31, 0x25], [[0x39, 0x25]])]))"
  by (rule captured_output_exact) (simp add: plain_line_def plain_byte_def)

text \<open>
  C31. The two texts kept of a line agree: after any stream without backspaces, deleting the
  control sequences of the coloured text of a line (the one being written, a pending one or one in
  the scrollback) leaves its plain text, with no sequence left open, and the plain text holds
  printable bytes and tabs only.
\<close>

theorem captured_texts_agree:
  assumes "BS \<notin> set p"
  shows "let s = captureLogicalLines (new_capture c r) p in
     strip_ansi (lineANSI s) = ([], linePlain s) \<and> list_all plain_byte (linePlain s) \<and>
     list_all (\<lambda>l. strip_ansi (line_ANSI l) = ([], line_Plain l) \<and> list_all plain_byte (line_Plain l))
       (logicalScrollback s @ pendingLines s)"
  using ansi_ok_stream [OF new_capture_inv ansi_ok_new assms, of c r]
  by (simp add: Let_def ansi_ok_def line_ok_def plain_text_def list_all_iff ball_Un)

theorem captured_texts_agree_witness:
  "let s = captureLogicalLines (new_capture 80 24) [ESC, 0x5B, 0x31, 0x6D, 0x61, NL, 0x62] in
     strip_ansi (lineANSI s) = ([], linePlain s) \<and> list_all plain_byte (linePlain s) \<and>
     list_all (\<lambda>l. strip_ansi (line_ANSI l) = ([], line_Plain l) \<and> list_all plain_byte (line_Plain l))
       (logicalScrollback s @ pendingLines s)"
  by (rule captured_texts_agree) simp

section \<open>Where the capture departs from a terminal\<close>

lemmas capture_eval =
  capture_byte_def capture_plain_def capture_sequence_def capture_after_cr_def
  captureScreenSwitch_def captureControlSequence_def ansiSequenceComplete_def isSGR_def isRIS_def
  isEraseDisplay_def captureObservedLines_def observe_byte_def observe_plain_def
  finishObservedLine_def append_observed_last_n new_capture_def trimLastRune_ascii
  finishLogicalLine_def flushPendingLogicalLines_def mk_line_def

text \<open>
  A three-byte escape such as the character-set designation ESC ( B is taken to end after its
  second byte, so its last byte lands in the captured text.
\<close>

lemma designation_leaks:
  "let s = captureLogicalLines (new_capture 80 24) [ESC, 0x28, 0x42] in
     linePlain s = [0x42] \<and> lineANSI s = [0x42] \<and> pendingControl s = []"
  by (simp add: capture_eval)

text \<open>
  A backspace right after a colour sequence takes the last byte of the sequence instead of the
  character before it, and leaves a sequence open in the coloured text.
\<close>

lemma backspace_breaks_sequence:
  "let s = captureLogicalLines (new_capture 80 24) [0x61, ESC, 0x5B, 0x31, 0x6D, BS] in
     linePlain s = [] \<and> lineANSI s = [0x61, ESC, 0x5B, 0x31]"
  by (simp add: capture_eval)

text \<open>
  A line ended by CR, a control sequence that is not a colour (here: show the cursor) and LF is
  captured as an empty line.
\<close>

lemma cr_control_drops_line:
  "pendingLines (captureLogicalLines (new_capture 80 24)
      [0x61, CR, ESC, 0x5B, 0x3F, 0x32, 0x35, 0x68, NL]) = [mk_line []]"
proof -
  have sw: "captureScreenSwitch t [ESC, 0x5B, 0x3F, 0x32, 0x35, 0x68] = (t, False)" for t :: capture
    by (simp add: captureScreenSwitch_def isRIS_def atoi_def alt_screen_mode_def)
  show ?thesis
    by (simp add: capture_eval sw Let_def wrappedLineCount_def rune_count_def del: captureScreenSwitch_def)
qed

text \<open>
  An operating-system command that is never ended swallows all later output: the buffer of the
  open sequence grows by every byte, with no bound.
\<close>

definition no_terminator :: "bytes \<Rightarrow> bool" where
  "no_terminator p \<longleftrightarrow> 0x07 \<notin> set p \<and> 0x5C \<notin> set p"

lemma unterminated_osc_grows:
  assumes "no_terminator p"
  shows "pendingControl (captureLogicalLines (new_capture c r) ([ESC, 0x5D] @ p)) = [ESC, 0x5D] @ p \<and>
    pendingLines (captureLogicalLines (new_capture c r) ([ESC, 0x5D] @ p)) = [] \<and>
    linePlain (captureLogicalLines (new_capture c r) ([ESC, 0x5D] @ p)) = []"
  using assms
proof (induction p rule: rev_induct)
  case Nil
  show ?case
    by (simp add: capture_byte_def new_capture_def capture_plain_def ansiSequenceComplete_def
        captureObservedLines_def)
next
  case (snoc b p)
  have nt: "no_terminator p" "b \<noteq> 0x07" "b \<noteq> 0x5C" using snoc.prems by (auto simp: no_terminator_def)
  define s where "s = captureLogicalLines (new_capture c r) ([ESC, 0x5D] @ p)"
  have step: "captureLogicalLines (new_capture c r) ([ESC, 0x5D] @ p @ [b]) = capture_byte s b"
    using captureLogicalLines_append [of "new_capture c r" "[ESC, 0x5D] @ p" "[b]"] by (simp add: s_def)
  have "\<not> ansiSequenceComplete (([ESC, 0x5D] @ p) @ [b])"
    using nt by (simp add: ansiSequenceComplete_def)
  then show ?case
    using snoc.IH [OF nt(1)] unfolding step s_def [symmetric] by (simp add: capture_byte_def Let_def)
qed

end
