(* ===== verification/Screen.thy ===== *)
theory Screen
  imports ByteRing WrapMeta CaptureProps
begin

text \<open>
  The virtual screen of a session (\<open>VTScreen\<close> in \<open>src/pkg/session/vtscreen.go\<close> and
  \<open>vtscreen_margins.go\<close>). The terminal emulator it drives (\<open>vt.Emulator\<close> of the
  charmbracelet library) is the parameter \<open>E\<close>: its state \<open>'e\<close> and its methods. What a write
  makes it do is a tree of interactions, in the order they happen: the callbacks it invokes
  (modes, cursor, replies) and the CSI handlers it asks.
\<close>

datatype ansi_mode = ModeCursorKeys | ModeMouseX10 | ModeMouseNormal | ModeMouseButtonEvent
  | ModeMouseAnyEvent | ModeMouseExtSgr | ModeBracketedPaste | ModeLeftRightMargin | OtherMode int

datatype 'cs term_event = EnableMode ansi_mode | DisableMode ansi_mode | CursorVisibility bool
  | CursorStyle 'cs bool | AltScreen bool | TermReply bytes

text \<open>\<open>params.Param(i, default)\<close> of a CSI command.\<close>

type_synonym csi_params = "nat \<Rightarrow> int \<Rightarrow> int"

datatype ('e, 'cs) interaction =
    Finished 'e
  | Callback "'cs term_event" "('e, 'cs) interaction"
  | AskCsi byte csi_params 'e "bool \<Rightarrow> ('e, 'cs) interaction"

record cell =
  cell_zero :: bool
  cell_Content :: bytes

record ('e, 'cs) emulator =
  em_new :: "int \<Rightarrow> int \<Rightarrow> 'e"
  em_scrollback_size :: "'e \<Rightarrow> int \<Rightarrow> 'e"
  em_write :: "'e \<Rightarrow> bytes \<Rightarrow> ('e, 'cs) interaction"
  em_resize :: "'e \<Rightarrow> int \<Rightarrow> int \<Rightarrow> 'e"
  em_clear_scrollback :: "'e \<Rightarrow> 'e"
  em_alt :: "'e \<Rightarrow> bool"
  em_height :: "'e \<Rightarrow> int"
  em_width :: "'e \<Rightarrow> int"
  em_cell :: "'e \<Rightarrow> int \<Rightarrow> int \<Rightarrow> cell option"
  em_render :: "'e \<Rightarrow> bytes"
  em_cursor :: "'e \<Rightarrow> int \<times> int"
  em_block :: 'cs

record ('e, 'cs) vtScreen = capture +
  emu :: 'e
  dirty :: bool
  replaying :: bool
  rawHistory :: byteRing
  reply_set :: bool
  reply_loop :: bool
  replies :: bool
  reply_pipe :: "bytes list"
  reply_sent :: "bytes list"
  appCursor :: bool
  mouseX10 :: bool
  mouseNormal :: bool
  mouseButton :: bool
  mouseAny :: bool
  mouseSGR :: bool
  bracketPaste :: bool
  leftRightMargin :: bool
  cursorVisible :: bool
  cursorShape :: 'cs
  cursorBlink :: bool

section \<open>Operations\<close>

definition NewVTScreen :: "('e, 'cs) emulator \<Rightarrow> int \<Rightarrow> int \<Rightarrow> ('e, 'cs) vtScreen" where
  "NewVTScreen E c r =
     \<lparr>cols = c, rows = r, logicalScrollback = [], pendingLines = [], pendingRows = 0,
      linePlain = [], lineANSI = [], pendingControl = [], captureAltScreen = False,
      pendingCR = False, pendingCRANSI = [], observedLines = [], observedPlain = [],
      observedControl = [], observedCR = False,
      emu = em_scrollback_size E (em_new E c r) 1, dirty = False, replaying = False,
      rawHistory = ring_empty, reply_set = False, reply_loop = False, replies = False,
      reply_pipe = [], reply_sent = [],
      appCursor = False, mouseX10 = False, mouseNormal = False, mouseButton = False,
      mouseAny = False, mouseSGR = False, bracketPaste = False, leftRightMargin = False,
      cursorVisible = True, cursorShape = em_block E, cursorBlink = False\<rparr>"

definition setModeLocked :: "('e, 'cs) vtScreen \<Rightarrow> ansi_mode \<Rightarrow> bool \<Rightarrow> ('e, 'cs) vtScreen" where
  "setModeLocked s m enabled =
     (case m of
        ModeCursorKeys \<Rightarrow> s\<lparr>appCursor := enabled\<rparr>
      | ModeMouseX10 \<Rightarrow> s\<lparr>mouseX10 := enabled\<rparr>
      | ModeMouseNormal \<Rightarrow> s\<lparr>mouseNormal := enabled\<rparr>
      | ModeMouseButtonEvent \<Rightarrow> s\<lparr>mouseButton := enabled\<rparr>
      | ModeMouseAnyEvent \<Rightarrow> s\<lparr>mouseAny := enabled\<rparr>
      | ModeMouseExtSgr \<Rightarrow> s\<lparr>mouseSGR := enabled\<rparr>
      | ModeBracketedPaste \<Rightarrow> s\<lparr>bracketPaste := enabled\<rparr>
      | ModeLeftRightMargin \<Rightarrow> s\<lparr>leftRightMargin := enabled\<rparr>
      | OtherMode _ \<Rightarrow> s)"

definition setCursorStyleLocked :: "('e, 'cs) vtScreen \<Rightarrow> 'cs \<Rightarrow> bool \<Rightarrow> ('e, 'cs) vtScreen" where
  "setCursorStyleLocked s style blink = s\<lparr>cursorShape := style, cursorBlink := blink\<rparr>"

definition term_callback :: "('e, 'cs) vtScreen \<Rightarrow> 'cs term_event \<Rightarrow> ('e, 'cs) vtScreen" where
  "term_callback s ev =
     (case ev of
        EnableMode m \<Rightarrow> setModeLocked s m True
      | DisableMode m \<Rightarrow> setModeLocked s m False
      | CursorVisibility visible \<Rightarrow> s\<lparr>cursorVisible := visible\<rparr>
      | CursorStyle style blink \<Rightarrow> setCursorStyleLocked s style blink
      | AltScreen _ \<Rightarrow> s
      | TermReply p \<Rightarrow> s\<lparr>reply_pipe := reply_pipe s @ [p]\<rparr>)"

definition marginsOutOfBounds :: "csi_params \<Rightarrow> int \<Rightarrow> bool" where
  "marginsOutOfBounds params dim =
     (let start = params 0 1; stop = params 1 dim in dim < start \<or> dim < stop)"

text \<open>The handlers registered for CSI r and CSI s: true consumes the command.\<close>

definition marginGuard ::
  "('e, 'cs) emulator \<Rightarrow> ('e, 'cs) vtScreen \<Rightarrow> byte \<Rightarrow> csi_params \<Rightarrow> 'e \<Rightarrow> bool" where
  "marginGuard E s final params e =
     (if final = 0x72 then marginsOutOfBounds params (em_height E e)
      else if final = 0x73 then leftRightMargin s \<and> marginsOutOfBounds params (em_width E e)
      else False)"

primrec interact :: "('e, 'cs) emulator \<Rightarrow> ('e, 'cs) interaction \<Rightarrow>
    ('e, 'cs) vtScreen \<Rightarrow> ('e, 'cs) vtScreen" where
  "interact E (Finished e) s = s\<lparr>emu := e\<rparr>"
| "interact E (Callback ev t) s = interact E t (term_callback s ev)"
| "interact E (AskCsi final params e k) s = interact E (k (marginGuard E s final params e)) s"

definition term_write :: "('e, 'cs) emulator \<Rightarrow> ('e, 'cs) vtScreen \<Rightarrow> bytes \<Rightarrow> ('e, 'cs) vtScreen" where
  "term_write E s p = interact E (em_write E (emu s) p) s"

definition SetReplyWriter :: "('e, 'cs) vtScreen \<Rightarrow> ('e, 'cs) vtScreen" where
  "SetReplyWriter s = s\<lparr>reply_set := True, reply_loop := True\<rparr>"

text \<open>One round of \<open>replyLoop\<close>: the oldest unread reply is sent if replies are on now.\<close>

definition replyLoop_step :: "('e, 'cs) vtScreen \<Rightarrow> ('e, 'cs) vtScreen" where
  "replyLoop_step s =
     (if \<not> reply_loop s then s
      else (case reply_pipe s of
              [] \<Rightarrow> s
            | p # ps \<Rightarrow>
                (let s1 = s\<lparr>reply_pipe := ps\<rparr>
                 in if p \<noteq> [] \<and> replies s1 \<and> reply_set s1
                    then s1\<lparr>reply_sent := reply_sent s1 @ [p]\<rparr> else s1)))"

definition SetTerminalReplies :: "('e, 'cs) vtScreen \<Rightarrow> bool \<Rightarrow> ('e, 'cs) vtScreen" where
  "SetTerminalReplies s enabled = s\<lparr>replies := enabled\<rparr>"

definition screenWrite :: "('e, 'cs) emulator \<Rightarrow> ('e, 'cs) vtScreen \<Rightarrow> bytes \<Rightarrow> ('e, 'cs) vtScreen" where
  "screenWrite E s p =
     (let s1 = s\<lparr>rawHistory := ring_append (rawHistory s) p\<rparr>;
          s2 = captureLogicalLines s1 p;
          s3 = term_write E s2 (translateSCORC p)
      in s3\<lparr>dirty := True\<rparr>)"

definition reflowEmulatorLocked ::
  "('e, 'cs) emulator \<Rightarrow> ('e, 'cs) vtScreen \<Rightarrow> int \<Rightarrow> int \<Rightarrow> ('e, 'cs) vtScreen" where
  "reflowEmulatorLocked E s c r =
     (if ring_len (rawHistory s) = 0 \<or> em_alt E (emu s) then s
      else
        (let tail = reflowTail (ring_bytes (rawHistory s)) r;
             s1 = s\<lparr>replaying := True\<rparr>;
             prevReplies = replies s1;
             s2 = s1\<lparr>replies := False, emu := em_clear_scrollback E (emu s1)\<rparr>;
             s3 = term_write E s2 [0x1B, 0x63];
             s4 = s3\<lparr>emu := em_resize E (emu s3) c r\<rparr>;
             s5 = term_write E s4 (translateSCORC tail)
         in s5\<lparr>replies := prevReplies, replaying := False\<rparr>))"

definition screenResize ::
  "('e, 'cs) emulator \<Rightarrow> ('e, 'cs) vtScreen \<Rightarrow> int \<Rightarrow> int \<Rightarrow> ('e, 'cs) vtScreen" where
  "screenResize E s c r =
     (if c \<le> 0 \<or> r \<le> 0 then s
      else
        (let changed = (c \<noteq> cols s \<or> r \<noteq> rows s);
             s1 = s\<lparr>cols := c, rows := r\<rparr>;
             s2 = flushPendingLogicalLines (recalcPendingRows s1);
             s3 = s2\<lparr>emu := em_resize E (emu s2) c r\<rparr>;
             s4 = (if changed then reflowEmulatorLocked E s3 c r else s3)
         in s4\<lparr>dirty := True\<rparr>))"

section \<open>Reading the screen\<close>

definition cellText :: "cell option \<Rightarrow> bytes" where
  "cellText cell =
     (case cell of
        None \<Rightarrow> [0x20]
      | Some c \<Rightarrow> if cell_zero c then [0x20] else if cell_Content c = [] then [0x20] else cell_Content c)"

definition plainRowAtLocked :: "('e, 'cs) emulator \<Rightarrow> ('e, 'cs) vtScreen \<Rightarrow> int \<Rightarrow> bytes" where
  "plainRowAtLocked E s y = concat (map (\<lambda>x. cellText (em_cell E (emu s) (int x) y)) [0..<nat (cols s)])"

definition painted_row :: "('e, 'cs) emulator \<Rightarrow> ('e, 'cs) vtScreen \<Rightarrow> nat \<Rightarrow> bufferLine" where
  "painted_row E s y =
     \<lparr>bl_Text = trim_right_sp (plainRowAtLocked E s (int y)), bl_SoftWrap = False, bl_WrapKnown = False\<rparr>"

definition RenderScreen :: "('e, 'cs) emulator \<Rightarrow> ('e, 'cs) vtScreen \<Rightarrow> bytes \<times> ('e, 'cs) vtScreen" where
  "RenderScreen E s = (em_render E (emu s), s\<lparr>dirty := False\<rparr>)"

definition RenderWithScrollback ::
  "('e, 'cs) emulator \<Rightarrow> ('e, 'cs) vtScreen \<Rightarrow> bytes \<times> ('e, 'cs) vtScreen" where
  "RenderWithScrollback E s =
     (let s1 = s\<lparr>dirty := False\<rparr> in
      if em_alt E (emu s1) then (em_render E (emu s1), s1)
      else (let b = writeLogicalRender s1 True in ((if b = [] then em_render E (emu s1) else b), s1)))"

definition clear_last_wrap :: "bufferLine list \<Rightarrow> bufferLine list" where
  "clear_last_wrap out =
     (if out = [] then out else out[length out - 1 := (out ! (length out - 1))\<lparr>bl_SoftWrap := False\<rparr>])"

definition BufferLines :: "('e, 'cs) emulator \<Rightarrow> ('e, 'cs) vtScreen \<Rightarrow> bufferLine list" where
  "BufferLines E s =
     (let wrap = (\<lambda>out l. appendWrappedBufferLines out l (cols s));
          out1 = (if em_alt E (emu s) then []
                  else
                    (let o1 = foldl wrap [] (map line_Plain (logicalScrollback s));
                         o2 = foldl wrap o1 (map line_Plain (pendingLines s))
                     in if linePlain s \<noteq> [] then wrap o2 (linePlain s) else o2));
          out2 = (if int (length out1) < rows s
                  then out1 @ map (painted_row E s) [length out1..<nat (rows s)] else out1);
          out3 = (if out2 = [] then map (painted_row E s) [0..<nat (rows s)] else out2)
      in clear_last_wrap out3)"

text \<open>
  The walk back through the scrollback in \<open>visibleLinesLocked\<close>: the lines it takes, newest
  last, until their rows reach twice the screen.
\<close>

fun scrollback_tail :: "int \<Rightarrow> int \<Rightarrow> int \<Rightarrow> logicalLine list \<Rightarrow> logicalLine list \<Rightarrow> logicalLine list" where
  "scrollback_tail c want have_rows [] acc = acc"
| "scrollback_tail c want have_rows (l # ls) acc =
     (if have_rows < want
      then scrollback_tail c want (have_rows + wrappedLineCount (line_Plain l) c) ls (l # acc)
      else acc)"

definition visible_sources :: "('e, 'cs) vtScreen \<Rightarrow> bytes list \<times> bytes list" where
  "visible_sources s =
     (let sb = map line_Plain (scrollback_tail (cols s) (rows s * 2) 0 (rev (logicalScrollback s)) []);
          current = (if linePlain s \<noteq> [] then [linePlain s] else []);
          logical = sb @ map line_Plain (pendingLines s) @ current;
          observedStart = length (observedLines s) - nat (rows s * 2)
      in (logical,
          logical @ drop observedStart (observedLines s) @
            (if observedPlain s \<noteq> [] then [observedPlain s] else [])))"

definition mark_full_rows :: "(bytes \<Rightarrow> int) \<Rightarrow> int \<Rightarrow> bufferLine list \<Rightarrow> bufferLine list" where
  "mark_full_rows width_of c out =
     foldl (\<lambda>out i. if \<not> bl_WrapKnown (out ! i) \<and> c \<le> width_of (bl_Text (out ! i))
                  then out[i := (out ! i)\<lparr>bl_SoftWrap := True\<rparr>] else out)
       out [0..<length out - 1]"

definition visibleLinesLocked ::
  "(bytes \<Rightarrow> int) \<Rightarrow> ('e, 'cs) emulator \<Rightarrow> ('e, 'cs) vtScreen \<Rightarrow> bufferLine list" where
  "visibleLinesLocked width_of E s =
     (let out = map (painted_row E s) [0..<nat (rows s)];
          (lines, sources) = visible_sources s;
          logical = foldl (\<lambda>out l. appendWrappedBufferLines out l (cols s)) [] lines;
          logical' = (if rows s * 2 < int (length logical)
                      then drop (length logical - nat (rows s * 2)) logical else logical);
          out1 = applyMatchingWrapMetadata out logical';
          out2 = applyAdjacentWrapMetadata width_of out1 sources (cols s)
      in mark_full_rows width_of (cols s) out2)"

definition RenderSnapshot :: "(bytes \<Rightarrow> int) \<Rightarrow> ('e, 'cs) emulator \<Rightarrow> ('e, 'cs) vtScreen \<Rightarrow>
    (bytes \<times> bufferLine list) \<times> ('e, 'cs) vtScreen" where
  "RenderSnapshot width_of E s =
     (let s1 = s\<lparr>dirty := False\<rparr> in ((em_render E (emu s1), visibleLinesLocked width_of E s1), s1))"

definition RawSnapshot :: "('e, 'cs) vtScreen \<Rightarrow> bytes" where
  "RawSnapshot s = ring_bytes (rawHistory s)"

definition Dimensions :: "('e, 'cs) vtScreen \<Rightarrow> int \<times> int" where
  "Dimensions s = (cols s, rows s)"

record 'cs cursorInfo =
  ci_X :: int
  ci_Y :: int
  ci_Visible :: bool
  ci_Shape :: 'cs
  ci_Blink :: bool

definition Cursor :: "('e, 'cs) emulator \<Rightarrow> ('e, 'cs) vtScreen \<Rightarrow> 'cs cursorInfo" where
  "Cursor E s =
     \<lparr>ci_X = fst (em_cursor E (emu s)), ci_Y = snd (em_cursor E (emu s)),
      ci_Visible = cursorVisible s, ci_Shape = cursorShape s, ci_Blink = cursorBlink s\<rparr>"

definition IsAltScreen :: "('e, 'cs) emulator \<Rightarrow> ('e, 'cs) vtScreen \<Rightarrow> bool" where
  "IsAltScreen E s = em_alt E (emu s)"

definition MouseMode :: "('e, 'cs) vtScreen \<Rightarrow> bool \<times> bool \<times> bool" where
  "MouseMode s =
     (mouseX10 s \<or> mouseNormal s \<or> mouseButton s \<or> mouseAny s,
      mouseButton s \<or> mouseAny s,
      mouseAny s)"

section \<open>The capture inside the screen\<close>

text \<open>
  The capture functions act on the capture fields alone: they commute with forgetting the other
  fields of the screen, and leave those alone.
\<close>

named_theorems capture_part \<open>capture functions on the fields of a larger record\<close>

lemma finishObservedLine_part [capture_part]:
  "capture.truncate (finishObservedLine s) = finishObservedLine (capture.truncate s)"
  "capture.more (finishObservedLine s) = capture.more s"
  by (simp_all add: finishObservedLine_def capture.truncate_def Let_def)

lemma observe_plain_part [capture_part]:
  "capture.truncate (observe_plain s b) = observe_plain (capture.truncate s) b"
  "capture.more (observe_plain s b) = capture.more s"
  by (simp_all add: observe_plain_def capture_part) (simp_all add: capture.truncate_def)


lemma capture_part_frame [capture_part]:
  "cols (capture.truncate s) = cols s" "rows (capture.truncate s) = rows s"
  "logicalScrollback (capture.truncate s) = logicalScrollback s"
  "pendingLines (capture.truncate s) = pendingLines s" "pendingRows (capture.truncate s) = pendingRows s"
  "linePlain (capture.truncate s) = linePlain s" "lineANSI (capture.truncate s) = lineANSI s"
  "pendingControl (capture.truncate s) = pendingControl s"
  "captureAltScreen (capture.truncate s) = captureAltScreen s"
  "pendingCR (capture.truncate s) = pendingCR s" "pendingCRANSI (capture.truncate s) = pendingCRANSI s"
  "observedLines (capture.truncate s) = observedLines s" "observedPlain (capture.truncate s) = observedPlain s"
  "observedControl (capture.truncate s) = observedControl s" "observedCR (capture.truncate s) = observedCR s"
  by (simp_all add: capture.truncate_def)

lemma capture_part_update [capture_part]:
  "capture.truncate (s\<lparr>cols := a1\<rparr>) = (capture.truncate s)\<lparr>cols := a1\<rparr>"
  "capture.truncate (s\<lparr>rows := a1\<rparr>) = (capture.truncate s)\<lparr>rows := a1\<rparr>"
  "capture.truncate (s\<lparr>logicalScrollback := sb\<rparr>) = (capture.truncate s)\<lparr>logicalScrollback := sb\<rparr>"
  "capture.truncate (s\<lparr>pendingLines := pl\<rparr>) = (capture.truncate s)\<lparr>pendingLines := pl\<rparr>"
  "capture.truncate (s\<lparr>pendingRows := a1\<rparr>) = (capture.truncate s)\<lparr>pendingRows := a1\<rparr>"
  "capture.truncate (s\<lparr>linePlain := bs\<rparr>) = (capture.truncate s)\<lparr>linePlain := bs\<rparr>"
  "capture.truncate (s\<lparr>lineANSI := bs\<rparr>) = (capture.truncate s)\<lparr>lineANSI := bs\<rparr>"
  "capture.truncate (s\<lparr>pendingControl := bs\<rparr>) = (capture.truncate s)\<lparr>pendingControl := bs\<rparr>"
  "capture.truncate (s\<lparr>captureAltScreen := f\<rparr>) = (capture.truncate s)\<lparr>captureAltScreen := f\<rparr>"
  "capture.truncate (s\<lparr>pendingCR := f\<rparr>) = (capture.truncate s)\<lparr>pendingCR := f\<rparr>"
  "capture.truncate (s\<lparr>pendingCRANSI := bs\<rparr>) = (capture.truncate s)\<lparr>pendingCRANSI := bs\<rparr>"
  "capture.truncate (s\<lparr>observedLines := bss\<rparr>) = (capture.truncate s)\<lparr>observedLines := bss\<rparr>"
  "capture.truncate (s\<lparr>observedPlain := bs\<rparr>) = (capture.truncate s)\<lparr>observedPlain := bs\<rparr>"
  "capture.truncate (s\<lparr>observedControl := bs\<rparr>) = (capture.truncate s)\<lparr>observedControl := bs\<rparr>"
  "capture.truncate (s\<lparr>observedCR := f\<rparr>) = (capture.truncate s)\<lparr>observedCR := f\<rparr>"
  by (simp_all add: capture.truncate_def)

lemma if_part [capture_part]:
  "capture.truncate (if b then s else t) = (if b then capture.truncate s else capture.truncate t)"
  "capture.more (if b then s else t) = (if b then capture.more s else capture.more t)"
  by simp_all

lemma observe_byte_part [capture_part]:
  "capture.truncate (observe_byte s b) = observe_byte (capture.truncate s) b"
  "capture.more (observe_byte s b) = capture.more s"
  by (simp_all add: observe_byte_def capture_part Let_def)

lemma captureObservedLines_part [capture_part]:
  "capture.truncate (captureObservedLines s p) = captureObservedLines (capture.truncate s) p"
  "capture.more (captureObservedLines s p) = capture.more s"
  unfolding captureObservedLines_def by (induction p arbitrary: s) (simp_all add: capture_part)

lemma flushPendingLogicalLines_part [capture_part]:
  "capture.truncate (flushPendingLogicalLines s) = flushPendingLogicalLines (capture.truncate s)"
  "capture.more (flushPendingLogicalLines s) = capture.more s"
  by (simp_all add: flushPendingLogicalLines_def case_prod_beta Let_def capture_part)

lemma finishLogicalLine_part [capture_part]:
  "capture.truncate (finishLogicalLine s) = finishLogicalLine (capture.truncate s)"
  "capture.more (finishLogicalLine s) = capture.more s"
  by (simp_all add: finishLogicalLine_def Let_def capture_part)

lemma captureControlSequence_part [capture_part]:
  "capture.truncate (captureControlSequence s seq) = captureControlSequence (capture.truncate s) seq"
  "capture.more (captureControlSequence s seq) = capture.more s"
  by (simp_all add: captureControlSequence_def clearLogicalScreen_def capture_part)

abbreviation switch_step :: "byte \<Rightarrow> 'a capture_scheme \<times> bool \<Rightarrow> bytes \<Rightarrow> 'a capture_scheme \<times> bool" where
  "switch_step b \<equiv> (\<lambda>(s, switched) param.
     case atoi param of None \<Rightarrow> (s, switched)
     | Some mode \<Rightarrow>
         (if alt_screen_mode mode then (s\<lparr>captureAltScreen := (b = 0x68)\<rparr>, True) else (s, switched)))"

lemma switch_steps_part:
  "capture.truncate (fst (foldl (switch_step b) (s, w) ps)) = fst (foldl (switch_step b) (capture.truncate s, w) ps) \<and>
   snd (foldl (switch_step b) (capture.truncate s, w) ps) = snd (foldl (switch_step b) (s, w) ps) \<and>
   capture.more (fst (foldl (switch_step b) (s, w) ps)) = capture.more s"
proof (induction ps arbitrary: s w)
  case (Cons p ps)
  show ?case
    using Cons.IH [of s w] Cons.IH [of "s\<lparr>captureAltScreen := (b = 0x68)\<rparr>" True]
    by (simp add: capture_part split: option.split)
qed simp

lemma captureScreenSwitch_part [capture_part]:
  "capture.truncate (fst (captureScreenSwitch s seq)) = fst (captureScreenSwitch (capture.truncate s) seq)"
  "snd (captureScreenSwitch (capture.truncate s) seq) = snd (captureScreenSwitch s seq)"
  "capture.more (fst (captureScreenSwitch s seq)) = capture.more s"
  by (simp_all add: captureScreenSwitch_def switch_steps_part capture_part)

lemma capture_plain_part [capture_part]:
  "capture.truncate (capture_plain s b) = capture_plain (capture.truncate s) b"
  "capture.more (capture_plain s b) = capture.more s"
  by (simp_all add: capture_plain_def capture_part)

lemma capture_after_cr_part [capture_part]:
  "capture.truncate (capture_after_cr s b) = capture_after_cr (capture.truncate s) b"
  "capture.more (capture_after_cr s b) = capture.more s"
  by (simp_all add: capture_after_cr_def capture_part)

lemma capture_sequence_part [capture_part]:
  "capture.truncate (capture_sequence s seq) = capture_sequence (capture.truncate s) seq"
  "capture.more (capture_sequence s seq) = capture.more s"
proof -
  have alt: "captureAltScreen (fst (captureScreenSwitch (capture.truncate s) seq))
      = captureAltScreen (fst (captureScreenSwitch s seq))"
    "pendingCR (fst (captureScreenSwitch (capture.truncate s) seq)) = pendingCR (fst (captureScreenSwitch s seq))"
    "pendingCRANSI (fst (captureScreenSwitch (capture.truncate s) seq)) = pendingCRANSI (fst (captureScreenSwitch s seq))"
    unfolding captureScreenSwitch_part(1) [symmetric] by (simp_all only: capture_part_frame)
  show "capture.truncate (capture_sequence s seq) = capture_sequence (capture.truncate s) seq"
    "capture.more (capture_sequence s seq) = capture.more s"
    by (simp_all add: capture_sequence_def case_prod_beta Let_def capture_part alt capture_frame)
qed

lemma capture_byte_part [capture_part]:
  "capture.truncate (capture_byte s b) = capture_byte (capture.truncate s) b"
  "capture.more (capture_byte s b) = capture.more s"
  by (simp_all add: capture_byte_def Let_def capture_part capture_frame)

lemma captureLogicalLines_part [capture_part]:
  "capture.truncate (captureLogicalLines s p) = captureLogicalLines (capture.truncate s) p"
  "capture.more (captureLogicalLines s p) = capture.more s"
  unfolding captureLogicalLines_def by (induction p arbitrary: s) (simp_all add: capture_part)

end
