(* ===== verification/Osc52.thy ===== *)
theory Osc52
  imports GoText
begin

text \<open>
  Clipboard writes in the PTY stream. \<open>osc52Decoder\<close> (\<open>src/pkg/session/osc52.go\<close>) is a
  byte-at-a-time state machine that finds \<open>ESC ] 52 ; c ; base64 BEL\<close> (or \<open>ESC \\<close>) in a
  stream cut at arbitrary places; \<open>buildOSC52\<close> (\<open>src/pkg/ui/selection.go\<close>) and
  \<open>writeAttachedClipboard\<close> (\<open>src/pkg/localserver/clipboard.go\<close>) produce such sequences.
  \<open>encoding/base64\<close> is modelled in the two variants the code calls: padded
  (\<open>StdEncoding\<close>) and unpadded (\<open>RawStdEncoding\<close>), both skipping CR and LF, neither strict
  about unused trailing bits.
\<close>

section \<open>Base64\<close>

definition b64_char :: "nat \<Rightarrow> byte" where
  "b64_char n =
     (if n < 26 then byte_of (65 + n)
      else if n < 52 then byte_of (71 + n)
      else if n < 62 then byte_of (n - 4)
      else if n = 62 then 0x2B else 0x2F)"

definition b64_val :: "byte \<Rightarrow> nat option" where
  "b64_val b =
     (let c = unat b in
      if 65 \<le> c \<and> c \<le> 90 then Some (c - 65)
      else if 97 \<le> c \<and> c \<le> 122 then Some (c - 71)
      else if 48 \<le> c \<and> c \<le> 57 then Some (c + 4)
      else if c = 43 then Some 62
      else if c = 47 then Some 63
      else None)"

abbreviation pad_byte :: byte where "pad_byte \<equiv> 0x3D"

definition b64_join4 :: "nat \<Rightarrow> nat \<Rightarrow> nat \<Rightarrow> nat \<Rightarrow> nat" where
  "b64_join4 a b c d = a * 262144 + b * 4096 + c * 64 + d"

definition b64_bytes3 :: "nat \<Rightarrow> bytes" where
  "b64_bytes3 v = [byte_of (v div 65536 mod 256), byte_of (v div 256 mod 256), byte_of (v mod 256)]"

definition b64_quad :: "byte \<Rightarrow> byte \<Rightarrow> byte \<Rightarrow> byte \<Rightarrow> nat option" where
  "b64_quad a b c d =
     (case (b64_val a, b64_val b, b64_val c, b64_val d) of
        (Some w, Some x, Some y, Some z) \<Rightarrow> Some (b64_join4 w x y z)
      | _ \<Rightarrow> None)"

fun b64_decode :: "bool \<Rightarrow> bytes \<Rightarrow> bytes option" where
  "b64_decode padded [] = Some []"
| "b64_decode padded [a] = None"
| "b64_decode padded [a, b] =
     (if padded then None else map_option (take 1 \<circ> b64_bytes3) (b64_quad a b 0x41 0x41))"
| "b64_decode padded [a, b, c] =
     (if padded then None else map_option (take 2 \<circ> b64_bytes3) (b64_quad a b c 0x41))"
| "b64_decode padded (a # b # c # d # rest) =
     (case b64_quad a b c d of
        Some v \<Rightarrow> map_option (append (b64_bytes3 v)) (b64_decode padded rest)
      | None \<Rightarrow>
          (if padded \<and> rest = [] \<and> d = pad_byte then
             (if c = pad_byte then map_option (take 1 \<circ> b64_bytes3) (b64_quad a b 0x41 0x41)
              else map_option (take 2 \<circ> b64_bytes3) (b64_quad a b c 0x41))
           else None))"

definition drop_newlines :: "bytes \<Rightarrow> bytes" where
  "drop_newlines s = filter (\<lambda>b. b \<noteq> 0x0A \<and> b \<noteq> 0x0D) s"

definition std_decode :: "bytes \<Rightarrow> bytes option" where
  "std_decode s = b64_decode True (drop_newlines s)"

definition raw_std_decode :: "bytes \<Rightarrow> bytes option" where
  "raw_std_decode s = b64_decode False (drop_newlines s)"

definition b64_chars4 :: "nat \<Rightarrow> bytes" where
  "b64_chars4 v = [b64_char (v div 262144 mod 64), b64_char (v div 4096 mod 64),
                   b64_char (v div 64 mod 64), b64_char (v mod 64)]"

fun std_encode :: "bytes \<Rightarrow> bytes" where
  "std_encode [] = []"
| "std_encode [x] = take 2 (b64_chars4 (unat x * 65536)) @ [pad_byte, pad_byte]"
| "std_encode [x, y] = take 3 (b64_chars4 (unat x * 65536 + unat y * 256)) @ [pad_byte]"
| "std_encode (x # y # z # rest) =
     b64_chars4 (unat x * 65536 + unat y * 256 + unat z) @ std_encode rest"

lemma b64_val_char: "n < 64 \<Longrightarrow> b64_val (b64_char n) = Some n"
  by (auto simp: b64_val_def b64_char_def Let_def)

lemma b64_val_pad [simp]: "b64_val pad_byte = None"
  by (simp add: b64_val_def)

lemma b64_val_A [simp]: "b64_val 0x41 = Some 0"
  by (simp add: b64_val_def)

lemma b64_char_not_special:
  assumes "n < 64" shows "b64_char n \<notin> {0x07, 0x0A, 0x0D, 0x1B, 0x3B, 0x3D, 0x3F}"
proof
  assume "b64_char n \<in> {0x07, 0x0A, 0x0D, 0x1B, 0x3B, 0x3D, 0x3F}"
  then have "b64_val (b64_char n) = None" by (auto simp: b64_val_def)
  with assms show False by (simp add: b64_val_char)
qed

lemma unat_byte_lt [simp]: "unat (b :: byte) < 256"
  using unsigned_less [of b] by simp

lemma b64_join_split: "v < 16777216 \<Longrightarrow>
  b64_join4 (v div 262144 mod 64) (v div 4096 mod 64) (v div 64 mod 64) (v mod 64) = v"
proof -
  assume v: "v < 16777216"
  then have "v div 262144 < 64" by (simp add: div_less_iff_less_mult)
  then have "v div 262144 mod 64 = v div 262144" by simp
  then show ?thesis using digits64 [of v] unfolding b64_join4_def by linarith
qed

lemma b64_quad_chars4:
  assumes "v < 16777216" and "b64_chars4 v = [a, b, c, d]"
  shows "b64_quad a b c d = Some v"
proof -
  have "b64_val a = Some (v div 262144 mod 64)" "b64_val b = Some (v div 4096 mod 64)"
    "b64_val c = Some (v div 64 mod 64)" "b64_val d = Some (v mod 64)"
    using assms(2) by (auto simp: b64_chars4_def b64_val_char)
  then show ?thesis
    unfolding b64_quad_def by (simp only: prod.case option.case b64_join_split [OF assms(1)])
qed

lemma div_mod_digit:
  fixes a b n :: nat
  assumes "b < n"
  shows "(a * n + b) div n = a" and "(a * n + b) mod n = b"
  using assms by simp_all

lemma bytes3_split:
  "b64_bytes3 (unat x * 65536 + unat y * 256 + unat z) = [x, y, z]"
proof -
  let ?u = "unat x * 256 + unat y"
  have v: "unat x * 65536 + unat y * 256 + unat z = ?u * 256 + unat z" by simp
  have 1: "(?u * 256 + unat z) mod 256 = unat z" "(?u * 256 + unat z) div 256 = ?u"
    by (rule div_mod_digit, simp)+
  have 2: "?u mod 256 = unat y" "?u div 256 = unat x"
    by (rule div_mod_digit, simp)+
  have 3: "(?u * 256 + unat z) div 65536 = (?u * 256 + unat z) div 256 div 256"
    by (simp flip: div_mult2_eq)
  show ?thesis
    unfolding b64_bytes3_def v 3 1 2 by simp
qed

lemma sum3_bound: "unat (x::byte) * 65536 + unat (y::byte) * 256 + unat (z::byte) < 16777216"
  using unat_byte_lt [of x] unat_byte_lt [of y] unat_byte_lt [of z] by linarith

lemma chars4_shape: "b64_chars4 v = [b64_char (v div 262144 mod 64), b64_char (v div 4096 mod 64),
   b64_char (v div 64 mod 64), b64_char (v mod 64)]"
  by (simp add: b64_chars4_def)

lemma b64_A: "b64_char 0 = 0x41"
  by (simp add: b64_char_def byte_of_def)

lemma std_encode_clean: "b \<in> set (std_encode s) \<Longrightarrow> b \<notin> {0x07, 0x0A, 0x0D, 0x1B, 0x3B, 0x3F}"
  using b64_char_not_special
  by (induction s rule: std_encode.induct) (fastforce simp: b64_chars4_def)+

lemma b64_decode_encode: "b64_decode True (std_encode s) = Some s"
proof (induction s rule: std_encode.induct)
  case 1
  then show ?case by simp
next
  case (2 x)
  let ?v = "unat x * 65536 + unat (0::byte) * 256 + unat (0::byte)"
  have q: "b64_quad (b64_char (?v div 262144 mod 64)) (b64_char (?v div 4096 mod 64))
     (b64_char (?v div 64 mod 64)) (b64_char (?v mod 64)) = Some ?v"
    by (rule b64_quad_chars4 [OF sum3_bound chars4_shape])
  have "?v div 64 mod 64 = 0" "?v mod 64 = 0" by simp_all
  then show ?case
    using q bytes3_split [of x 0 0] by (simp add: b64_chars4_def b64_A b64_quad_def split: option.splits)
next
  case (3 x y)
  let ?v = "unat x * 65536 + unat y * 256 + unat (0::byte)"
  have q: "b64_quad (b64_char (?v div 262144 mod 64)) (b64_char (?v div 4096 mod 64))
     (b64_char (?v div 64 mod 64)) (b64_char (?v mod 64)) = Some ?v"
    by (rule b64_quad_chars4 [OF sum3_bound chars4_shape])
  have "?v mod 64 = 0" by simp
  moreover have "b64_char (?v div 64 mod 64) \<noteq> pad_byte"
    using b64_char_not_special [of "?v div 64 mod 64"] by simp
  ultimately show ?case
    using q bytes3_split [of x y 0] by (simp add: b64_chars4_def b64_A b64_quad_def split: option.splits)
next
  case (4 x y z rest)
  let ?v = "unat x * 65536 + unat y * 256 + unat z"
  have q: "b64_quad (b64_char (?v div 262144 mod 64)) (b64_char (?v div 4096 mod 64))
     (b64_char (?v div 64 mod 64)) (b64_char (?v mod 64)) = Some ?v"
    by (rule b64_quad_chars4 [OF sum3_bound chars4_shape])
  then show ?case using 4 by (simp add: b64_chars4_def bytes3_split)
qed

section \<open>The decoder\<close>

definition maxOSC52Payload :: nat where
  "maxOSC52Payload = 1024 * 1024"

record osc52Decoder =
  osc_state :: nat
  osc_payload :: bytes

definition osc_init :: osc52Decoder where
  "osc_init = \<lparr>osc_state = 0, osc_payload = []\<rparr>"

definition osc_restart :: "osc52Decoder \<Rightarrow> byte \<Rightarrow> osc52Decoder" where
  "osc_restart d b = d\<lparr>osc_state := (if b = 0x1B then 1 else 0)\<rparr>"

definition osc_reset :: "osc52Decoder \<Rightarrow> osc52Decoder" where
  "osc_reset d = d\<lparr>osc_state := 0, osc_payload := []\<rparr>"

text \<open>\<open>strings.Cut(payload, ";")\<close>: what follows the first separator, if there is one.\<close>

fun cut_after :: "byte \<Rightarrow> bytes \<Rightarrow> bytes option" where
  "cut_after c [] = None"
| "cut_after c (b # bs) = (if b = c then Some bs else cut_after c bs)"

definition decodeOSC52Payload :: "bytes \<Rightarrow> bytes option" where
  "decodeOSC52Payload payload =
     (case cut_after 0x3B payload of
        None \<Rightarrow> None
      | Some encoded \<Rightarrow>
          (if encoded = [] \<or> encoded = [0x3F] then None
           else (case std_decode encoded of
                   Some decoded \<Rightarrow> Some decoded
                 | None \<Rightarrow> raw_std_decode encoded)))"

definition osc_emit :: "osc52Decoder \<Rightarrow> osc52Decoder \<times> bytes list" where
  "osc_emit d =
     (osc_reset d, (case decodeOSC52Payload (osc_payload d) of Some clip \<Rightarrow> [clip] | None \<Rightarrow> []))"

definition osc_step :: "osc52Decoder \<Rightarrow> byte \<Rightarrow> osc52Decoder \<times> bytes list" where
  "osc_step d b =
     (if osc_state d = 0 then (if b = 0x1B then d\<lparr>osc_state := 1\<rparr> else d, [])
      else if osc_state d = 1 then (if b = 0x5D then d\<lparr>osc_state := 2\<rparr> else osc_restart d b, [])
      else if osc_state d = 2 then (if b = 0x35 then d\<lparr>osc_state := 3\<rparr> else osc_restart d b, [])
      else if osc_state d = 3 then (if b = 0x32 then d\<lparr>osc_state := 4\<rparr> else osc_restart d b, [])
      else if osc_state d = 4 then
        (if b = 0x3B then d\<lparr>osc_state := 5, osc_payload := []\<rparr> else osc_restart d b, [])
      else if osc_state d = 5 then
        (if b = 0x07 then osc_emit d
         else if b = 0x1B then (d\<lparr>osc_state := 6\<rparr>, [])
         else if maxOSC52Payload \<le> length (osc_payload d) then (osc_reset d, [])
         else (d\<lparr>osc_payload := osc_payload d @ [b]\<rparr>, []))
      else if osc_state d = 6 then
        (if b = 0x5C then osc_emit d
         else if maxOSC52Payload < length (osc_payload d) + 2 then (osc_reset d, [])
         else (d\<lparr>osc_payload := osc_payload d @ [0x1B, b], osc_state := 5\<rparr>, []))
      else (d, []))"

fun osc_write :: "osc52Decoder \<Rightarrow> bytes \<Rightarrow> osc52Decoder \<times> bytes list" where
  "osc_write d [] = (d, [])"
| "osc_write d (b # bs) =
     (let (d1, ts) = osc_step d b; (d2, us) = osc_write d1 bs in (d2, ts @ us))"

text \<open>A stream delivered in chunks, as the read loop calls \<open>Write\<close>.\<close>

fun osc_stream :: "osc52Decoder \<Rightarrow> bytes list \<Rightarrow> osc52Decoder \<times> bytes list" where
  "osc_stream d [] = (d, [])"
| "osc_stream d (p # ps) =
     (let (d1, ts) = osc_write d p; (d2, us) = osc_stream d1 ps in (d2, ts @ us))"

section \<open>The producers\<close>

definition buildOSC52 :: "bytes \<Rightarrow> bytes" where
  "buildOSC52 clip = [0x1B, 0x5D, 0x35, 0x32, 0x3B, 0x63, 0x3B] @ std_encode clip @ [0x07]"

text \<open>
  \<open>tmux_set\<close> is the outcome of \<open>setTmuxClipboard\<close> (an external \<open>tmux\<close> process); the result is
  the bytes written to the terminal.
\<close>

definition double_esc :: "bytes \<Rightarrow> bytes" where
  "double_esc s = concat (map (\<lambda>b. if b = 0x1B then [0x1B, 0x1B] else [b]) s)"

definition writeAttachedClipboard :: "bool \<Rightarrow> bytes \<Rightarrow> bytes" where
  "writeAttachedClipboard tmux_set clip =
     (if tmux_set then []
      else (let osc = [0x1B, 0x5D, 0x35, 0x32, 0x3B, 0x63, 0x3B] @ std_encode clip @ [0x07]
            in osc @ [0x1B, 0x50, 0x74, 0x6D, 0x75, 0x78, 0x3B] @ double_esc osc @ [0x1B, 0x5C]))"

section \<open>Lemmas\<close>

definition osc_inv :: "osc52Decoder \<Rightarrow> bool" where
  "osc_inv d \<longleftrightarrow> osc_state d \<le> 6 \<and> length (osc_payload d) \<le> maxOSC52Payload \<and>
     (osc_state d < 5 \<longrightarrow> osc_payload d = [])"

lemma osc_write_append:
  "osc_write d (p @ q) =
     (let (d1, ts) = osc_write d p; (d2, us) = osc_write d1 q in (d2, ts @ us))"
  by (induction p arbitrary: d) (simp_all add: Let_def split: prod.splits)

lemma osc_stream_concat: "osc_stream d ps = osc_write d (concat ps)"
  by (induction ps arbitrary: d) (simp_all add: osc_write_append Let_def split: prod.splits)

lemma osc_step_inv: "osc_inv d \<Longrightarrow> osc_inv (fst (osc_step d b))"
  by (auto simp: osc_inv_def osc_step_def osc_restart_def osc_reset_def osc_emit_def)

lemma osc_write_inv: "osc_inv d \<Longrightarrow> osc_inv (fst (osc_write d p))"
proof (induction p arbitrary: d)
  case (Cons b p)
  then show ?case using osc_step_inv [OF Cons.prems, of b] by (auto split: prod.splits) (metis fst_conv)
qed simp

lemma osc_write_payload:
  assumes "osc_state d = 5" and "\<forall>b\<in>set p. b \<noteq> 0x07 \<and> b \<noteq> 0x1B"
    and "length (osc_payload d) + length p \<le> maxOSC52Payload"
  shows "osc_write d p = (d\<lparr>osc_payload := osc_payload d @ p\<rparr>, [])"
  using assms
proof (induction p arbitrary: d)
  case (Cons b p)
  then have "osc_step d b = (d\<lparr>osc_payload := osc_payload d @ [b]\<rparr>, [])"
    by (auto simp: osc_step_def)
  with Cons show ?case by simp
qed simp

lemma osc_write_header:
  assumes "osc_state d \<le> 4"
  shows "osc_write d [0x1B, 0x5D, 0x35, 0x32, 0x3B] = (d\<lparr>osc_state := 5, osc_payload := []\<rparr>, [])"
proof -
  have s: "osc_step d 0x1B = (d\<lparr>osc_state := 1\<rparr>, [])"
    using assms by (auto simp: osc_step_def osc_restart_def)
  show ?thesis
    by (simp add: s) (simp add: osc_step_def)
qed

lemma decode_built_payload:
  "clip \<noteq> [] \<Longrightarrow> decodeOSC52Payload (0x63 # 0x3B # std_encode clip) = Some clip"
proof -
  assume "clip \<noteq> []"
  then have "std_encode clip \<noteq> []" by (cases clip rule: std_encode.cases) (auto simp: b64_chars4_def)
  moreover have "std_encode clip \<noteq> [0x3F]" using std_encode_clean [of "0x3F" clip] by force
  moreover have "drop_newlines (std_encode clip) = std_encode clip"
    unfolding drop_newlines_def using std_encode_clean by (intro filter_True) blast
  ultimately show ?thesis
    by (simp add: decodeOSC52Payload_def std_decode_def b64_decode_encode)
qed

lemma osc_write_built:
  assumes "osc_state d \<le> 4" and "clip \<noteq> []" and "length (std_encode clip) + 2 \<le> maxOSC52Payload"
  shows "osc_write d (buildOSC52 clip) = (d\<lparr>osc_state := 0, osc_payload := []\<rparr>, [clip])"
proof -
  let ?hdr = "[0x1B, 0x5D, 0x35, 0x32, 0x3B] :: bytes"
  let ?pl = "0x63 # 0x3B # std_encode clip"
  have built: "buildOSC52 clip = ?hdr @ ?pl @ [0x07]" by (simp add: buildOSC52_def)
  have pl: "\<forall>b\<in>set ?pl. b \<noteq> 0x07 \<and> b \<noteq> 0x1B" using std_encode_clean [of _ clip] by auto
  have "osc_write (d\<lparr>osc_state := 5, osc_payload := []\<rparr>) ?pl
          = (d\<lparr>osc_state := 5, osc_payload := ?pl\<rparr>, [])"
    using osc_write_payload [OF _ pl, of "d\<lparr>osc_state := 5, osc_payload := []\<rparr>"] assms(3) by simp
  moreover have "osc_write (d\<lparr>osc_state := 5, osc_payload := ?pl\<rparr>) [0x07]
          = (d\<lparr>osc_state := 0, osc_payload := []\<rparr>, [clip])"
    using decode_built_payload [OF assms(2)] by (simp add: osc_step_def osc_emit_def osc_reset_def)
  ultimately show ?thesis
    unfolding built osc_write_append [of _ ?hdr] osc_write_append [of _ ?pl]
      osc_write_header [OF assms(1)] by simp
qed

lemma osc_write_quiet:
  "osc_state d = 0 \<Longrightarrow> \<forall>b\<in>set p. b \<noteq> 0x1B \<Longrightarrow> osc_write d p = (d, [])"
  by (induction p) (auto simp: osc_step_def)

section \<open>Properties\<close>

text \<open>
  C13. A clipboard write built by the UI is decoded to exactly the selected text, wherever the
  PTY reads cut the byte stream, and it leaves the decoder at rest.
\<close>

theorem osc52_roundtrip:
  assumes "clip \<noteq> []" and "length (std_encode clip) + 2 \<le> maxOSC52Payload"
    and "concat ps = buildOSC52 clip"
  shows "osc_stream osc_init ps = (osc_init, [clip])"
  using osc_write_built [of osc_init clip] assms
  by (simp add: osc_stream_concat osc_init_def)

theorem osc52_roundtrip_witness:
  "osc_stream osc_init [take 3 (buildOSC52 [0x68, 0x69]), drop 3 (buildOSC52 [0x68, 0x69])]
     = (osc_init, [[0x68, 0x69]])"
  by (rule osc52_roundtrip) (simp_all add: maxOSC52Payload_def b64_chars4_def)

text \<open>
  Whatever bytes a child process prints, the decoder never buffers more than
  \<open>maxOSC52Payload\<close> bytes of payload, stays in one of its seven states, and holds no payload
  outside the payload states: an unterminated clipboard write cannot grow without bound.
\<close>

theorem osc52_bounded:
  "let d = fst (osc_stream osc_init ps)
   in osc_state d \<le> 6 \<and>
      (if osc_state d < 5 then osc_payload d = [] else length (osc_payload d) \<le> maxOSC52Payload)"
proof -
  have "osc_inv osc_init" by (simp add: osc_inv_def osc_init_def)
  then have "osc_inv (fst (osc_stream osc_init ps))"
    unfolding osc_stream_concat by (rule osc_write_inv)
  then show ?thesis by (simp add: osc_inv_def Let_def)
qed

end
