(* ===== verification/GoStrings.thy ===== *)
theory GoStrings
  imports GoText
begin

text \<open>
  The functions of Go's \<open>strings\<close>, \<open>path/filepath\<close> (on Unix) and \<open>strconv\<close> packages the program
  uses on text, over byte strings. \<open>strings.ToLower\<close> outside ASCII needs the Unicode case tables:
  they are the parameter \<open>unicode_lower\<close>, used for texts with a byte of 0x80 or above.
\<close>

definition ascii :: "string \<Rightarrow> bytes" where
  "ascii s = map of_char s"

lemma ascii_simps [simp]:
  "ascii [] = []" "ascii (c # s) = of_char c # ascii s" "ascii (s @ t) = ascii s @ ascii t"
  "length (ascii s) = length s"
  by (simp_all add: ascii_def)

definition lower_byte :: "byte \<Rightarrow> byte" where
  "lower_byte b = (if byte_in 0x41 0x5A b then b + 0x20 else b)"

definition is_ascii :: "bytes \<Rightarrow> bool" where
  "is_ascii s \<longleftrightarrow> list_all (\<lambda>b. b < 0x80) s"

definition strings_ToLower :: "(bytes \<Rightarrow> bytes) \<Rightarrow> bytes \<Rightarrow> bytes" where
  "strings_ToLower unicode_lower s = (if is_ascii s then map lower_byte s else unicode_lower s)"

text \<open>\<open>unicode.IsSpace\<close>.\<close>

definition space_rune :: "rune \<Rightarrow> bool" where
  "space_rune r \<longleftrightarrow>
     r \<in> {0x09, 0x0A, 0x0B, 0x0C, 0x0D, 0x20, 0x85, 0xA0, 0x1680, 0x2028, 0x2029, 0x202F, 0x205F, 0x3000} \<or>
     (0x2000 \<le> r \<and> r \<le> 0x200A)"

function trim_left_space :: "bytes \<Rightarrow> bytes" where
  "trim_left_space [] = []"
| "trim_left_space (b # bs) =
     (let d = decode_rune (b # bs)
      in if space_rune (fst d) then trim_left_space (drop (snd d) (b # bs)) else b # bs)"
  by pat_completeness auto
termination
proof (relation "measure length", goal_cases)
  case (2 b bs d)
  then show ?case using decode_rune_size [of b bs] by simp
qed simp

text \<open>A space rune ends \<open>s\<close> in its last \<open>k\<close> bytes.\<close>

definition ends_in_space :: "bytes \<Rightarrow> nat \<Rightarrow> bool" where
  "ends_in_space s k \<longleftrightarrow>
     k \<le> length s \<and>
     (let d = decode_rune (drop (length s - k) s) in snd d = k \<and> space_rune (fst d))"

function trim_right_space :: "bytes \<Rightarrow> bytes" where
  "trim_right_space s =
     (if s = [] then []
      else if ends_in_space s 1 then trim_right_space (take (length s - 1) s)
      else if ends_in_space s 2 then trim_right_space (take (length s - 2) s)
      else if ends_in_space s 3 then trim_right_space (take (length s - 3) s)
      else s)"
  by pat_completeness auto
termination by (relation "measure length") auto

declare trim_right_space.simps [simp del]

definition trim_space :: "bytes \<Rightarrow> bytes" where
  "trim_space s = trim_right_space (trim_left_space s)"

lemma trim_right_space_Nil [simp]: "trim_right_space [] = []"
  by (simp add: trim_right_space.simps)

lemma trim_space_Nil [simp]: "trim_space [] = []"
  by (simp add: trim_space_def)

lemma trim_left_space_suffix: "suffix (trim_left_space s) s"
proof (induction s rule: trim_left_space.induct)
  case (2 b bs)
  then show ?case
    by (auto simp: Let_def simp del: drop.simps intro: suffix_order.trans suffix_drop)
qed simp

lemma trim_right_space_prefix: "prefix (trim_right_space s) s"
proof (induction s rule: trim_right_space.induct)
  case (1 s)
  then show ?case
    by (subst trim_right_space.simps)
      (auto intro: prefix_order.trans take_is_prefix)
qed

lemma trim_space_sublist: "sublist (trim_space s) s"
  unfolding trim_space_def
  using trim_left_space_suffix [of s] trim_right_space_prefix [of "trim_left_space s"]
  by (meson prefix_imp_sublist suffix_imp_sublist subseq_order.trans sublist_order.order.trans)

text \<open>\<open>strings.HasPrefix\<close>, \<open>HasSuffix\<close>, \<open>TrimPrefix\<close>, \<open>Cut\<close>, \<open>Join\<close>.\<close>

abbreviation has_prefix :: "bytes \<Rightarrow> bytes \<Rightarrow> bool" where
  "has_prefix s p \<equiv> prefix p s"

abbreviation has_suffix :: "bytes \<Rightarrow> bytes \<Rightarrow> bool" where
  "has_suffix s p \<equiv> suffix p s"

definition trim_prefix :: "bytes \<Rightarrow> bytes \<Rightarrow> bytes" where
  "trim_prefix s p = (if prefix p s then drop (length p) s else s)"

fun cut :: "byte \<Rightarrow> bytes \<Rightarrow> (bytes \<times> bytes) option" where
  "cut c [] = None"
| "cut c (b # bs) =
     (if b = c then Some ([], bs)
      else (case cut c bs of None \<Rightarrow> None | Some (before, after) \<Rightarrow> Some (b # before, after)))"

fun join_with :: "bytes \<Rightarrow> bytes list \<Rightarrow> bytes" where
  "join_with sep [] = []"
| "join_with sep [s] = s"
| "join_with sep (s # ss) = s @ sep @ join_with sep ss"

lemma cut_Some: "cut c s = Some (x, y) \<Longrightarrow> s = x @ c # y \<and> c \<notin> set x"
  by (induction s arbitrary: x) (auto split: if_splits option.splits)

lemma cut_None [simp]: "cut c s = None \<longleftrightarrow> c \<notin> set s"
  by (induction s) (auto split: option.splits)

lemma cut_append: "c \<notin> set x \<Longrightarrow> cut c (x @ c # y) = Some (x, y)"
  by (induction x) auto

text \<open>\<open>filepath.Base\<close>: \<open>.\<close> for the empty path, \<open>/\<close> for one of slashes only.\<close>

definition filepath_Base :: "bytes \<Rightarrow> bytes" where
  "filepath_Base p =
     (if p = [] then [0x2E]
      else (let q = rev (dropWhile (\<lambda>b. b = 0x2F) (rev p))
            in if q = [] then [0x2F] else rev (takeWhile (\<lambda>b. b \<noteq> 0x2F) (rev q))))"

lemma filepath_Base_no_slash: "0x2F \<in> set (filepath_Base p) \<Longrightarrow> filepath_Base p = [0x2F]"
  by (auto simp: filepath_Base_def Let_def dest: set_takeWhileD split: if_splits)

lemma filepath_Base_nonempty: "filepath_Base p \<noteq> []"
proof -
  have "takeWhile (\<lambda>b. b \<noteq> 0x2F) xs \<noteq> []" if "xs = dropWhile (\<lambda>b. b = (0x2F::byte)) ys" "xs \<noteq> []" for xs ys
    using that hd_dropWhile [of "\<lambda>b. b = 0x2F" ys] by (cases "dropWhile (\<lambda>b. b = 0x2F) ys") auto
  then show ?thesis by (auto simp: filepath_Base_def Let_def)
qed

text \<open>Decimal and hexadecimal digits (\<open>strconv.FormatUint\<close>, \<open>hex.EncodeToString\<close>).\<close>

fun decimal :: "nat \<Rightarrow> bytes" where
  "decimal n = (if n < 10 then [byte_of (0x30 + n)] else decimal (n div 10) @ [byte_of (0x30 + n mod 10)])"

declare decimal.simps [simp del]

definition hex_digit :: "nat \<Rightarrow> byte" where
  "hex_digit n = (if n < 10 then byte_of (0x30 + n) else byte_of (0x57 + n))"

definition hex_encode :: "bytes \<Rightarrow> bytes" where
  "hex_encode s = concat (map (\<lambda>b. [hex_digit (unat b div 16), hex_digit (unat b mod 16)]) s)"

lemma decimal_nonempty [simp]: "decimal n \<noteq> []"
  by (subst decimal.simps) simp

lemma digits_val_append:
  "digits_val n (ds @ es) = (case digits_val n ds of None \<Rightarrow> None | Some m \<Rightarrow> digits_val m es)"
  by (induction ds arbitrary: n) auto

lemma digit_in [simp]: "n < 10 \<Longrightarrow> byte_in 0x30 0x39 (byte_of (0x30 + n))"
  by (simp add: byte_in_def)

lemma digits_val_decimal: "digits_val 0 (decimal n) = Some n"
proof (induction n rule: decimal.induct)
  case (1 n)
  show ?case
  proof (cases "n < 10")
    case True
    then show ?thesis by (subst decimal.simps) simp
  next
    case False
    with 1 show ?thesis
      by (subst decimal.simps) (simp add: digits_val_append)
  qed
qed

lemma decimal_digits: "list_all (byte_in 0x30 0x39) (decimal n)"
proof (induction n rule: decimal.induct)
  case (1 n)
  then show ?case by (subst decimal.simps) simp
qed

lemma length_hex_encode [simp]: "length (hex_encode s) = 2 * length s"
  by (induction s) (simp_all add: hex_encode_def)

lemma hex_digit_inj: "m < 16 \<Longrightarrow> n < 16 \<Longrightarrow> hex_digit m = hex_digit n \<longleftrightarrow> m = n"
proof -
  assume "m < 16" and "n < 16"
  then have "unat (hex_digit m) = unat (hex_digit n) \<longleftrightarrow> m = n"
    by (auto simp: hex_digit_def split: if_splits)
  then show ?thesis by (metis)
qed

lemma hex_encode_inj: "hex_encode s = hex_encode t \<longleftrightarrow> s = t"
proof (induction s arbitrary: t)
  case Nil
  show ?case by (cases t) (simp_all add: hex_encode_def)
next
  case (Cons b s)
  have b: "hex_digit (unat b div 16) = hex_digit (unat c div 16) \<and>
      hex_digit (unat b mod 16) = hex_digit (unat c mod 16) \<longleftrightarrow> b = c" for c :: byte
  proof -
    have "unat b < 256" "unat c < 256"
      using unsigned_less [of b] unsigned_less [of c] by simp_all
    then have "unat b div 16 < 16" "unat c div 16 < 16" by auto
    then show ?thesis
      by (auto simp: hex_digit_inj) (metis div_mult_mod_eq word_unat_eq_iff)
  qed
  show ?case
    using Cons.IH b by (cases t) (auto simp: hex_encode_def)
qed

section \<open>Fields and numbers\<close>

text \<open>\<open>strings.Fields\<close>, \<open>TrimSuffix\<close>, \<open>LastIndexByte\<close>, \<open>strconv.ParseUint\<close> to 64 bits.\<close>

function fields_from :: "bytes \<Rightarrow> bytes \<Rightarrow> bytes list" where
  "fields_from cur [] = (if cur = [] then [] else [cur])"
| "fields_from cur (b # bs) =
     (let d = decode_rune (b # bs); rest = drop (snd d) (b # bs) in
      if space_rune (fst d) then (if cur = [] then fields_from [] rest else cur # fields_from [] rest)
      else fields_from (cur @ take (snd d) (b # bs)) rest)"
  by pat_completeness auto
termination
proof (relation "measure (length \<circ> snd)", goal_cases)
  case (2 cur b bs d rest)
  then show ?case using decode_rune_size [of b bs] by simp
next
  case (3 cur b bs d rest)
  then show ?case using decode_rune_size [of b bs] by simp
next
  case (4 cur b bs d rest)
  then show ?case using decode_rune_size [of b bs] by simp
qed simp

definition strings_Fields :: "bytes \<Rightarrow> bytes list" where
  "strings_Fields s = fields_from [] s"

definition trim_suffix :: "bytes \<Rightarrow> bytes \<Rightarrow> bytes" where
  "trim_suffix s p = (if has_suffix s p then take (length s - length p) s else s)"

text \<open>The text before and after the last occurrence of a byte.\<close>

fun cut_last :: "byte \<Rightarrow> bytes \<Rightarrow> (bytes \<times> bytes) option" where
  "cut_last c [] = None"
| "cut_last c (b # bs) =
     (case cut_last c bs of
        Some (x, y) \<Rightarrow> Some (b # x, y)
      | None \<Rightarrow> if b = c then Some ([], bs) else None)"

definition ParseUint :: "bytes \<Rightarrow> 64 word option" where
  "ParseUint s =
     (if s = [] then None
      else (case digits_val 0 s of
              None \<Rightarrow> None
            | Some n \<Rightarrow> if n < 2 ^ 64 then Some (of_nat n) else None))"

text \<open>Its value when the error is ignored: a number out of range gives the greatest value.\<close>

definition ParseUint_value :: "bytes \<Rightarrow> 64 word" where
  "ParseUint_value s =
     (if s = [] then 0
      else (case digits_val 0 s of None \<Rightarrow> 0 | Some n \<Rightarrow> if n < 2 ^ 64 then of_nat n else -1))"

lemma fields_from_Cons:
  "decode_rune (b # bs) = (r, k) \<Longrightarrow> fields_from cur (b # bs) =
     (if space_rune r then (if cur = [] then fields_from [] (drop k (b # bs)) else cur # fields_from [] (drop k (b # bs)))
      else fields_from (cur @ take k (b # bs)) (drop k (b # bs)))"
  by (simp add: Let_def del: decode_rune.simps)

lemma fields_induct [case_names Nil Cons]:
  assumes "\<And>cur. P cur []"
    and "\<And>cur b bs r k. decode_rune (b # bs) = (r, k) \<Longrightarrow> P [] (drop k (b # bs)) \<Longrightarrow>
      P (cur @ take k (b # bs)) (drop k (b # bs)) \<Longrightarrow> P cur (b # bs)"
  shows "P cur s"
proof (induction s arbitrary: cur rule: length_induct)
  case (1 s)
  show ?case
  proof (cases s)
    case (Cons b bs)
    obtain r k where d: "decode_rune (b # bs) = (r, k)" by (metis surj_pair)
    have "length (drop k (b # bs)) < length s"
      using decode_rune_size [of b bs] Cons by (simp add: d del: decode_rune.simps)
    with 1 assms(2) [OF d] Cons show ?thesis by blast
  qed (simp add: assms(1))
qed

lemma fields_nonempty: "w \<in> set (fields_from cur s) \<Longrightarrow> w \<noteq> []"
proof (induction cur s rule: fields_induct)
  case (Cons cur b bs r k)
  then show ?case by (auto simp: fields_from_Cons simp del: fields_from.simps split: if_splits)
qed (auto split: if_splits)

lemma fields_bytes: "w \<in> set (fields_from cur s) \<Longrightarrow> set w \<subseteq> set cur \<union> set s"
proof (induction cur s rule: fields_induct)
  case (Cons cur b bs r k)
  have sub: "set (take k (b # bs)) \<subseteq> set (b # bs)" "set (drop k (b # bs)) \<subseteq> set (b # bs)"
    by (rule set_take_subset, rule set_drop_subset)
  consider "w = cur" | "set w \<subseteq> set [] \<union> set (drop k (b # bs))"
    | "set w \<subseteq> set (cur @ take k (b # bs)) \<union> set (drop k (b # bs))"
    using Cons.prems Cons.IH fields_from_Cons [OF Cons.hyps, of cur] by (auto split: if_splits)
  then show ?case by cases (use sub in \<open>auto simp del: take.simps drop.simps\<close>)
qed (auto split: if_splits)

end
