(* ===== verification/Session.thy ===== *)
theory Session
  imports Screen Osc52 GoStrings
begin

text \<open>
  A session (\<open>Session\<close> in \<open>src/pkg/session/session.go\<close> and \<open>start_unix.go\<close>): the fields of the
  struct, its methods, and the read loops its starts leave running. Sessions, screens and read
  loops are shared by reference in the program, so they live in the heaps of a \<open>world\<close>: a session
  keeps the number of its screen, a read loop the numbers of its session and its screen.
  Opening a PTY or an SSH channel is outside: its result is an argument. Tracing is left out.
\<close>

record outputMsg =
  om_Index :: int
  om_SessionID :: bytes
  om_Generation :: "64 word"
  om_Sequence :: "64 word"
  om_Data :: bytes
  om_Clipboard :: "bytes list"

record exitMsg =
  em_Index :: int
  em_SessionID :: bytes
  em_Generation :: "64 word"

record session =
  runtimeID :: bytes
  index :: int
  cmd :: "bytes list"
  cmdLine :: bytes
  workDir :: bytes
  title :: bytes
  screen :: nat
  exited :: bool
  processID :: int
  generation :: "64 word"
  runToken :: "64 word"
  outputSequence :: "64 word"
  agentEndpoint :: bytes
  extraEnv :: "bytes list"
  rw :: "nat option"
  resizeFn :: "nat option"
  sshClient :: "nat option"
  SendOutput :: bool
  SendExit :: bool

text \<open>
  Where a read loop is: about to read, between the screen and the lock with a chunk, outside the
  lock with a message to send, or returned.
\<close>

datatype phase = Reading | Captured bytes "bytes list" | SendingOutput outputMsg | SendingExit exitMsg
  | Returned

record run =
  run_session :: nat
  run_rw :: nat
  run_screen :: nat
  run_generation :: "64 word"
  run_token :: "64 word"
  run_clipboard :: osc52Decoder
  run_phase :: phase

record ('e, 'cs) world =
  w_sessions :: "nat \<Rightarrow> session"
  w_screens :: "nat \<Rightarrow> ('e, 'cs) vtScreen"
  w_nextSession :: nat
  w_nextScreen :: nat
  w_runs :: "run list"
  w_output :: "outputMsg list"
  w_exits :: "exitMsg list"
  w_closed :: "nat list"

definition upd_session :: "nat \<Rightarrow> (session \<Rightarrow> session) \<Rightarrow>
    ('e, 'cs, 'a) world_scheme \<Rightarrow> ('e, 'cs, 'a) world_scheme" where
  "upd_session i f w = w\<lparr>w_sessions := (w_sessions w)(i := f (w_sessions w i))\<rparr>"

definition upd_screen :: "nat \<Rightarrow> (('e, 'cs) vtScreen \<Rightarrow> ('e, 'cs) vtScreen) \<Rightarrow>
    ('e, 'cs, 'a) world_scheme \<Rightarrow> ('e, 'cs, 'a) world_scheme" where
  "upd_screen i f w = w\<lparr>w_screens := (w_screens w)(i := f (w_screens w i))\<rparr>"

definition upd_run :: "nat \<Rightarrow> (run \<Rightarrow> run) \<Rightarrow>
    ('e, 'cs, 'a) world_scheme \<Rightarrow> ('e, 'cs, 'a) world_scheme" where
  "upd_run k f w = w\<lparr>w_runs := (w_runs w)[k := f (w_runs w ! k)]\<rparr>"

section \<open>Creating a session\<close>

definition newRuntimeID :: "bytes \<Rightarrow> bytes" where
  "newRuntimeID value = ascii ''ses_'' @ hex_encode value"

definition newSession :: "('e, 'cs) emulator \<Rightarrow> bytes \<Rightarrow> int \<Rightarrow> bytes list \<Rightarrow> int \<Rightarrow> int \<Rightarrow> nat option \<Rightarrow>
    ('e, 'cs, 'a) world_scheme \<Rightarrow> nat \<times> ('e, 'cs, 'a) world_scheme" where
  "newSession E value idx command c r ssh w =
     (let sid = w_nextSession w; scr = w_nextScreen w;
          s = \<lparr>runtimeID = newRuntimeID value, index = idx, cmd = command, cmdLine = [], workDir = [],
               title = [], screen = scr, exited = False, processID = 0, generation = 0, runToken = 0,
               outputSequence = 0, agentEndpoint = [], extraEnv = [], rw = None, resizeFn = None,
               sshClient = ssh, SendOutput = False, SendExit = False\<rparr>
      in (sid, w\<lparr>w_sessions := (w_sessions w)(sid := s), w_nextSession := Suc sid,
                 w_screens := (w_screens w)(scr := NewVTScreen E c r), w_nextScreen := Suc scr\<rparr>))"

section \<open>Starting\<close>

text \<open>
  \<open>Start\<close> and \<open>startSSH\<close>: \<open>opened\<close> is what opening the channel gave (the channel and, for a local
  PTY, the process id), None when it failed.
\<close>

definition start_locked :: "nat \<Rightarrow> nat \<Rightarrow> int option \<Rightarrow>
    ('e, 'cs, 'a) world_scheme \<Rightarrow> ('e, 'cs, 'a) world_scheme" where
  "start_locked i chan pid w =
     (let w1 = upd_session i (\<lambda>s. s\<lparr>rw := Some chan,
                 processID := (case pid of Some p \<Rightarrow> p | None \<Rightarrow> processID s),
                 generation := generation s + 1, runToken := runToken s + 1, resizeFn := Some chan\<rparr>) w;
          s1 = w_sessions w1 i;
          w2 = upd_screen (screen s1) (\<lambda>v. SetTerminalReplies (SetReplyWriter v) True) w1
      in w2\<lparr>w_runs := w_runs w2 @ [\<lparr>run_session = i, run_rw = chan, run_screen = screen s1,
             run_generation = generation s1, run_token = runToken s1, run_clipboard = osc_init,
             run_phase = Reading\<rparr>]\<rparr>)"

definition Start :: "nat \<Rightarrow> (nat \<times> int) option \<Rightarrow>
    ('e, 'cs, 'a) world_scheme \<Rightarrow> bool \<times> ('e, 'cs, 'a) world_scheme" where
  "Start i opened w =
     (case opened of
        None \<Rightarrow> (False, w)
      | Some (chan, pid) \<Rightarrow>
          (True, start_locked i chan (if sshClient (w_sessions w i) = None then Some pid else None) w))"

definition close_channel :: "nat option \<Rightarrow> ('e, 'cs, 'a) world_scheme \<Rightarrow> ('e, 'cs, 'a) world_scheme" where
  "close_channel chan w =
     (case chan of None \<Rightarrow> w | Some h \<Rightarrow> w\<lparr>w_closed := w_closed w @ [h]\<rparr>)"

lemma close_channel_frame [simp]:
  "w_sessions (close_channel ch w) = w_sessions w" "w_screens (close_channel ch w) = w_screens w"
  "w_runs (close_channel ch w) = w_runs w" "w_output (close_channel ch w) = w_output w"
  "w_exits (close_channel ch w) = w_exits w" "w_nextScreen (close_channel ch w) = w_nextScreen w"
  "w_nextSession (close_channel ch w) = w_nextSession w"
  by (simp_all add: close_channel_def split: option.split)

text \<open>\<open>Respawn\<close>: the part under the lock, and the whole.\<close>

definition respawn_locked :: "('e, 'cs) emulator \<Rightarrow> nat \<Rightarrow> int \<Rightarrow> int \<Rightarrow>
    ('e, 'cs, 'a) world_scheme \<Rightarrow> ('e, 'cs, 'a) world_scheme" where
  "respawn_locked E i c r w =
     (let scr = w_nextScreen w;
          w1 = upd_session i (\<lambda>s. s\<lparr>runToken := runToken s + 1, processID := 0, rw := None,
                 resizeFn := None, exited := False, outputSequence := 0, screen := scr\<rparr>) w
      in w1\<lparr>w_screens := (w_screens w1)(scr := NewVTScreen E c r), w_nextScreen := Suc scr\<rparr>)"

definition SessionRespawn :: "('e, 'cs) emulator \<Rightarrow> nat \<Rightarrow> int \<Rightarrow> int \<Rightarrow> (nat \<times> int) option \<Rightarrow>
    ('e, 'cs, 'a) world_scheme \<Rightarrow> bool \<times> ('e, 'cs, 'a) world_scheme" where
  "SessionRespawn E i c r opened w =
     (let chan = rw (w_sessions w i)
      in Start i opened (close_channel chan (respawn_locked E i c r w)))"

definition SessionClose :: "nat \<Rightarrow> ('e, 'cs, 'a) world_scheme \<Rightarrow> ('e, 'cs, 'a) world_scheme" where
  "SessionClose i w =
     (let chan = rw (w_sessions w i);
          w1 = upd_session i (\<lambda>s. s\<lparr>exited := True, runToken := runToken s + 1, processID := 0,
                 rw := None, resizeFn := None\<rparr>) w
      in close_channel chan w1)"

section \<open>The read loop\<close>

text \<open>A chunk arrives: the clipboard decoder and the screen take it.\<close>

definition loop_read :: "('e, 'cs) emulator \<Rightarrow> nat \<Rightarrow> bytes \<Rightarrow>
    ('e, 'cs, 'a) world_scheme \<Rightarrow> ('e, 'cs, 'a) world_scheme" where
  "loop_read E k chunk w =
     (let r = w_runs w ! k; (d, clips) = osc_write (run_clipboard r) chunk
      in upd_run k (\<lambda>r. r\<lparr>run_clipboard := d, run_phase := Captured chunk clips\<rparr>)
           (upd_screen (run_screen r) (\<lambda>v. screenWrite E v chunk) w))"

text \<open>Under the lock: a loop of an earlier run returns; otherwise the chunk gets its sequence number.\<close>

definition loop_commit :: "nat \<Rightarrow> ('e, 'cs, 'a) world_scheme \<Rightarrow> ('e, 'cs, 'a) world_scheme" where
  "loop_commit k w =
     (let r = w_runs w ! k; s = w_sessions w (run_session r) in
      case run_phase r of
        Captured chunk clips \<Rightarrow>
          (if runToken s \<noteq> run_token r then upd_run k (\<lambda>r. r\<lparr>run_phase := Returned\<rparr>) w
           else
             (let msg = \<lparr>om_Index = index s, om_SessionID = runtimeID s, om_Generation = run_generation r,
                         om_Sequence = outputSequence s, om_Data = chunk, om_Clipboard = clips\<rparr>;
                  w1 = upd_session (run_session r)
                         (\<lambda>s. s\<lparr>outputSequence := outputSequence s + of_nat (length chunk)\<rparr>) w
              in upd_run k (\<lambda>r. r\<lparr>run_phase := (if SendOutput s then SendingOutput msg else Reading)\<rparr>) w1))
      | _ \<Rightarrow> w)"

definition loop_send :: "nat \<Rightarrow> ('e, 'cs, 'a) world_scheme \<Rightarrow> ('e, 'cs, 'a) world_scheme" where
  "loop_send k w =
     (case run_phase (w_runs w ! k) of
        SendingOutput msg \<Rightarrow>
          upd_run k (\<lambda>r. r\<lparr>run_phase := Reading\<rparr>) (w\<lparr>w_output := w_output w @ [msg]\<rparr>)
      | SendingExit msg \<Rightarrow>
          upd_run k (\<lambda>r. r\<lparr>run_phase := Returned\<rparr>) (w\<lparr>w_exits := w_exits w @ [msg]\<rparr>)
      | _ \<Rightarrow> w)"

text \<open>Reading fails: the session has exited, and the first to notice says so.\<close>

definition loop_error :: "nat \<Rightarrow> ('e, 'cs, 'a) world_scheme \<Rightarrow> ('e, 'cs, 'a) world_scheme" where
  "loop_error k w =
     (let r = w_runs w ! k; s = w_sessions w (run_session r) in
      if runToken s \<noteq> run_token r then upd_run k (\<lambda>r. r\<lparr>run_phase := Returned\<rparr>) w
      else
        (let already = exited s;
             msg = \<lparr>em_Index = index s, em_SessionID = runtimeID s, em_Generation = run_generation r\<rparr>;
             w1 = upd_session (run_session r) (\<lambda>s. s\<lparr>exited := True, processID := 0\<rparr>) w
         in upd_run k (\<lambda>r. r\<lparr>run_phase := (if \<not> already \<and> SendExit s then SendingExit msg else Returned)\<rparr>) w1))"

section \<open>The other methods\<close>

text \<open>\<open>Write\<close>: the channel the bytes go to, or the error that the session has not started.\<close>

definition SessionWrite :: "session \<Rightarrow> nat option" where
  "SessionWrite s = rw s"

text \<open>\<open>Resize\<close>: the screen first, then the channel the new size is sent to, if there is one.\<close>

definition SessionResize :: "('e, 'cs) emulator \<Rightarrow> nat \<Rightarrow> int \<Rightarrow> int \<Rightarrow>
    ('e, 'cs, 'a) world_scheme \<Rightarrow> nat option \<times> ('e, 'cs, 'a) world_scheme" where
  "SessionResize E i c r w =
     (let s = w_sessions w i
      in (resizeFn s, upd_screen (screen s) (\<lambda>v. screenResize E v c r) w))"

definition RuntimeSnapshot :: "session \<Rightarrow> bytes \<times> 64 word \<times> int \<times> bool" where
  "RuntimeSnapshot s = (runtimeID s, generation s, processID s, sshClient s = None)"

text \<open>\<open>native_target\<close> is \<open>agentdetect.NativeTarget\<close>.\<close>

definition agentEnvironment :: "(bytes \<Rightarrow> 64 word \<Rightarrow> bytes) \<Rightarrow> session \<Rightarrow> bytes list" where
  "agentEnvironment native_target s =
     (if sshClient s \<noteq> None then []
      else if agentEndpoint s = [] then extraEnv s
      else
        (let target = native_target (runtimeID s) (generation s + 1) in
         if target = [] then extraEnv s
         else extraEnv s @ [ascii ''HERDR_ENV=1'',
                            ascii ''HERDR_SOCKET_PATH='' @ agentEndpoint s,
                            ascii ''HERDR_PANE_ID='' @ target]))"

definition setIndex :: "session \<Rightarrow> int \<Rightarrow> session" where
  "setIndex s i = s\<lparr>index := i\<rparr>"

definition setCallbacks :: "session \<Rightarrow> bool \<Rightarrow> bool \<Rightarrow> session" where
  "setCallbacks s out ex = s\<lparr>SendOutput := out, SendExit := ex\<rparr>"

definition setSendOutput :: "session \<Rightarrow> bool \<Rightarrow> session" where
  "setSendOutput s out = s\<lparr>SendOutput := out\<rparr>"

definition setSendExit :: "session \<Rightarrow> bool \<Rightarrow> session" where
  "setSendExit s ex = s\<lparr>SendExit := ex\<rparr>"

definition Title :: "session \<Rightarrow> bytes" where
  "Title s =
     (if title s \<noteq> [] then title s
      else if trim_space (cmdLine s) \<noteq> [] then trim_space (cmdLine s)
      else (case cmd s of [] \<Rightarrow> ascii ''?'' | c # _ \<Rightarrow> filepath_Base c))"

definition SetTitle :: "session \<Rightarrow> bytes \<Rightarrow> session" where
  "SetTitle s t = s\<lparr>title := t\<rparr>"

definition SetCmdLine :: "session \<Rightarrow> bytes \<Rightarrow> session" where
  "SetCmdLine s l = s\<lparr>cmdLine := l\<rparr>"

definition SetEnvironment :: "session \<Rightarrow> bytes list \<Rightarrow> session" where
  "SetEnvironment s env = s\<lparr>extraEnv := env\<rparr>"

definition known_shells :: "bytes list" where
  "known_shells = map ascii [''sh'', ''bash'', ''dash'', ''zsh'', ''fish'', ''ksh'', ''csh'', ''tcsh'', ''nu'',
     ''nu.exe'', ''xonsh'', ''elvish'', ''pwsh'', ''pwsh.exe'', ''powershell'', ''powershell.exe'', ''cmd'', ''cmd.exe'']"

definition powershells :: "bytes list" where
  "powershells = map ascii [''pwsh'', ''pwsh.exe'', ''powershell'', ''powershell.exe'']"

text \<open>\<open>strings.TrimLeft(arg, "-")\<close>.\<close>

definition trim_left_dashes :: "bytes \<Rightarrow> bytes" where
  "trim_left_dashes arg = dropWhile (\<lambda>b. b = 0x2D) arg"

text \<open>An argument that makes the shell run one command instead of a dialogue.\<close>

definition command_arg :: "bytes \<Rightarrow> bytes \<Rightarrow> bool" where
  "command_arg name arg =
     (if name = ascii ''cmd'' \<or> name = ascii ''cmd.exe'' then arg = ascii ''/c''
      else if name \<in> set powershells then
        arg = ascii ''-c'' \<or> arg = ascii ''-command'' \<or> has_prefix arg (ascii ''-command='') \<or>
        arg = ascii ''-encodedcommand'' \<or> has_prefix arg (ascii ''-encodedcommand='')
      else arg = ascii ''--command'' \<or> has_prefix arg (ascii ''--command='') \<or>
        (has_prefix arg (ascii ''-'') \<and> \<not> has_prefix arg (ascii ''--'') \<and>
         contains (trim_left_dashes arg) (ascii ''c'')))"

definition IsInteractiveShell :: "(bytes \<Rightarrow> bytes) \<Rightarrow> bytes \<Rightarrow> bytes \<Rightarrow> session \<Rightarrow> bool" where
  "IsInteractiveShell unicode_lower env_SHELL env_COMSPEC s =
     (if sshClient s \<noteq> None then False
      else (case cmd s of
              [] \<Rightarrow> False
            | c # args \<Rightarrow>
                (let lower = strings_ToLower unicode_lower;
                     name = lower (filepath_Base c);
                     shellName = lower (filepath_Base env_SHELL);
                     comspecName = lower (filepath_Base env_COMSPEC)
                 in if name \<notin> set known_shells \<and> name \<noteq> shellName \<and> name \<noteq> comspecName then False
                    else list_all (\<lambda>arg. \<not> command_arg name (lower arg)) args)))"

end
