(* ===== verification/ScreenProps.thy ===== *)
theory ScreenProps
  imports Screen
begin

text \<open>
  What a virtual screen guarantees under any sequence of its operations and any behaviour of the
  emulator: the replay history, the captured text across writes and resizes, the suppression of
  replies during a reflow, and the rows handed to the selection.
\<close>

section \<open>What the emulator can touch\<close>

named_theorems screen_frame \<open>fields a screen operation does not write\<close>

lemma setModeLocked_frame [screen_frame]:
  "capture.truncate (setModeLocked s m f) = capture.truncate s"
  "rawHistory (setModeLocked s m f) = rawHistory s" "replies (setModeLocked s m f) = replies s"
  "replaying (setModeLocked s m f) = replaying s" "reply_sent (setModeLocked s m f) = reply_sent s"
  "reply_set (setModeLocked s m f) = reply_set s" "reply_loop (setModeLocked s m f) = reply_loop s"
  "reply_pipe (setModeLocked s m f) = reply_pipe s"
  by (simp_all add: setModeLocked_def capture.truncate_def split: ansi_mode.split)

lemma term_callback_frame [screen_frame]:
  "capture.truncate (term_callback s ev) = capture.truncate s"
  "rawHistory (term_callback s ev) = rawHistory s" "replies (term_callback s ev) = replies s"
  "replaying (term_callback s ev) = replaying s" "reply_sent (term_callback s ev) = reply_sent s"
  "reply_set (term_callback s ev) = reply_set s" "reply_loop (term_callback s ev) = reply_loop s"
  by (simp_all add: term_callback_def setCursorStyleLocked_def screen_frame split: term_event.split)
    (simp_all add: capture.truncate_def)

lemma interact_frame [screen_frame]:
  "capture.truncate (interact E t s) = capture.truncate s"
  "rawHistory (interact E t s) = rawHistory s" "replies (interact E t s) = replies s"
  "replaying (interact E t s) = replaying s" "reply_sent (interact E t s) = reply_sent s"
  "reply_set (interact E t s) = reply_set s" "reply_loop (interact E t s) = reply_loop s"
proof (induction t arbitrary: s)
  case (Finished e)
  { case 1 show ?case by (simp add: capture.truncate_def) }
qed (simp_all add: screen_frame)

lemma term_write_frame [screen_frame]:
  "capture.truncate (term_write E s p) = capture.truncate s"
  "rawHistory (term_write E s p) = rawHistory s" "replies (term_write E s p) = replies s"
  "replaying (term_write E s p) = replaying s" "reply_sent (term_write E s p) = reply_sent s"
  "reply_set (term_write E s p) = reply_set s" "reply_loop (term_write E s p) = reply_loop s"
  by (simp_all add: term_write_def screen_frame)

lemma screen_update_frame [screen_frame]:
  "capture.truncate (s\<lparr>emu := e\<rparr>) = capture.truncate s"
  "capture.truncate (s\<lparr>dirty := f\<rparr>) = capture.truncate s"
  "capture.truncate (s\<lparr>replaying := f\<rparr>) = capture.truncate s"
  "capture.truncate (s\<lparr>rawHistory := h\<rparr>) = capture.truncate s"
  "capture.truncate (s\<lparr>reply_set := f\<rparr>) = capture.truncate s"
  "capture.truncate (s\<lparr>reply_loop := f\<rparr>) = capture.truncate s"
  "capture.truncate (s\<lparr>replies := f\<rparr>) = capture.truncate s"
  "capture.truncate (s\<lparr>reply_pipe := q\<rparr>) = capture.truncate s"
  "capture.truncate (s\<lparr>reply_sent := q\<rparr>) = capture.truncate s"
  by (simp_all add: capture.truncate_def)

lemma more_frame:
  assumes "capture.more s = capture.more t"
  shows "rawHistory s = rawHistory t" "replies s = replies t" "replaying s = replaying t"
    "reply_sent s = reply_sent t" "reply_set s = reply_set t" "reply_loop s = reply_loop t" "emu s = emu t"
    "reply_pipe s = reply_pipe t"
  using assms by (cases s; cases t; simp)+

lemmas capture_more_frame = more_frame [OF captureLogicalLines_part(2)]
lemmas flush_more_frame = more_frame [OF flushPendingLogicalLines_part(2)]

lemma recalcPendingRows_part [capture_part]:
  "capture.truncate (recalcPendingRows s) = recalcPendingRows (capture.truncate s)"
  "capture.more (recalcPendingRows s) = capture.more s"
  by (simp_all add: recalcPendingRows_def capture_part)

lemmas recalc_more_frame = more_frame [OF recalcPendingRows_part(2)]

section \<open>One operation\<close>

lemma screenWrite_effect:
  "capture.truncate (screenWrite E s p) = captureLogicalLines (capture.truncate s) p"
  "rawHistory (screenWrite E s p) = ring_append (rawHistory s) p"
  "replies (screenWrite E s p) = replies s" "replaying (screenWrite E s p) = replaying s"
  by (simp_all add: screenWrite_def Let_def screen_frame capture_part capture_more_frame)

lemma reflow_effect [screen_frame]:
  "capture.truncate (reflowEmulatorLocked E s c r) = capture.truncate s"
  "rawHistory (reflowEmulatorLocked E s c r) = rawHistory s"
  "replies (reflowEmulatorLocked E s c r) = replies s"
  "\<not> replaying s \<Longrightarrow> \<not> replaying (reflowEmulatorLocked E s c r)"
  "reply_sent (reflowEmulatorLocked E s c r) = reply_sent s"
  by (simp_all add: reflowEmulatorLocked_def Let_def screen_frame)

definition resized :: "int \<Rightarrow> int \<Rightarrow> 'a capture_scheme \<Rightarrow> 'a capture_scheme" where
  "resized c r s = flushPendingLogicalLines (recalcPendingRows (s\<lparr>cols := c, rows := r\<rparr>))"

lemma screenResize_effect:
  "capture.truncate (screenResize E s c r) =
     (if c \<le> 0 \<or> r \<le> 0 then capture.truncate s else resized c r (capture.truncate s))"
  "rawHistory (screenResize E s c r) = rawHistory s"
  "replies (screenResize E s c r) = replies s"
  "\<not> replaying s \<Longrightarrow> \<not> replaying (screenResize E s c r)"
  "reply_sent (screenResize E s c r) = reply_sent s"
  by (simp_all add: screenResize_def Let_def screen_frame capture_part resized_def
      flush_more_frame recalc_more_frame)
    (simp add: capture.truncate_def)

lemma resized_eq:
  assumes "capture_inv s"
  shows "\<exists>moved rest. pendingLines s = moved @ rest \<and>
    resized c r s = s\<lparr>cols := c, rows := r,
      logicalScrollback := last_n maxScrollbackLines (logicalScrollback s @ moved),
      pendingRows := rows_of c rest, pendingLines := rest\<rparr> \<and>
    (rest = [] \<or> rows_of c rest \<le> r) \<and> (moved \<noteq> [] \<longrightarrow> r < rows_of c (last moved # rest))"
proof -
  have "length (logicalScrollback s) \<le> maxScrollbackLines" using assms by (simp add: capture_inv_def)
  from flush_loop_spec [OF refl this, where c = c and r = r and ls = "pendingLines s"]
  obtain moved rest where m: "pendingLines s = moved @ rest"
    "flush_loop c r (logicalScrollback s) (rows_of c (pendingLines s)) (pendingLines s) =
       (last_n maxScrollbackLines (logicalScrollback s @ moved), rows_of c rest, rest)"
    "rest = [] \<or> rows_of c rest \<le> r" "moved \<noteq> [] \<longrightarrow> r < rows_of c (last moved # rest)"
    by blast
  then show ?thesis
    by (intro exI [of _ moved] exI [of _ rest])
      (simp add: resized_def flushPendingLogicalLines_def recalcPendingRows_def recalc_rows)
qed

lemma resized_inv: "capture_inv s \<Longrightarrow> capture_inv (resized c r s)"
  using resized_eq [of s c r] by (auto simp: capture_inv_def)

lemma capture_inv_truncate: "capture_inv (capture.truncate s) = capture_inv s"
  by (simp add: capture_inv_def capture_part_frame)

section \<open>Runs of a screen\<close>

datatype screen_op = OpWrite bytes | OpResize int int | OpReplies bool | OpReplyWriter | OpReplyLoop
  | OpRender

definition screen_do :: "('e, 'cs) emulator \<Rightarrow> ('e, 'cs) vtScreen \<Rightarrow> screen_op \<Rightarrow> ('e, 'cs) vtScreen" where
  "screen_do E s op =
     (case op of
        OpWrite p \<Rightarrow> screenWrite E s p
      | OpResize c r \<Rightarrow> screenResize E s c r
      | OpReplies on \<Rightarrow> SetTerminalReplies s on
      | OpReplyWriter \<Rightarrow> SetReplyWriter s
      | OpReplyLoop \<Rightarrow> replyLoop_step s
      | OpRender \<Rightarrow> snd (RenderWithScrollback E s))"

definition screen_run :: "('e, 'cs) emulator \<Rightarrow> int \<Rightarrow> int \<Rightarrow> screen_op list \<Rightarrow> ('e, 'cs) vtScreen" where
  "screen_run E c r ops = foldl (screen_do E) (NewVTScreen E c r) ops"

fun written :: "screen_op list \<Rightarrow> bytes list" where
  "written [] = []"
| "written (OpWrite p # ops) = p # written ops"
| "written (_ # ops) = written ops"

fun last_size :: "int \<times> int \<Rightarrow> screen_op list \<Rightarrow> int \<times> int" where
  "last_size d [] = d"
| "last_size d (OpResize c r # ops) = last_size (if 0 < c \<and> 0 < r then (c, r) else d) ops"
| "last_size d (_ # ops) = last_size d ops"

fun last_replies :: "bool \<Rightarrow> screen_op list \<Rightarrow> bool" where
  "last_replies b [] = b"
| "last_replies b (OpReplies on # ops) = last_replies on ops"
| "last_replies b (_ # ops) = last_replies b ops"

lemma replyLoop_step_frame [screen_frame]:
  "capture.truncate (replyLoop_step s) = capture.truncate s"
  "rawHistory (replyLoop_step s) = rawHistory s" "replies (replyLoop_step s) = replies s"
  "replaying (replyLoop_step s) = replaying s"
  by (simp_all add: replyLoop_step_def Let_def screen_frame split: list.split)

lemma RenderWithScrollback_frame [screen_frame]:
  "snd (RenderWithScrollback E s) = s\<lparr>dirty := False\<rparr>"
  by (simp add: RenderWithScrollback_def Let_def)

lemma resized_size [simp]: "cols (resized c r s) = c" "rows (resized c r s) = r"
  by (simp_all add: resized_def flushPendingLogicalLines_def recalcPendingRows_def case_prod_beta Let_def)

lemma truncate_size:
  "capture.truncate s = capture.truncate t \<Longrightarrow> cols s = cols t \<and> rows s = rows t"
  by (metis capture_part_frame(1,2))

lemma screen_do_size:
  "Dimensions (screen_do E s op) = last_size (Dimensions s) [op]"
proof -
  have eq: "Dimensions t = (cols (capture.truncate t), rows (capture.truncate t))" for t :: "('a, 'b) vtScreen"
    by (simp add: Dimensions_def capture_part_frame)
  show ?thesis
    unfolding eq
    by (cases op)
      (simp_all add: screen_do_def screenWrite_effect screenResize_effect captureLogicalLines_size
        SetTerminalReplies_def SetReplyWriter_def screen_frame)
qed

lemma last_size_Cons: "last_size d (op # ops) = last_size (last_size d [op]) ops"
  by (cases op) simp_all

lemma screen_do_inv: "capture_inv s \<Longrightarrow> capture_inv (screen_do E s op)"
  by (subst capture_inv_truncate [symmetric], cases op)
    (simp_all add: screen_do_def screenWrite_effect screenResize_effect captureLogicalLines_inv
      SetTerminalReplies_def SetReplyWriter_def screen_frame capture_inv_truncate resized_inv)

lemma truncate_new: "capture.truncate (NewVTScreen E c r) = new_capture c r"
  by (simp add: capture.truncate_def NewVTScreen_def new_capture_def)

lemma screen_run_inv: "capture_inv (screen_run E c r ops)"
proof -
  have "capture_inv (foldl (screen_do E) s ops)" if "capture_inv s" for s
    using that by (induction ops arbitrary: s) (auto intro: screen_do_inv)
  moreover have "capture_inv (NewVTScreen E c r)"
    by (subst capture_inv_truncate [symmetric]) (simp add: truncate_new new_capture_inv)
  ultimately show ?thesis by (simp add: screen_run_def)
qed

section \<open>The properties\<close>

lemma concat_written_Cons: "concat (written (op # ops)) = concat (written [op]) @ concat (written ops)"
  by (cases op) simp_all

lemma last_replies_Cons: "last_replies b (op # ops) = last_replies (last_replies b [op]) ops"
  by (cases op) simp_all

lemma screen_do_effect:
  "rawHistory (screen_do E s op) = foldl ring_append (rawHistory s) (written [op])"
  "replies (screen_do E s op) = last_replies (replies s) [op]"
  "\<not> replaying s \<Longrightarrow> \<not> replaying (screen_do E s op)"
  by (cases op; simp add: screen_do_def screenWrite_effect screenResize_effect SetTerminalReplies_def
      SetReplyWriter_def screen_frame)+

lemma written_Cons: "written (op # ops) = written [op] @ written ops"
  by (cases op) simp_all

lemma screen_run_effect:
  "rawHistory (foldl (screen_do E) s ops) = foldl ring_append (rawHistory s) (written ops) \<and>
   replies (foldl (screen_do E) s ops) = last_replies (replies s) ops \<and>
   (\<not> replaying s \<longrightarrow> \<not> replaying (foldl (screen_do E) s ops)) \<and>
   Dimensions (foldl (screen_do E) s ops) = last_size (Dimensions s) ops"
proof (induction ops arbitrary: s)
  case (Cons op ops)
  show ?case
    unfolding foldl.simps written_Cons [of op ops] last_size_Cons [of _ op ops] last_replies_Cons [of _ op ops]
    using Cons.IH [of "screen_do E s op"] by (simp add: screen_do_effect screen_do_size)
qed simp

text \<open>
  C25. Whatever a session does with its screen, and however the terminal emulator behaves: the raw
  snapshot sent to new clients is exactly the last 256 KiB of everything written; the size is the
  last one asked for that was positive; replies are on exactly if they were last switched on, since
  a reflow restores the switch; no operation leaves the screen in replay; and the captured lines
  keep their invariant.
\<close>

theorem screen_run_facts:
  "let s = screen_run E c r ops in
     RawSnapshot s = last_n (256 * 1024) (concat (written ops)) \<and>
     Dimensions s = last_size (c, r) ops \<and>
     replies s = last_replies False ops \<and>
     \<not> replaying s \<and>
     pendingRows s = (\<Sum>l\<leftarrow>pendingLines s. wrappedLineCount (line_Plain l) (cols s)) \<and>
     (pendingLines s = [] \<or> pendingRows s \<le> rows s) \<and>
     length (logicalScrollback s) \<le> 10000"
proof -
  have "capture_inv (screen_run E c r ops)" by (rule screen_run_inv)
  then show ?thesis
    using screen_run_effect [of E "NewVTScreen E c r" ops] ring.contents_from_empty [of "written ops"]
    by (auto simp: Let_def screen_run_def RawSnapshot_def NewVTScreen_def Dimensions_def capture_inv_def
        rows_of_def maxScrollback_def maxScrollbackLines_def)
qed

text \<open>
  C40. The captured text does not depend on how the output was cut into writes, nor on the emulator:
  after any number of writes the capture fields are those of one pass over the whole stream.
\<close>

theorem capture_independent_of_chunks:
  "capture.truncate (foldl (screenWrite E) (NewVTScreen E c r) ps)
     = captureLogicalLines (new_capture c r) (concat ps)"
proof -
  have "capture.truncate (foldl (screenWrite E) s ps) = captureLogicalLines (capture.truncate s) (concat ps)"
    for s
    by (induction ps arbitrary: s) (simp_all add: screenWrite_effect captureLogicalLines_append)
  then show ?thesis by (simp add: truncate_new)
qed

text \<open>
  C26. Resizing loses no captured text: a size that is not positive changes nothing, and any other
  moves a prefix of the pending lines, in order and no longer than it takes for the rest to fit the
  new screen, to the end of the (capped) scrollback; the line being written, the observed lines and
  the raw history stay, no reply is sent and the reply switch is as before.
\<close>

theorem resize_keeps_text:
  "let s = screen_run E c0 r0 ops; t = screenResize E s c r in
   if c \<le> 0 \<or> r \<le> 0 then t = s
   else
     (\<exists>moved. pendingLines s = moved @ pendingLines t \<and>
        logicalScrollback t = last_n 10000 (logicalScrollback s @ moved) \<and>
        (pendingLines t = [] \<or> rows_of c (pendingLines t) \<le> r) \<and>
        (moved = [] \<or> r < rows_of c (last moved # pendingLines t))) \<and>
     Dimensions t = (c, r) \<and> linePlain t = linePlain s \<and> lineANSI t = lineANSI s \<and>
     observedLines t = observedLines s \<and> rawHistory t = rawHistory s \<and>
     replies t = replies s \<and> reply_sent t = reply_sent s"
proof -
  let ?s = "screen_run E c0 r0 ops" and ?t = "screenResize E (screen_run E c0 r0 ops) c r"
  show ?thesis
  proof (cases "c \<le> 0 \<or> r \<le> 0")
    case True
    then show ?thesis by (simp add: Let_def screenResize_def)
  next
    case False
    have "capture_inv (capture.truncate ?s)" by (simp add: capture_inv_truncate screen_run_inv)
    from resized_eq [OF this, of c r] obtain moved rest where
      "pendingLines (capture.truncate ?s) = moved @ rest"
      and eq: "resized c r (capture.truncate ?s) = (capture.truncate ?s)\<lparr>cols := c, rows := r,
        logicalScrollback := last_n maxScrollbackLines (logicalScrollback (capture.truncate ?s) @ moved),
        pendingRows := rows_of c rest, pendingLines := rest\<rparr>"
      and fits: "rest = [] \<or> rows_of c rest \<le> r" "moved \<noteq> [] \<longrightarrow> r < rows_of c (last moved # rest)"
      by blast
    moreover have t: "capture.truncate ?t = resized c r (capture.truncate ?s)"
      using False by (simp add: screenResize_effect)
    have f: "f (capture.truncate ?t) = f (resized c r (capture.truncate ?s))" for f :: "capture \<Rightarrow> 'z"
      using t by simp
    ultimately have
      "pendingLines ?s = moved @ pendingLines ?t" "pendingLines ?t = rest"
      "logicalScrollback ?t = last_n maxScrollbackLines (logicalScrollback ?s @ moved)"
      "Dimensions ?t = (c, r)" "linePlain ?t = linePlain ?s" "lineANSI ?t = lineANSI ?s"
      "observedLines ?t = observedLines ?s"
      using f [of pendingLines] f [of logicalScrollback] f [of cols] f [of rows] f [of linePlain]
        f [of lineANSI] f [of observedLines]
      by (simp_all add: capture_part_frame Dimensions_def)
    then show ?thesis
      using False fits
      by (auto simp: Let_def maxScrollbackLines_def screenResize_effect intro!: exI [of _ moved])
  qed
qed

section \<open>Rows handed to the selection\<close>

lemma mark_full_rows_pads: "pads_rows out (mark_full_rows width_of c out)"
  unfolding mark_full_rows_def
  by (rule pads_rows_foldl) (auto intro!: pads_rows_update simp: pads_row_def intro: exI [of _ 0])

lemma mark_full_rows_last:
  "out \<noteq> [] \<Longrightarrow> last (mark_full_rows width_of c out) = last out"
proof -
  assume ne: "out \<noteq> []"
  have "length (foldl (\<lambda>out i. if \<not> bl_WrapKnown (out ! i) \<and> c \<le> width_of (bl_Text (out ! i))
          then out[i := (out ! i)\<lparr>bl_SoftWrap := True\<rparr>] else out) vs is) = length vs \<and>
        last (foldl (\<lambda>out i. if \<not> bl_WrapKnown (out ! i) \<and> c \<le> width_of (bl_Text (out ! i))
          then out[i := (out ! i)\<lparr>bl_SoftWrap := True\<rparr>] else out) vs is) = last vs"
    if "\<forall>i\<in>set is. Suc i < length vs" for vs :: "bufferLine list" and "is"
    using that
  proof (induction "is" arbitrary: vs)
    case (Cons i "is")
    have "last (vs[i := (vs ! i)\<lparr>bl_SoftWrap := True\<rparr>]) = last vs"
      using Cons.prems by (subst last_list_update) auto
    with Cons.prems Cons.IH [of vs] Cons.IH [of "vs[i := (vs ! i)\<lparr>bl_SoftWrap := True\<rparr>]"]
    show ?case by auto
  qed simp
  moreover have "\<forall>i\<in>set [0..<length out - 1]. Suc i < length out" by auto
  ultimately show ?thesis by (simp add: mark_full_rows_def)
qed

text \<open>
  Selecting on the live screen copies what is painted: \<open>visibleLinesLocked\<close> gives one entry per
  screen row, in order, and the text of each is the text painted in that row, without its trailing
  blanks, followed by nothing but spaces (those that a matching logical line restores), whatever
  the captured lines and the width function say.
\<close>

theorem visible_lines_are_painted:
  "list_all2 (\<lambda>y line. \<exists>k. bl_Text line = trim_right_sp (plainRowAtLocked E s (int y)) @ replicate k 0x20)
     [0..<nat (rows s)] (visibleLinesLocked width_of E s)"
proof -
  let ?out = "map (painted_row E s) [0..<nat (rows s)]"
  obtain lines sources where vs: "visible_sources s = (lines, sources)" by force
  have "pads_rows ?out (visibleLinesLocked width_of E s)"
    unfolding visibleLinesLocked_def vs Let_def prod.case
    by (blast intro: pads_rows_trans applyMatching_pads applyAdjacent_pads mark_full_rows_pads)
  then show ?thesis
    unfolding pads_rows_def list_all2_map1
    by (rule list_all2_mono) (auto simp: pads_row_def painted_row_def)
qed

lemma appendWrapped_runes:
  "concat (map (\<lambda>l. runes_of (bl_Text l)) (appendWrappedBufferLines [] t width)) = runes_of t"
  by (auto simp: appendWrappedBufferLines_def wrap_loop_runes runes_of_valid)

lemma wrap_all:
  "foldl (\<lambda>out l. appendWrappedBufferLines out l w) out ls =
     out @ concat (map (\<lambda>l. appendWrappedBufferLines [] l w) ls)"
proof (induction ls arbitrary: out)
  case (Cons l ls)
  then show ?case using appendWrapped_out [of out l w] by simp
qed simp

text \<open>The logical lines of a screen, oldest first, and the rows they wrap to.\<close>

definition logical_texts :: "('e, 'cs) vtScreen \<Rightarrow> bytes list" where
  "logical_texts s =
     map line_Plain (logicalScrollback s @ pendingLines s) @ (if linePlain s \<noteq> [] then [linePlain s] else [])"

definition logical_rows :: "('e, 'cs) vtScreen \<Rightarrow> bufferLine list" where
  "logical_rows s = concat (map (\<lambda>l. appendWrappedBufferLines [] l (cols s)) (logical_texts s))"

lemma logical_rows_length:
  "int (length (logical_rows s)) = (\<Sum>l\<leftarrow>logical_texts s. wrappedLineCount l (cols s))"
proof -
  have "int (length (concat (map (\<lambda>l. appendWrappedBufferLines [] l w) ls))) = (\<Sum>l\<leftarrow>ls. wrappedLineCount l w)"
    for w ls by (induction ls) (simp_all add: appendWrapped_length)
  then show ?thesis by (simp add: logical_rows_def)
qed

lemma logical_rows_runes:
  "concat (map (\<lambda>l. runes_of (bl_Text l)) (logical_rows s)) = concat (map runes_of (logical_texts s))"
proof -
  have "concat (map (\<lambda>l. runes_of (bl_Text l)) (concat (map (\<lambda>l. appendWrappedBufferLines [] l w) ls)))
      = concat (map runes_of ls)" for w ls
    by (induction ls) (simp_all add: appendWrapped_runes)
  then show ?thesis by (simp add: logical_rows_def)
qed

lemma clear_last_wrap_text:
  "map bl_Text (clear_last_wrap out) = map bl_Text out"
  "length (clear_last_wrap out) = length out"
  "out \<noteq> [] \<Longrightarrow> \<not> bl_SoftWrap (last (clear_last_wrap out))"
  by (auto simp: clear_last_wrap_def map_update last_list_update intro: list_update_same_conv [THEN iffD2])

lemma BufferLines_main:
  assumes "\<not> em_alt E (emu s)"
  shows "map bl_Text (BufferLines E s) =
    map bl_Text (logical_rows s @ map (painted_row E s) [length (logical_rows s)..<nat (rows s)])"
proof -
  let ?wrap = "\<lambda>out l. appendWrappedBufferLines out l (cols s)"
  have o1: "(let o1 = foldl ?wrap [] (map line_Plain (logicalScrollback s));
         o2 = foldl ?wrap o1 (map line_Plain (pendingLines s))
     in if linePlain s \<noteq> [] then ?wrap o2 (linePlain s) else o2) = logical_rows s"
    by (cases "linePlain s = []")
      (simp_all add: Let_def wrap_all logical_rows_def logical_texts_def, subst appendWrapped_out, simp)
  have "map bl_Text (BufferLines E s) =
     map bl_Text (let out2 = (if int (length (logical_rows s)) < rows s
         then logical_rows s @ map (painted_row E s) [length (logical_rows s)..<nat (rows s)]
         else logical_rows s) in if out2 = [] then map (painted_row E s) [0..<nat (rows s)] else out2)"
    using assms o1 by (simp add: BufferLines_def Let_def clear_last_wrap_text)
  also have "\<dots> = map bl_Text (logical_rows s @ map (painted_row E s) [length (logical_rows s)..<nat (rows s)])"
    by (auto simp: Let_def)
  finally show ?thesis .
qed

text \<open>
  C32. The buffer handed to the selection on the main screen holds every captured line: its first
  rows carry, character by character, the text of the scrollback, the pending lines and the line
  being written, wrapped at the width of the screen into as many rows as the screen counts for
  them, and the rest are the painted rows, so that at least a full screen is returned and the last
  row does not claim to continue.
\<close>

theorem buffer_lines_hold_text:
  "let out = BufferLines E s;
       n = (if em_alt E (emu s) then 0 else \<Sum>l\<leftarrow>logical_texts s. wrappedLineCount l (cols s)) in
   concat (map (\<lambda>l. runes_of (bl_Text l)) (take (nat n) out))
     = (if em_alt E (emu s) then [] else concat (map runes_of (logical_texts s))) \<and>
   map bl_Text (drop (nat n) out) = map (bl_Text \<circ> painted_row E s) [nat n..<nat (rows s)] \<and>
   rows s \<le> int (length out) \<and> \<not> (out \<noteq> [] \<and> bl_SoftWrap (last out))"
proof -
  let ?n = "if em_alt E (emu s) then 0 else length (logical_rows s)"
  let ?rows = "if em_alt E (emu s) then [] else logical_rows s"
  have eq: "map bl_Text (BufferLines E s) = map bl_Text (?rows @ map (painted_row E s) [?n..<nat (rows s)])"
  proof (cases "em_alt E (emu s)")
    case True
    then show ?thesis
      by (auto simp: BufferLines_def Let_def clear_last_wrap_text)
  qed (simp add: BufferLines_main)
  then have "length (BufferLines E s) = length (?rows @ map (painted_row E s) [?n..<nat (rows s)])"
    by (metis length_map)
  then have len: "rows s \<le> int (length (BufferLines E s))" by (auto split: if_splits)
  have "map runes_of (map bl_Text (take ?n (BufferLines E s))) = map runes_of (map bl_Text ?rows)"
    unfolding take_map [symmetric] eq by simp
  then have runes: "concat (map (\<lambda>l. runes_of (bl_Text l)) (take ?n (BufferLines E s)))
      = (if em_alt E (emu s) then [] else concat (map runes_of (logical_texts s)))"
    using logical_rows_runes [of s] by (simp add: comp_def)
  have drop_eq: "map bl_Text (drop ?n (BufferLines E s)) = map (bl_Text \<circ> painted_row E s) [?n..<nat (rows s)]"
    unfolding drop_map [symmetric] eq by simp
  have wrap: "BufferLines E s = [] \<or> \<not> bl_SoftWrap (last (BufferLines E s))"
    unfolding BufferLines_def Let_def
    by (metis clear_last_wrap_text(2,3) length_0_conv)
  have n: "nat (if em_alt E (emu s) then 0 else \<Sum>l\<leftarrow>logical_texts s. wrappedLineCount l (cols s)) = ?n"
    using logical_rows_length [of s] by simp linarith
  show ?thesis
    unfolding Let_def n using runes drop_eq len wrap by blast
qed

section \<open>A reply can outlive the reflow that suppresses it\<close>

text \<open>
  Replies are checked when the reply loop has read them, and the switch is restored when the replay
  has been written. A reply the replay produced that is still on its way then is sent to the child:
  shown for an emulator that answers the cursor-position query ESC [ 6 n.
\<close>

definition answering_emulator :: "(unit, unit) emulator" where
  "answering_emulator =
     \<lparr>em_new = \<lambda>_ _. (), em_scrollback_size = \<lambda>e _. e,
      em_write = \<lambda>e p. if p = [0x1B, 0x5B, 0x36, 0x6E]
        then Callback (TermReply [0x1B, 0x5B, 0x31, 0x3B, 0x31, 0x52]) (Finished e) else Finished e,
      em_resize = \<lambda>e _ _. e, em_clear_scrollback = \<lambda>e. e, em_alt = \<lambda>_. False,
      em_height = \<lambda>_. 24, em_width = \<lambda>_. 80, em_cell = \<lambda>_ _ _. None, em_render = \<lambda>_. [],
      em_cursor = \<lambda>_. (0, 0), em_block = ()\<rparr>"

lemma replayed_reply_sent:
  "let s = screen_run answering_emulator 80 24
        [OpReplyWriter, OpReplies True, OpWrite [0x1B, 0x5B, 0x36, 0x6E], OpReplyLoop] in
   reply_sent s = [[0x1B, 0x5B, 0x31, 0x3B, 0x31, 0x52]] \<and>
   reply_sent (replyLoop_step (screenResize answering_emulator s 100 24)) =
     [[0x1B, 0x5B, 0x31, 0x3B, 0x31, 0x52], [0x1B, 0x5B, 0x31, 0x3B, 0x31, 0x52]]"
proof -
  have cap: "rawHistory (captureLogicalLines t p) = rawHistory t" "emu (captureLogicalLines t p) = emu t"
    "replies (captureLogicalLines t p) = replies t" "reply_pipe (captureLogicalLines t p) = reply_pipe t"
    "reply_sent (captureLogicalLines t p) = reply_sent t" "reply_loop (captureLogicalLines t p) = reply_loop t"
    "reply_set (captureLogicalLines t p) = reply_set t"
    for t :: "(unit, unit) vtScreen" and p
    by (simp_all add: capture_more_frame)
  have fl: "rawHistory (flushPendingLogicalLines t) = rawHistory t" "emu (flushPendingLogicalLines t) = emu t"
    "replies (flushPendingLogicalLines t) = replies t" "reply_pipe (flushPendingLogicalLines t) = reply_pipe t"
    "reply_sent (flushPendingLogicalLines t) = reply_sent t"
    "reply_loop (flushPendingLogicalLines t) = reply_loop t"
    "reply_set (flushPendingLogicalLines t) = reply_set t"
    for t :: "(unit, unit) vtScreen"
    by (simp_all add: flush_more_frame)
  have scan: "reflow_scan [0x1B, 0x5B, 0x36, 0x6E] 32 0 4 0 4 = (0, True)"
    by (simp add: eval_nat_numeral)
  have tail: "reflowTail [0x1B, 0x5B, 0x36, 0x6E] 24 = [0x1B, 0x5B, 0x36, 0x6E]"
    by (simp add: reflowTail_def reflowPadRows_def reflowMaxTail_def scan)
  have ring: "ring_append ring_empty [0x1B, 0x5B, 0x36, 0x6E]
      = \<lparr>ring_buf = [0x1B, 0x5B, 0x36, 0x6E], ring_start = 0\<rparr>"
    by (simp add: ring_append_def ring_empty_def maxScrollback_def)
  have bytes_: "ring_bytes \<lparr>ring_buf = [0x1B, 0x5B, 0x36, 0x6E], ring_start = 0\<rparr> = [0x1B, 0x5B, 0x36, 0x6E]"
    by (simp add: ring_bytes_def copy_into_exact)
  have scorc: "translateSCORC [0x1B, 0x5B, 0x36, 0x6E] = [0x1B, 0x5B, 0x36, 0x6E]"
    by (simp add: translateSCORC_def containsESC_def)
  define s0 where "s0 = SetTerminalReplies (SetReplyWriter (NewVTScreen answering_emulator 80 24)) True"
  have s0: "rawHistory s0 = ring_empty" "replies s0" "reply_pipe s0 = []" "reply_sent s0 = []"
    "reply_loop s0" "reply_set s0"
    by (simp_all add: s0_def SetTerminalReplies_def SetReplyWriter_def NewVTScreen_def)
  define s1 where "s1 = replyLoop_step (screenWrite answering_emulator s0 [0x1B, 0x5B, 0x36, 0x6E])"
  have s1: "rawHistory s1 = ring_append ring_empty [0x1B, 0x5B, 0x36, 0x6E]" "replies s1"
    "reply_pipe s1 = []" "reply_sent s1 = [[0x1B, 0x5B, 0x31, 0x3B, 0x31, 0x52]]"
    "reply_loop s1" "reply_set s1"
    by (simp_all add: s1_def replyLoop_step_def screenWrite_def term_write_def cap s0 scorc
        term_callback_def answering_emulator_def Let_def del: captureLogicalLines_simps)
  have "s1 = screen_run answering_emulator 80 24
      [OpReplyWriter, OpReplies True, OpWrite [0x1B, 0x5B, 0x36, 0x6E], OpReplyLoop]"
    by (simp add: screen_run_def screen_do_def s0_def s1_def)
  then have "Dimensions s1 = (80, 24)"
    using screen_run_effect [of answering_emulator "NewVTScreen answering_emulator 80 24"
        "[OpReplyWriter, OpReplies True, OpWrite [0x1B, 0x5B, 0x36, 0x6E], OpReplyLoop]"]
    by (simp add: screen_run_def) (simp add: Dimensions_def NewVTScreen_def)
  then have "reply_sent (replyLoop_step (screenResize answering_emulator s1 100 24)) =
     [[0x1B, 0x5B, 0x31, 0x3B, 0x31, 0x52], [0x1B, 0x5B, 0x31, 0x3B, 0x31, 0x52]]"
    by (simp add: Dimensions_def screenResize_def reflowEmulatorLocked_def term_write_def fl s1 ring bytes_
        tail scorc answering_emulator_def term_callback_def replyLoop_step_def Let_def ring_len_def
        recalcPendingRows_def translateSCORC_def containsESC_def)
  with s1 show ?thesis
    by (simp add: Let_def screen_run_def screen_do_def s0_def s1_def)
qed

end
