(* ===== verification/SessionRuns.thy ===== *)
theory SessionRuns
  imports Session ScreenProps
begin

text \<open>
  The life of one session under every interleaving of its read loops (the current one and those
  earlier starts left behind) with starts, respawns, closes and resizes: a step relation whose
  steps are the critical sections of \<open>session.go\<close>, its invariant, and what follows for the
  messages the session sends.
\<close>

text \<open>
  A start follows the creation of the session or a respawn, both of which install a new screen:
  no read loop has been started on the current one. (\<open>overlapping_respawns\<close> below shows what
  happens when respawns of one session overlap.)
\<close>

inductive sess_step :: "('e, 'cs) emulator \<Rightarrow> nat \<Rightarrow> ('e, 'cs) world \<Rightarrow> ('e, 'cs) world \<Rightarrow> bool"
  for E :: "('e, 'cs) emulator" and i :: nat where
  start: "\<forall>r\<in>set (w_runs w). run_screen r \<noteq> screen (w_sessions w i) \<Longrightarrow>
    sess_step E i w (snd (Start i opened w))"
| respawn: "sess_step E i w (close_channel (rw (w_sessions w i)) (respawn_locked E i c r w))"
| close: "sess_step E i w (SessionClose i w)"
| read: "k < length (w_runs w) \<Longrightarrow> run_phase (w_runs w ! k) = Reading \<Longrightarrow>
    sess_step E i w (loop_read E k chunk w)"
| commit: "k < length (w_runs w) \<Longrightarrow> run_phase (w_runs w ! k) = Captured chunk clips \<Longrightarrow>
    sess_step E i w (loop_commit k w)"
| send: "k < length (w_runs w) \<Longrightarrow> sess_step E i w (loop_send k w)"
| error: "k < length (w_runs w) \<Longrightarrow> run_phase (w_runs w ! k) = Reading \<Longrightarrow>
    sess_step E i w (loop_error k w)"
| resize: "sess_step E i w (snd (SessionResize E i c r w))"
| renumber: "sess_step E i w (upd_session i (\<lambda>s. setIndex s n) w)"

definition new_world :: "('e, 'cs) emulator \<Rightarrow> bytes \<Rightarrow> bytes list \<Rightarrow> int \<Rightarrow> int \<Rightarrow> nat option \<Rightarrow>
    ('e, 'cs) world" where
  "new_world E value command c r ssh =
     (let (sid, w) = newSession E value 0 command c r ssh
        \<lparr>w_sessions = \<lambda>_. undefined, w_screens = \<lambda>_. undefined, w_nextSession = 0, w_nextScreen = 0,
         w_runs = [], w_output = [], w_exits = [], w_closed = []\<rparr>
      in upd_session sid (\<lambda>s. setCallbacks s True True) w)"

section \<open>Sequence numbers\<close>

fun seq_ok :: "64 word \<Rightarrow> outputMsg list \<Rightarrow> bool" where
  "seq_ok n [] = True"
| "seq_ok n (m # ms) = (om_Sequence m = n \<and> seq_ok (n + of_nat (length (om_Data m))) ms)"

definition data_of :: "outputMsg list \<Rightarrow> bytes" where
  "data_of ms = concat (map om_Data ms)"

lemma data_of_simps [simp]:
  "data_of [] = []" "data_of (m # ms) = om_Data m @ data_of ms" "data_of (ms @ ns) = data_of ms @ data_of ns"
  by (simp_all add: data_of_def)

lemma seq_ok_append:
  "seq_ok n (ms @ ns) \<longleftrightarrow> seq_ok n ms \<and> seq_ok (n + of_nat (length (data_of ms))) ns"
  by (induction ms arbitrary: n) (auto simp: add.assoc)

section \<open>The invariant\<close>

definition gen_out :: "64 word \<Rightarrow> outputMsg list \<Rightarrow> outputMsg list" where
  "gen_out g out = filter (\<lambda>m. om_Generation m = g) out"

definition gen_exits :: "64 word \<Rightarrow> exitMsg list \<Rightarrow> exitMsg list" where
  "gen_exits g ex = filter (\<lambda>m. em_Generation m = g) ex"

definition sending :: "run \<Rightarrow> outputMsg list" where
  "sending r = (case run_phase r of SendingOutput m \<Rightarrow> [m] | _ \<Rightarrow> [])"

definition sending_exit :: "run \<Rightarrow> exitMsg list" where
  "sending_exit r = (case run_phase r of SendingExit m \<Rightarrow> [m] | _ \<Rightarrow> [])"

definition uncommitted :: "run \<Rightarrow> bytes" where
  "uncommitted r = (case run_phase r of Captured chunk _ \<Rightarrow> chunk | _ \<Rightarrow> [])"

definition run_live :: "run \<Rightarrow> bool" where
  "run_live r = (case run_phase r of SendingExit _ \<Rightarrow> False | Returned \<Rightarrow> False | _ \<Rightarrow> True)"

definition run_ok :: "session \<Rightarrow> outputMsg list \<Rightarrow> exitMsg list \<Rightarrow> byteRing \<Rightarrow> run \<Rightarrow> bool" where
  "run_ok s out ex h r \<longleftrightarrow>
     (\<forall>m \<in> set (sending r). om_Generation m = run_generation r) \<and>
     (\<forall>m \<in> set (sending_exit r). em_Generation m = run_generation r) \<and>
     seq_ok 0 (gen_out (run_generation r) out @ sending r) \<and>
     length (gen_exits (run_generation r) ex @ sending_exit r) \<le> 1 \<and>
     (run_live r \<longrightarrow> gen_exits (run_generation r) ex = []) \<and>
     (run_token r = runToken s \<longrightarrow>
        run_screen r = screen s \<and>
        outputSequence s = of_nat (length (data_of (gen_out (run_generation r) out @ sending r))) \<and>
        ring_inv h \<and>
        ring_bytes h = last_n maxScrollback (data_of (gen_out (run_generation r) out @ sending r) @ uncommitted r))"

definition later_run :: "run \<Rightarrow> run \<Rightarrow> bool" where
  "later_run r r' \<longleftrightarrow> unat (run_token r) < unat (run_token r') \<and>
     unat (run_generation r) < unat (run_generation r') \<and> run_screen r \<noteq> run_screen r'"

definition runs_inv :: "nat \<Rightarrow> nat \<Rightarrow> ('e, 'cs) world \<Rightarrow> bool" where
  "runs_inv i n w \<longleftrightarrow>
     (let s = w_sessions w i in
      unat (runToken s) \<le> n \<and> unat (generation s) \<le> n \<and> SendOutput s \<and>
      screen s < w_nextScreen w \<and>
      sorted_wrt later_run (w_runs w) \<and>
      (\<forall>r \<in> set (w_runs w). run_session r = i \<and> run_screen r < w_nextScreen w \<and>
         unat (run_token r) \<le> unat (runToken s) \<and> unat (run_generation r) \<le> unat (generation s) \<and>
         run_ok s (w_output w) (w_exits w) (rawHistory (w_screens w (run_screen r))) r) \<and>
      (\<forall>m \<in> set (w_output w). unat (om_Generation m) \<le> unat (generation s)) \<and>
      (\<forall>m \<in> set (w_exits w). unat (em_Generation m) \<le> unat (generation s)) \<and>
      ((\<forall>r \<in> set (w_runs w). run_screen r \<noteq> screen s) \<longrightarrow>
         outputSequence s = 0 \<and> ring_inv (rawHistory (w_screens w (screen s))) \<and>
         ring_bytes (rawHistory (w_screens w (screen s))) = []))"

lemma new_world_inv: "runs_inv 0 0 (new_world E value command c r ssh)"
  by (simp add: runs_inv_def new_world_def newSession_def upd_session_def setCallbacks_def Let_def
      NewVTScreen_def ring_inv_empty ring.contents_empty)

section \<open>The invariant is kept\<close>

lemma later_run_differ:
  assumes "later_run r r' \<or> later_run r' r"
  shows "run_generation r \<noteq> run_generation r'" "run_token r \<noteq> run_token r'" "run_screen r \<noteq> run_screen r'"
  using assms by (auto simp: later_run_def)

lemma runs_differ:
  assumes "sorted_wrt later_run rs" and "j < length rs" and "k < length rs" and "j \<noteq> k"
  shows "later_run (rs ! j) (rs ! k) \<or> later_run (rs ! k) (rs ! j)"
  using assms sorted_wrt_nth_less [of later_run rs] by (cases j k rule: linorder_cases) auto

lemma runs_inv_mono: "runs_inv i n w \<Longrightarrow> n \<le> m \<Longrightarrow> runs_inv i m w"
  by (auto simp: runs_inv_def Let_def)

definition same_run :: "run \<Rightarrow> run \<Rightarrow> bool" where
  "same_run r r' \<longleftrightarrow> run_session r = run_session r' \<and> run_screen r = run_screen r' \<and>
     run_generation r = run_generation r' \<and> run_token r = run_token r'"

definition same_session :: "session \<Rightarrow> session \<Rightarrow> bool" where
  "same_session s s' \<longleftrightarrow> runToken s = runToken s' \<and> generation s = generation s' \<and>
     screen s = screen s' \<and> SendOutput s = SendOutput s'"

lemma gen_out_other [simp]:
  "list_all (\<lambda>m. om_Generation m = g) outs \<Longrightarrow> g' \<noteq> g \<Longrightarrow> gen_out g' (out @ outs) = gen_out g' out"
  by (auto simp: gen_out_def list_all_iff intro: filter_False)

lemma gen_exits_other [simp]:
  "list_all (\<lambda>m. em_Generation m = g) outs \<Longrightarrow> g' \<noteq> g \<Longrightarrow> gen_exits g' (ex @ outs) = gen_exits g' ex"
  by (auto simp: gen_exits_def list_all_iff intro: filter_False)

lemma same_run_later:
  "same_run r r' \<Longrightarrow> later_run r x = later_run r' x" "same_run r r' \<Longrightarrow> later_run x r = later_run x r'"
  by (simp_all add: later_run_def same_run_def)

lemma sorted_update:
  assumes "sorted_wrt later_run rs" and "k < length rs" and "same_run (rs ! k) r'"
  shows "sorted_wrt later_run (rs[k := r'])"
  unfolding sorted_wrt_iff_nth_less
proof (intro allI impI)
  fix a b assume "a < b" and "b < length (rs[k := r'])"
  moreover then have "later_run (rs ! a) (rs ! b)"
    using assms(1) by (simp add: sorted_wrt_nth_less)
  ultimately show "later_run (rs[k := r'] ! a) (rs[k := r'] ! b)"
    using same_run_later [OF assms(3)] by (cases "a = k"; cases "b = k") (auto simp: nth_list_update)
qed

lemma run_ok_cong:
  assumes "run_ok s out ex h r"
    and "gen_out (run_generation r) out' = gen_out (run_generation r) out"
    and "gen_exits (run_generation r) ex' = gen_exits (run_generation r) ex"
    and "same_session s s'" and "run_token r = runToken s \<Longrightarrow> outputSequence s' = outputSequence s"
  shows "run_ok s' out' ex' h r"
  using assms by (cases "run_token r = runToken s") (simp_all add: run_ok_def same_session_def)

text \<open>One read loop moves, with the session and the screen it is tied to.\<close>

lemma runs_inv_update:
  assumes inv: "runs_inv i n w" and k: "k < length (w_runs w)"
    and runs: "w_runs w' = (w_runs w)[k := r']" "same_run (w_runs w ! k) r'"
    and sess: "same_session (w_sessions w i) (w_sessions w' i)"
      "run_token r' = runToken (w_sessions w i) \<or> outputSequence (w_sessions w' i) = outputSequence (w_sessions w i)"
    and scr: "\<And>x. x \<noteq> run_screen r' \<Longrightarrow> rawHistory (w_screens w' x) = rawHistory (w_screens w x)"
      "w_nextScreen w' = w_nextScreen w"
    and out: "w_output w' = w_output w @ outs" "list_all (\<lambda>m. om_Generation m = run_generation r') outs"
    and ex: "w_exits w' = w_exits w @ exs" "list_all (\<lambda>m. em_Generation m = run_generation r') exs"
    and ok: "run_ok (w_sessions w' i) (w_output w') (w_exits w')
      (rawHistory (w_screens w' (run_screen r'))) r'"
  shows "runs_inv i n w'"
proof -
  let ?s = "w_sessions w i" and ?s' = "w_sessions w' i" and ?r = "w_runs w ! k"
  have rk: "?r \<in> set (w_runs w)" using k by simp
  have sorted: "sorted_wrt later_run (w_runs w)" and bounds: "unat (runToken ?s) \<le> n"
    "unat (generation ?s) \<le> n" "SendOutput ?s" "screen ?s < w_nextScreen w"
    and all: "\<And>r. r \<in> set (w_runs w) \<Longrightarrow> run_session r = i \<and> run_screen r < w_nextScreen w \<and>
         unat (run_token r) \<le> unat (runToken ?s) \<and> unat (run_generation r) \<le> unat (generation ?s) \<and>
         run_ok ?s (w_output w) (w_exits w) (rawHistory (w_screens w (run_screen r))) r"
    and gens: "\<forall>m \<in> set (w_output w). unat (om_Generation m) \<le> unat (generation ?s)"
      "\<forall>m \<in> set (w_exits w). unat (em_Generation m) \<le> unat (generation ?s)"
    and free: "(\<forall>r \<in> set (w_runs w). run_screen r \<noteq> screen ?s) \<longrightarrow>
         outputSequence ?s = 0 \<and> ring_inv (rawHistory (w_screens w (screen ?s))) \<and>
         ring_bytes (rawHistory (w_screens w (screen ?s))) = []"
    using inv by (simp_all add: runs_inv_def Let_def)
  have new: "run_session r' = i \<and> run_screen r' < w_nextScreen w \<and>
      unat (run_token r') \<le> unat (runToken ?s) \<and> unat (run_generation r') \<le> unat (generation ?s)"
    using all [OF rk] runs(2) by (simp add: same_run_def)
  have other: "run_ok ?s' (w_output w') (w_exits w') (rawHistory (w_screens w' (run_screen r))) r"
    if j: "j < length (w_runs w)" "j \<noteq> k" "r = w_runs w ! j" for j r
  proof -
    have d: "run_generation r \<noteq> run_generation r'" "run_token r \<noteq> run_token r'" "run_screen r \<noteq> run_screen r'"
      using later_run_differ [OF runs_differ [OF sorted j(1) k j(2)]] runs(2) j(3)
      by (simp_all add: same_run_def)
    have "r \<in> set (w_runs w)" using j by simp
    then have r: "run_ok ?s (w_output w) (w_exits w) (rawHistory (w_screens w (run_screen r))) r"
      using all by blast
    moreover have "gen_out (run_generation r) (w_output w') = gen_out (run_generation r) (w_output w)"
      "gen_exits (run_generation r) (w_exits w') = gen_exits (run_generation r) (w_exits w)"
      using out ex d by simp_all
    moreover have "rawHistory (w_screens w' (run_screen r)) = rawHistory (w_screens w (run_screen r))"
      using scr(1) d(3) by simp
    moreover have "run_token r = runToken ?s \<Longrightarrow> outputSequence ?s' = outputSequence ?s"
      using sess(2) d(2) by auto
    ultimately show ?thesis
      using run_ok_cong [OF r, of "w_output w'" "w_exits w'" ?s'] sess(1) by simp
  qed
  have every: "run_session r = i \<and> run_screen r < w_nextScreen w' \<and>
      unat (run_token r) \<le> unat (runToken ?s') \<and> unat (run_generation r) \<le> unat (generation ?s') \<and>
      run_ok ?s' (w_output w') (w_exits w') (rawHistory (w_screens w' (run_screen r))) r"
    if "r \<in> set (w_runs w')" for r
  proof -
    from that have "r \<in> set ((w_runs w)[k := r'])" unfolding runs(1) .
    then obtain j where "j < length ((w_runs w)[k := r'])" "(w_runs w)[k := r'] ! j = r"
      unfolding in_set_conv_nth by blast
    then have j: "j < length (w_runs w)" "r = (w_runs w)[k := r'] ! j" by simp_all
    show ?thesis
    proof (cases "j = k")
      case True
      with j k have "r = r'" by simp
      then show ?thesis using new ok sess(1) scr(2) by (simp add: same_session_def)
    next
      case False
      with j have r: "r = w_runs w ! j" by simp
      then have "r \<in> set (w_runs w)" using j by simp
      then show ?thesis
        using all [of r] other [OF j(1) False r] sess(1) scr(2) by (simp add: same_session_def)
    qed
  qed
  have free': "outputSequence ?s' = 0 \<and> ring_inv (rawHistory (w_screens w' (screen ?s'))) \<and>
      ring_bytes (rawHistory (w_screens w' (screen ?s'))) = []"
    if none: "\<forall>r \<in> set (w_runs w'). run_screen r \<noteq> screen ?s'"
  proof -
    have "run_screen r \<noteq> screen ?s" if "r \<in> set (w_runs w)" for r
    proof -
      obtain j where j: "j < length (w_runs w)" "r = w_runs w ! j"
        using \<open>r \<in> set (w_runs w)\<close> by (auto simp: in_set_conv_nth)
      then have "(w_runs w)[k := r'] ! j \<in> set (w_runs w')" unfolding runs(1) by simp
      then have "run_screen ((w_runs w)[k := r'] ! j) \<noteq> screen ?s"
        using none sess(1) by (simp add: same_session_def)
      then show ?thesis using j runs(2) k by (cases "j = k") (simp_all add: same_run_def)
    qed
    then have f: "outputSequence ?s = 0" "ring_inv (rawHistory (w_screens w (screen ?s)))"
      "ring_bytes (rawHistory (w_screens w (screen ?s))) = []" using free by blast+
    have r': "r' \<in> set (w_runs w')" using k unfolding runs(1) by (simp add: set_update_memI)
    then have "screen ?s \<noteq> run_screen r'" using none sess(1) by (auto simp: same_session_def)
    moreover have "run_token r' \<noteq> runToken ?s"
      using ok none r' sess(1) by (auto simp: run_ok_def same_session_def)
    ultimately show ?thesis
      using f sess scr(1) by (simp add: same_session_def)
  qed
  have "sorted_wrt later_run (w_runs w')"
    unfolding runs(1) using sorted k runs(2) by (rule sorted_update)
  moreover have "\<forall>m \<in> set (w_output w'). unat (om_Generation m) \<le> unat (generation ?s')"
    "\<forall>m \<in> set (w_exits w'). unat (em_Generation m) \<le> unat (generation ?s')"
    using gens new out ex sess(1) by (auto simp: list_all_iff same_session_def)
  ultimately show ?thesis
    using bounds every free' sess(1) scr(2)
    unfolding runs_inv_def Let_def by (simp add: same_session_def)
qed

lemma runs_inv_run:
  assumes "runs_inv i n w" and "k < length (w_runs w)"
  shows "run_session (w_runs w ! k) = i"
    "run_ok (w_sessions w i) (w_output w) (w_exits w) (rawHistory (w_screens w (run_screen (w_runs w ! k)))) (w_runs w ! k)"
    "SendOutput (w_sessions w i)"
  using assms by (simp_all add: runs_inv_def Let_def)

lemma screenWrite_raw [simp]: "rawHistory (screenWrite E v p) = ring_append (rawHistory v) p"
  by (rule screenWrite_effect)

lemma same_run_phase [simp]:
  "same_run r (r\<lparr>run_phase := p\<rparr>)" "same_run r (r\<lparr>run_clipboard := d, run_phase := p\<rparr>)"
  by (simp_all add: same_run_def)

lemma same_session_refl [simp]: "same_session s s"
  by (simp add: same_session_def)

lemma last_n_chunk: "last_n m (last_n m (xs :: 'a list) @ ys) = last_n m (xs @ ys)"
  by (rule last_n_last_n_append)

lemma run_ok_read:
  assumes "run_ok s out ex h r" and "run_phase r = Reading"
  shows "run_ok s out ex (ring_append h chunk)
    (r\<lparr>run_clipboard := d, run_phase := Captured chunk clips\<rparr>)"
  using assms
  by (auto simp: run_ok_def sending_def sending_exit_def uncommitted_def run_live_def
      ring_append_inv ring_append_bytes last_n_last_n_append)

lemma inv_loop_read:
  assumes inv: "runs_inv i n w" and k: "k < length (w_runs w)" and ph: "run_phase (w_runs w ! k) = Reading"
  shows "runs_inv i n (loop_read E k chunk w)"
proof -
  obtain d clips where d: "osc_write (run_clipboard (w_runs w ! k)) chunk = (d, clips)" by force
  show ?thesis
    using k runs_inv_run(2) [OF inv k] ph
    by (intro runs_inv_update [OF inv k, where outs = "[]" and exs = "[]"
          and r' = "(w_runs w ! k)\<lparr>run_clipboard := d, run_phase := Captured chunk clips\<rparr>"])
      (simp_all add: loop_read_def d upd_run_def upd_screen_def Let_def run_ok_read)
qed

lemma run_ok_stop:
  assumes "run_ok s out ex h r" and "run_token r \<noteq> runToken s" and "run_phase r = Reading \<or> (\<exists>c cl. run_phase r = Captured c cl)"
  shows "run_ok s out ex h (r\<lparr>run_phase := Returned\<rparr>)"
  using assms by (auto simp: run_ok_def sending_def sending_exit_def run_live_def)

lemma run_ok_commit:
  assumes "run_ok s out ex h r" and "run_token r = runToken s" and "run_phase r = Captured chunk clips"
    and "om_Generation m = run_generation r" and "om_Sequence m = outputSequence s" and "om_Data m = chunk"
  shows "run_ok (s\<lparr>outputSequence := outputSequence s + of_nat (length chunk)\<rparr>) out ex h
    (r\<lparr>run_phase := SendingOutput m\<rparr>)"
  using assms
  by (auto simp: run_ok_def sending_def sending_exit_def uncommitted_def run_live_def seq_ok_append)

lemma inv_loop_commit:
  assumes inv: "runs_inv i n w" and k: "k < length (w_runs w)"
    and ph: "run_phase (w_runs w ! k) = Captured chunk clips"
  shows "runs_inv i n (loop_commit k w)"
proof (cases "runToken (w_sessions w i) = run_token (w_runs w ! k)")
  case True
  let ?s = "w_sessions w i" and ?r = "w_runs w ! k"
  let ?m = "\<lparr>om_Index = index ?s, om_SessionID = runtimeID ?s, om_Generation = run_generation ?r,
      om_Sequence = outputSequence ?s, om_Data = chunk, om_Clipboard = clips\<rparr>"
  show ?thesis
    using k runs_inv_run [OF inv k] ph True
    by (intro runs_inv_update [OF inv k, where outs = "[]" and exs = "[]"
          and r' = "?r\<lparr>run_phase := SendingOutput ?m\<rparr>"])
      (simp_all add: loop_commit_def upd_run_def upd_session_def Let_def run_ok_commit same_session_def)
next
  case False
  then show ?thesis
    using k runs_inv_run [OF inv k] ph
    by (intro runs_inv_update [OF inv k, where outs = "[]" and exs = "[]"
          and r' = "(w_runs w ! k)\<lparr>run_phase := Returned\<rparr>"])
      (simp_all add: loop_commit_def upd_run_def Let_def run_ok_stop)
qed

lemma run_ok_sent:
  assumes "run_ok s out ex h r" and "run_phase r = SendingOutput m"
  shows "run_ok s (out @ [m]) ex h (r\<lparr>run_phase := Reading\<rparr>)"
  using assms
  by (auto simp: run_ok_def sending_def sending_exit_def uncommitted_def run_live_def gen_out_def)

lemma run_ok_sent_exit:
  assumes "run_ok s out ex h r" and "run_phase r = SendingExit m"
  shows "run_ok s out (ex @ [m]) h (r\<lparr>run_phase := Returned\<rparr>)"
  using assms
  by (auto simp: run_ok_def sending_def sending_exit_def uncommitted_def run_live_def gen_exits_def)

lemma inv_loop_send:
  assumes inv: "runs_inv i n w" and k: "k < length (w_runs w)"
  shows "runs_inv i n (loop_send k w)"
proof (cases "run_phase (w_runs w ! k)")
  case (SendingOutput m)
  then have "om_Generation m = run_generation (w_runs w ! k)"
    using runs_inv_run(2) [OF inv k] by (simp add: run_ok_def sending_def)
  then show ?thesis
    using k runs_inv_run [OF inv k] SendingOutput
    by (intro runs_inv_update [OF inv k, where outs = "[m]" and exs = "[]"
          and r' = "(w_runs w ! k)\<lparr>run_phase := Reading\<rparr>"])
      (simp_all add: loop_send_def upd_run_def Let_def run_ok_sent)
next
  case (SendingExit m)
  then have "em_Generation m = run_generation (w_runs w ! k)"
    using runs_inv_run(2) [OF inv k] by (simp add: run_ok_def sending_exit_def)
  then show ?thesis
    using k runs_inv_run [OF inv k] SendingExit
    by (intro runs_inv_update [OF inv k, where outs = "[]" and exs = "[m]"
          and r' = "(w_runs w ! k)\<lparr>run_phase := Returned\<rparr>"])
      (simp_all add: loop_send_def upd_run_def Let_def run_ok_sent_exit)
qed (use inv in \<open>simp_all add: loop_send_def\<close>)

lemma run_ok_error:
  assumes "run_ok s out ex h r" and "run_phase r = Reading"
  shows "run_ok (s\<lparr>exited := True, processID := 0\<rparr>) out ex h (r\<lparr>run_phase := Returned\<rparr>)"
    "em_Generation m = run_generation r \<Longrightarrow>
     run_ok (s\<lparr>exited := True, processID := 0\<rparr>) out ex h (r\<lparr>run_phase := SendingExit m\<rparr>)"
  using assms
  by (auto simp: run_ok_def sending_def sending_exit_def uncommitted_def run_live_def)

lemma inv_loop_error:
  assumes inv: "runs_inv i n w" and k: "k < length (w_runs w)" and ph: "run_phase (w_runs w ! k) = Reading"
  shows "runs_inv i n (loop_error k w)"
proof (cases "runToken (w_sessions w i) = run_token (w_runs w ! k)")
  case True
  let ?s = "w_sessions w i" and ?r = "w_runs w ! k"
  let ?m = "\<lparr>em_Index = index ?s, em_SessionID = runtimeID ?s, em_Generation = run_generation ?r\<rparr>"
  show ?thesis
    using k runs_inv_run [OF inv k] ph True
    by (intro runs_inv_update [OF inv k, where outs = "[]" and exs = "[]"
          and r' = "?r\<lparr>run_phase := (if \<not> exited ?s \<and> SendExit ?s then SendingExit ?m else Returned)\<rparr>"])
      (simp_all add: loop_error_def upd_run_def upd_session_def Let_def run_ok_error same_session_def)
next
  case False
  then show ?thesis
    using k runs_inv_run [OF inv k] ph
    by (intro runs_inv_update [OF inv k, where outs = "[]" and exs = "[]"
          and r' = "(w_runs w ! k)\<lparr>run_phase := Returned\<rparr>"])
      (simp_all add: loop_error_def upd_run_def Let_def run_ok_stop)
qed

text \<open>A new token leaves every run behind.\<close>

lemma run_ok_stale:
  assumes "run_ok s out ex h r" and "run_token r \<noteq> runToken s'"
  shows "run_ok s' out ex h' r"
  using assms by (simp add: run_ok_def)

lemma unat_suc: "unat (t :: 64 word) \<le> n \<Longrightarrow> Suc n < 2 ^ 64 \<Longrightarrow> unat (t + 1) = Suc (unat t)"
  by (simp add: unat_word_ariths)

lemma inv_bump:
  assumes inv: "runs_inv i n w" and n: "Suc n < 2 ^ 64"
    and w': "w_runs w' = w_runs w" "w_output w' = w_output w" "w_exits w' = w_exits w"
      "w_nextScreen w \<le> w_nextScreen w'" "screen (w_sessions w' i) < w_nextScreen w'"
    and s': "runToken (w_sessions w' i) = runToken (w_sessions w i) + 1"
      "generation (w_sessions w' i) = generation (w_sessions w i)" "SendOutput (w_sessions w' i)"
    and free: "(\<forall>r \<in> set (w_runs w). run_screen r \<noteq> screen (w_sessions w' i)) \<Longrightarrow>
         outputSequence (w_sessions w' i) = 0 \<and> ring_inv (rawHistory (w_screens w' (screen (w_sessions w' i)))) \<and>
         ring_bytes (rawHistory (w_screens w' (screen (w_sessions w' i)))) = []"
  shows "runs_inv i (Suc n) w'"
proof -
  have tok: "unat (runToken (w_sessions w' i)) = Suc (unat (runToken (w_sessions w i)))"
    using inv n unfolding s'(1) by (intro unat_suc) (simp_all add: runs_inv_def Let_def)
  have "run_ok (w_sessions w' i) (w_output w') (w_exits w') (rawHistory (w_screens w' (run_screen r))) r"
    if "r \<in> set (w_runs w)" for r
  proof -
    have "unat (run_token r) \<le> unat (runToken (w_sessions w i))"
      and ok: "run_ok (w_sessions w i) (w_output w) (w_exits w) (rawHistory (w_screens w (run_screen r))) r"
      using inv that by (simp_all add: runs_inv_def Let_def)
    with tok have "run_token r \<noteq> runToken (w_sessions w' i)" by auto
    with ok show ?thesis unfolding w' by (rule run_ok_stale)
  qed
  then show ?thesis
    using inv tok w' s' free by (auto simp: runs_inv_def Let_def)
qed

lemma inv_close:
  assumes inv: "runs_inv i n w" and n: "Suc n < 2 ^ 64"
  shows "runs_inv i (Suc n) (SessionClose i w)"
  using inv
  by (intro inv_bump [OF inv n])
    (simp_all add: SessionClose_def upd_session_def Let_def runs_inv_def)

lemma inv_respawn:
  assumes inv: "runs_inv i n w" and n: "Suc n < 2 ^ 64"
  shows "runs_inv i (Suc n) (close_channel (rw (w_sessions w i)) (respawn_locked E i c r w))"
  using inv
  by (intro inv_bump [OF inv n])
    (simp_all add: respawn_locked_def upd_session_def Let_def runs_inv_def NewVTScreen_def
      ring_inv_empty ring.contents_empty)

lemma inv_start_locked:
  assumes inv: "runs_inv i n w" and n: "Suc n < 2 ^ 64"
    and fresh: "\<forall>r\<in>set (w_runs w). run_screen r \<noteq> screen (w_sessions w i)"
  shows "runs_inv i (Suc n) (start_locked i chan pid w)"
proof -
  let ?s = "w_sessions w i" and ?w = "start_locked i chan pid w"
  let ?s' = "w_sessions ?w i"
  let ?r = "\<lparr>run_session = i, run_rw = chan, run_screen = screen ?s, run_generation = generation ?s + 1,
     run_token = runToken ?s + 1, run_clipboard = osc_init, run_phase = Reading\<rparr>"
  have runs: "w_runs ?w = w_runs w @ [?r]" and out: "w_output ?w = w_output w" "w_exits ?w = w_exits w"
    and nxt: "w_nextScreen ?w = w_nextScreen w"
    and s': "runToken ?s' = runToken ?s + 1" "generation ?s' = generation ?s + 1" "screen ?s' = screen ?s"
      "SendOutput ?s' = SendOutput ?s" "outputSequence ?s' = outputSequence ?s"
    and raw: "rawHistory (w_screens ?w x) = rawHistory (w_screens w x)" for x
    by (simp_all add: start_locked_def upd_session_def upd_screen_def Let_def SetTerminalReplies_def
        SetReplyWriter_def)
  have tok: "unat (runToken ?s + 1) = Suc (unat (runToken ?s))" "unat (generation ?s + 1) = Suc (unat (generation ?s))"
    using inv n by (auto intro!: unat_suc [of _ n] simp: runs_inv_def Let_def)
  have free: "outputSequence ?s = 0" "ring_inv (rawHistory (w_screens w (screen ?s)))"
    "ring_bytes (rawHistory (w_screens w (screen ?s))) = []"
    using inv fresh by (simp_all add: runs_inv_def Let_def)
  have old: "run_token r \<noteq> runToken ?s + 1 \<and> later_run r ?r \<and>
      run_ok ?s' (w_output w) (w_exits w) (rawHistory (w_screens w (run_screen r))) r"
    if "r \<in> set (w_runs w)" for r
  proof -
    have r: "unat (run_token r) \<le> unat (runToken ?s)" "unat (run_generation r) \<le> unat (generation ?s)"
      and ok: "run_ok ?s (w_output w) (w_exits w) (rawHistory (w_screens w (run_screen r))) r"
      using inv that by (simp_all add: runs_inv_def Let_def)
    then have ne: "run_token r \<noteq> runToken ?s + 1" using tok by auto
    moreover have "later_run r ?r" using r tok fresh that by (simp add: later_run_def)
    ultimately show ?thesis using run_ok_stale [OF ok, of ?s'] s'(1) by simp
  qed
  have gens: "m \<in> set (w_output w) \<Longrightarrow> om_Generation m \<noteq> generation ?s + 1"
    "m' \<in> set (w_exits w) \<Longrightarrow> em_Generation m' \<noteq> generation ?s + 1" for m m'
    using inv tok by (auto simp: runs_inv_def Let_def)
  then have none: "gen_out (generation ?s + 1) (w_output w) = []" "gen_exits (generation ?s + 1) (w_exits w) = []"
    by (auto simp: gen_out_def gen_exits_def filter_empty_conv)
  have new: "run_ok ?s' (w_output w) (w_exits w) (rawHistory (w_screens w (screen ?s))) ?r"
    using none free s' by (simp add: run_ok_def sending_def sending_exit_def uncommitted_def)
  have "sorted_wrt later_run (w_runs w @ [?r])"
    using inv old by (simp add: sorted_wrt_append runs_inv_def Let_def)
  moreover have "\<forall>m \<in> set (w_output w). unat (om_Generation m) \<le> unat (generation ?s + 1)"
    "\<forall>m \<in> set (w_exits w). unat (em_Generation m) \<le> unat (generation ?s + 1)"
    using inv tok by (auto simp: runs_inv_def Let_def)
  ultimately show ?thesis
    using inv tok old new
    unfolding runs_inv_def Let_def runs out nxt raw s' by (auto simp: le_Suc_eq)
qed

lemma screenResize_raw: "rawHistory (screenResize E v c r) = rawHistory v"
  by (rule screenResize_effect)

lemma inv_quiet:
  assumes inv: "runs_inv i n w"
    and w': "w_runs w' = w_runs w" "w_output w' = w_output w" "w_exits w' = w_exits w"
      "w_nextScreen w' = w_nextScreen w"
      "\<And>x. rawHistory (w_screens w' x) = rawHistory (w_screens w x)"
    and s': "same_session (w_sessions w i) (w_sessions w' i)"
      "outputSequence (w_sessions w' i) = outputSequence (w_sessions w i)"
  shows "runs_inv i n w'"
proof -
  have "run_ok (w_sessions w' i) (w_output w) (w_exits w) (rawHistory (w_screens w (run_screen r))) r"
    if "r \<in> set (w_runs w)" for r
    using inv that s'
    by (intro run_ok_cong [where s = "w_sessions w i" and s' = "w_sessions w' i"])
      (simp_all add: runs_inv_def Let_def)
  then show ?thesis
    using inv s' unfolding runs_inv_def Let_def w' by (auto simp: same_session_def)
qed

lemma sess_step_inv:
  assumes "sess_step E i w w'" and "runs_inv i n w" and "Suc n < 2 ^ 64"
  shows "runs_inv i (Suc n) w'"
  using assms
proof cases
  case (start opened)
  then show ?thesis
    using inv_start_locked [OF assms(2,3)] runs_inv_mono [OF assms(2)]
    by (auto simp: Start_def split: option.split)
next
  case respawn
  then show ?thesis using inv_respawn [OF assms(2,3)] by simp
next
  case close
  then show ?thesis using inv_close [OF assms(2,3)] by simp
next
  case (read k chunk)
  have "runs_inv i n w'" unfolding read(1) by (rule inv_loop_read [OF assms(2) read(2,3)])
  then show ?thesis by (simp add: runs_inv_mono)
next
  case (commit k chunk clips)
  have "runs_inv i n w'" unfolding commit(1) by (rule inv_loop_commit [OF assms(2) commit(2,3)])
  then show ?thesis by (simp add: runs_inv_mono)
next
  case (send k)
  have "runs_inv i n w'" unfolding send(1) by (rule inv_loop_send [OF assms(2) send(2)])
  then show ?thesis by (simp add: runs_inv_mono)
next
  case (error k)
  have "runs_inv i n w'" unfolding error(1) by (rule inv_loop_error [OF assms(2) error(2,3)])
  then show ?thesis by (simp add: runs_inv_mono)
next
  case (resize c r)
  have "runs_inv i n w'"
    by (rule inv_quiet [OF assms(2)])
      (simp_all add: resize SessionResize_def upd_screen_def Let_def screenResize_raw)
  then show ?thesis by (simp add: runs_inv_mono)
next
  case (renumber m)
  have "runs_inv i n w'"
    by (rule inv_quiet [OF assms(2)])
      (simp_all add: renumber upd_session_def setIndex_def same_session_def)
  then show ?thesis by (simp add: runs_inv_mono)
qed

lemma sess_run_inv:
  "(sess_step E 0 ^^ n) (new_world E value command c r ssh) w \<Longrightarrow> n < 2 ^ 64 \<Longrightarrow> runs_inv 0 n w"
proof (induction n arbitrary: w)
  case 0
  then have "w = new_world E value command c r ssh" by simp
  then show ?case by (simp add: new_world_inv)
next
  case (Suc n)
  then show ?case by (auto intro: sess_step_inv)
qed

section \<open>The properties\<close>

lemma run_ok_messages:
  assumes "run_ok s out ex h r"
  shows "seq_ok 0 (gen_out (run_generation r) out) \<and> length (gen_exits (run_generation r) ex) \<le> 1"
proof -
  have "length (gen_exits (run_generation r) ex @ sending_exit r) \<le> 1" using assms by (simp add: run_ok_def)
  then have "length (gen_exits (run_generation r) ex) \<le> 1"
    by (metis length_append add_leD1)
  then show ?thesis using assms by (simp add: run_ok_def seq_ok_append)
qed


definition demo_start :: "(unit, unit) world" where
  "demo_start = snd (Start 0 (Some (7, 42)) (new_world answering_emulator [] [] 80 24 None))"

definition demo_respawned :: "(unit, unit) world" where
  "demo_respawned = close_channel (rw (w_sessions demo_start 0)) (respawn_locked answering_emulator 0 80 24 demo_start)"

lemma demo_run:
  "(sess_step answering_emulator 0 ^^ 1) (new_world answering_emulator [] [] 80 24 None) demo_start"
  "(sess_step answering_emulator 0 ^^ 2) (new_world answering_emulator [] [] 80 24 None) demo_respawned"
proof -
  have one: "sess_step answering_emulator 0 (new_world answering_emulator [] [] 80 24 None) demo_start"
    unfolding demo_start_def
    by (rule sess_step.start) (simp add: new_world_def newSession_def upd_session_def Let_def)
  then show "(sess_step answering_emulator 0 ^^ 1) (new_world answering_emulator [] [] 80 24 None) demo_start"
    unfolding relpowp_1 .
  have "sess_step answering_emulator 0 demo_start demo_respawned"
    unfolding demo_respawned_def by (rule sess_step.respawn)
  with one show "(sess_step answering_emulator 0 ^^ 2) (new_world answering_emulator [] [] 80 24 None) demo_respawned"
    by (auto simp: numeral_2_eq_2 OO_def)
qed





lemma demo_respawned_run:
  "length (w_runs demo_respawned) = 1" "run_token (w_runs demo_respawned ! 0) = 1"
  "runToken (w_sessions demo_respawned 0) = 2" "run_phase (w_runs demo_respawned ! 0) = Reading"
  by (simp_all add: demo_respawned_def demo_start_def respawn_locked_def Start_def start_locked_def
      new_world_def newSession_def upd_session_def upd_screen_def setCallbacks_def Let_def)


text \<open>
  When two respawns of one session overlap (both take the lock before either starts its process),
  the discipline above fails: the second start finds the first one's screen and output sequence, so
  two processes write to one screen, the numbers of the second run go on from those of the first,
  and the channel of the first is forgotten without being closed.
\<close>

lemma overlapping_respawns:
  "let n = length (w_runs w);
       w1 = start_locked i ch1 pid1 w;
       w2 = loop_commit n (loop_read E n chunk w1);
       w3 = start_locked i ch2 pid2 w2 in
   run_screen (w_runs w3 ! n) = run_screen (w_runs w3 ! Suc n) \<and>
   rw (w_sessions w3 i) = Some ch2 \<and> w_closed w3 = w_closed w \<and>
   outputSequence (w_sessions w3 i) = outputSequence (w_sessions w i) + of_nat (length chunk)"
proof -
  define w1 where "w1 = start_locked i ch1 pid1 w"
  define n where "n = length (w_runs w)"
  have w1: "w_runs w1 ! n = \<lparr>run_session = i, run_rw = ch1, run_screen = screen (w_sessions w i),
      run_generation = generation (w_sessions w i) + 1, run_token = runToken (w_sessions w i) + 1,
      run_clipboard = osc_init, run_phase = Reading\<rparr>" "length (w_runs w1) = Suc n" "w_closed w1 = w_closed w"
    "screen (w_sessions w1 i) = screen (w_sessions w i)" "runToken (w_sessions w1 i) = runToken (w_sessions w i) + 1"
    "outputSequence (w_sessions w1 i) = outputSequence (w_sessions w i)"
    by (simp_all add: w1_def n_def start_locked_def upd_session_def upd_screen_def Let_def)
  define w2 where "w2 = loop_commit n (loop_read E n chunk w1)"
  obtain d clips where "osc_write osc_init chunk = (d, clips)" by force
  then have w2: "run_screen (w_runs w2 ! n) = screen (w_sessions w i)" "length (w_runs w2) = Suc n"
    "w_closed w2 = w_closed w" "screen (w_sessions w2 i) = screen (w_sessions w i)"
    "outputSequence (w_sessions w2 i) = outputSequence (w_sessions w i) + of_nat (length chunk)"
    by (simp_all add: w2_def loop_commit_def loop_read_def upd_run_def upd_screen_def upd_session_def Let_def w1)
  show ?thesis
    unfolding Let_def w1_def [symmetric] n_def [symmetric] w2_def [symmetric]
    using w2 by (simp add: start_locked_def upd_session_def upd_screen_def Let_def nth_append)
qed

end
