(* ===== verification/Manager.thy ===== *)
theory Manager
  imports Session
begin

text \<open>
  The session manager (\<open>src/pkg/session/manager.go\<close>): an ordered list of sessions (references into
  the heap of the world), the index of the focused one and the terminal size. An operation that
  starts a session does so between two critical sections; the sections are definitions of their
  own (\<open>..._begin\<close>, \<open>..._failed\<close>) so that what happens in between can be placed there.
\<close>

record ('e, 'cs) sessionManager = "('e, 'cs) world" +
  sessions :: "nat list"
  focused :: int
  mgr_cols :: int
  mgr_rows :: int
  mgr_SendOutput :: bool
  mgr_SendExit :: bool
  mgr_sshClient :: "nat option"
  mgr_agentEndpoint :: bytes

section \<open>Helpers\<close>

text \<open>\<open>for i, s := range m.sessions { s.setIndex(i) }\<close>\<close>

fun reindex_from :: "int \<Rightarrow> nat list \<Rightarrow> (nat \<Rightarrow> session) \<Rightarrow> nat \<Rightarrow> session" where
  "reindex_from i [] h = h"
| "reindex_from i (sid # sids) h = reindex_from (i + 1) sids (h(sid := setIndex (h sid) i))"

definition reindex :: "('e, 'cs) sessionManager \<Rightarrow> ('e, 'cs) sessionManager" where
  "reindex m = m\<lparr>w_sessions := reindex_from 0 (sessions m) (w_sessions m)\<rparr>"

definition updateTerminalRepliesLocked :: "('e, 'cs) sessionManager \<Rightarrow> ('e, 'cs) sessionManager" where
  "updateTerminalRepliesLocked m =
     m\<lparr>w_screens := foldl (\<lambda>scr sid. scr(screen (w_sessions m sid) :=
         SetTerminalReplies (scr (screen (w_sessions m sid))) True)) (w_screens m) (sessions m)\<rparr>"

definition NewManagerWithSSH :: "int \<Rightarrow> int \<Rightarrow> bool \<Rightarrow> bool \<Rightarrow> nat option \<Rightarrow> ('e, 'cs) sessionManager" where
  "NewManagerWithSSH c r out ex ssh =
     \<lparr>w_sessions = \<lambda>_. undefined, w_screens = \<lambda>_. undefined, w_nextSession = 0, w_nextScreen = 0,
      w_runs = [], w_output = [], w_exits = [], w_closed = [],
      sessions = [], focused = 0, mgr_cols = c, mgr_rows = r, mgr_SendOutput = out, mgr_SendExit = ex,
      mgr_sshClient = ssh, mgr_agentEndpoint = []\<rparr>"

definition SetSendOutput :: "bool \<Rightarrow> ('e, 'cs) sessionManager \<Rightarrow> ('e, 'cs) sessionManager" where
  "SetSendOutput fn m =
     foldl (\<lambda>m sid. upd_session sid (\<lambda>s. setSendOutput s fn) m) (m\<lparr>mgr_SendOutput := fn\<rparr>) (sessions m)"

definition SetSendExit :: "bool \<Rightarrow> ('e, 'cs) sessionManager \<Rightarrow> ('e, 'cs) sessionManager" where
  "SetSendExit fn m =
     foldl (\<lambda>m sid. upd_session sid (\<lambda>s. setSendExit s fn) m) (m\<lparr>mgr_SendExit := fn\<rparr>) (sessions m)"

definition SetAgentStateEndpoint :: "bytes \<Rightarrow> ('e, 'cs) sessionManager \<Rightarrow> ('e, 'cs) sessionManager" where
  "SetAgentStateEndpoint endpoint m =
     foldl (\<lambda>m sid. upd_session sid (\<lambda>s. s\<lparr>agentEndpoint := endpoint\<rparr>) m)
       (m\<lparr>mgr_agentEndpoint := endpoint\<rparr>) (sessions m)"

section \<open>New sessions\<close>

definition newWithOptions_begin :: "('e, 'cs) emulator \<Rightarrow> bytes \<Rightarrow> bytes list \<Rightarrow> nat option \<Rightarrow> bytes \<Rightarrow>
    ('e, 'cs) sessionManager \<Rightarrow> nat \<times> ('e, 'cs) sessionManager" where
  "newWithOptions_begin E rnd command ssh dir m =
     (let idx = int (length (sessions m));
          (sid, m1) = newSession E rnd idx command (mgr_cols m) (mgr_rows m) ssh m;
          m2 = upd_session sid (\<lambda>s. s\<lparr>workDir := dir, agentEndpoint := mgr_agentEndpoint m,
                 SendOutput := mgr_SendOutput m, SendExit := mgr_SendExit m\<rparr>) m1
      in (sid, updateTerminalRepliesLocked (m2\<lparr>sessions := sessions m2 @ [sid], focused := idx\<rparr>)))"

definition newWithOptions_failed :: "nat \<Rightarrow> int \<Rightarrow> ('e, 'cs) sessionManager \<Rightarrow> ('e, 'cs) sessionManager" where
  "newWithOptions_failed sid idx m =
     (let m1 = reindex (m\<lparr>sessions := remove1 sid (sessions m)\<rparr>);
          m2 = m1\<lparr>focused := (if sessions m1 = [] then 0 else if 0 < idx then idx - 1 else 0)\<rparr>
      in SessionClose sid (updateTerminalRepliesLocked m2))"

definition newWithOptions :: "('e, 'cs) emulator \<Rightarrow> bytes \<Rightarrow> bytes list \<Rightarrow> nat option \<Rightarrow> bytes \<Rightarrow>
    (nat \<times> int) option \<Rightarrow> ('e, 'cs) sessionManager \<Rightarrow> nat option \<times> ('e, 'cs) sessionManager" where
  "newWithOptions E rnd command ssh dir opened m =
     (let (sid, m1) = newWithOptions_begin E rnd command ssh dir m;
          (started, m2) = Start sid opened m1
      in if started then (Some sid, m2)
         else (None, newWithOptions_failed sid (int (length (sessions m))) m2))"

definition NewConfigured_begin :: "('e, 'cs) emulator \<Rightarrow> bytes \<Rightarrow> bytes list \<Rightarrow> nat option \<Rightarrow> bytes \<Rightarrow> bytes list \<Rightarrow>
    ('e, 'cs) sessionManager \<Rightarrow> nat \<times> ('e, 'cs) sessionManager" where
  "NewConfigured_begin E rnd command ssh dir env m =
     (let idx = int (length (sessions m));
          (sid, m1) = newSession E rnd idx command (mgr_cols m) (mgr_rows m) ssh m;
          m2 = upd_session sid (\<lambda>s. setCallbacks (s\<lparr>workDir := dir, extraEnv := env,
                 agentEndpoint := mgr_agentEndpoint m\<rparr>) (mgr_SendOutput m) (mgr_SendExit m)) m1
      in (sid, updateTerminalRepliesLocked (m2\<lparr>sessions := sessions m2 @ [sid]\<rparr>)))"

definition NewConfigured_failed :: "nat \<Rightarrow> ('e, 'cs) sessionManager \<Rightarrow> ('e, 'cs) sessionManager" where
  "NewConfigured_failed sid m =
     SessionClose sid (updateTerminalRepliesLocked (reindex (m\<lparr>sessions := remove1 sid (sessions m)\<rparr>)))"

definition NewConfigured :: "('e, 'cs) emulator \<Rightarrow> bytes \<Rightarrow> bytes list \<Rightarrow> nat option \<Rightarrow> bytes \<Rightarrow> bytes list \<Rightarrow>
    (nat \<times> int) option \<Rightarrow> ('e, 'cs) sessionManager \<Rightarrow> nat option \<times> ('e, 'cs) sessionManager" where
  "NewConfigured E rnd command ssh dir env opened m =
     (let (sid, m1) = NewConfigured_begin E rnd command ssh dir env m;
          (started, m2) = Start sid opened m1
      in if started then (Some sid, m2) else (None, NewConfigured_failed sid m2))"

section \<open>Focus and order\<close>

definition in_range :: "int \<Rightarrow> 'a list \<Rightarrow> bool" where
  "in_range i xs \<longleftrightarrow> 0 \<le> i \<and> i < int (length xs)"

definition Focus :: "int \<Rightarrow> ('e, 'cs) sessionManager \<Rightarrow> ('e, 'cs) sessionManager" where
  "Focus i m =
     (if in_range i (sessions m) then updateTerminalRepliesLocked (m\<lparr>focused := i\<rparr>) else m)"

definition Rename :: "int \<Rightarrow> bytes \<Rightarrow> ('e, 'cs) sessionManager \<Rightarrow> ('e, 'cs) sessionManager" where
  "Rename i t m =
     (if in_range i (sessions m) then upd_session (sessions m ! nat i) (\<lambda>s. SetTitle s t) m else m)"

definition Kill :: "int \<Rightarrow> ('e, 'cs) sessionManager \<Rightarrow> ('e, 'cs) sessionManager" where
  "Kill i m =
     (if length (sessions m) \<le> 1 \<or> \<not> in_range i (sessions m) then m
      else
        (let killed = sessions m ! nat i;
             m1 = reindex (m\<lparr>sessions := remove_at (nat i) (sessions m)\<rparr>);
             m2 = (if int (length (sessions m1)) \<le> focused m1 \<and> 0 < focused m1
                   then m1\<lparr>focused := int (length (sessions m1)) - 1\<rparr> else m1)
         in SessionClose killed (updateTerminalRepliesLocked m2)))"

definition clamp_focus :: "('e, 'cs) sessionManager \<Rightarrow> ('e, 'cs) sessionManager" where
  "clamp_focus m =
     (if sessions m = [] then m\<lparr>focused := 0\<rparr>
      else if int (length (sessions m)) \<le> focused m then m\<lparr>focused := int (length (sessions m)) - 1\<rparr>
      else m)"

definition Remove :: "int \<Rightarrow> ('e, 'cs) sessionManager \<Rightarrow> bool \<times> ('e, 'cs) sessionManager" where
  "Remove i m =
     (if \<not> in_range i (sessions m) then (False, m)
      else
        (let removed = sessions m ! nat i;
             m1 = clamp_focus (reindex (m\<lparr>sessions := remove_at (nat i) (sessions m)\<rparr>))
         in (True, SessionClose removed (updateTerminalRepliesLocked m1))))"

definition Detach :: "int \<Rightarrow> ('e, 'cs) sessionManager \<Rightarrow> nat option \<times> ('e, 'cs) sessionManager" where
  "Detach i m =
     (if \<not> in_range i (sessions m) then (None, m)
      else
        (let detached = sessions m ! nat i;
             m1 = clamp_focus (reindex (m\<lparr>sessions := remove_at (nat i) (sessions m)\<rparr>))
         in (Some detached, updateTerminalRepliesLocked m1)))"

definition Adopt :: "nat option \<Rightarrow> int \<Rightarrow> ('e, 'cs) sessionManager \<Rightarrow> ('e, 'cs) sessionManager" where
  "Adopt s position m =
     (case s of
        None \<Rightarrow> m
      | Some sid \<Rightarrow>
          (let pos = (if position < 0 \<or> int (length (sessions m)) < position
                      then int (length (sessions m)) else position);
               m1 = upd_session sid (\<lambda>s. s\<lparr>SendOutput := mgr_SendOutput m, SendExit := mgr_SendExit m\<rparr>) m
           in updateTerminalRepliesLocked
                (reindex (m1\<lparr>sessions := insert_at (nat pos) sid (sessions m1)\<rparr>))))"

text \<open>
  \<open>Move\<close>: the loop that reindexes also looks for the session that had the focus, which is given by
  its place before the move; out of range there the program would stop (\<open>None\<close>).
\<close>

fun find_from :: "int \<Rightarrow> nat list \<Rightarrow> nat \<Rightarrow> int \<Rightarrow> int" where
  "find_from i [] x d = d"
| "find_from i (y # ys) x d = find_from (i + 1) ys x (if y = x then i else d)"

definition Move :: "int \<Rightarrow> int \<Rightarrow> ('e, 'cs) sessionManager \<Rightarrow> ('e, 'cs) sessionManager option" where
  "Move from to m =
     (let n = int (length (sessions m)) in
      if n \<le> 1 \<or> from < 0 \<or> n \<le> from then Some m
      else
        (let to1 = (if to < 0 then 0 else to); to2 = (if n \<le> to1 then n - 1 else to1) in
         if from = to2 then Some m
         else if \<not> in_range (focused m) (sessions m) then None
         else
           (let focusedSess = sessions m ! nat (focused m);
                s = sessions m ! nat from;
                moved = insert_at (nat to2) s (remove_at (nat from) (sessions m));
                m1 = reindex (m\<lparr>sessions := moved\<rparr>)
            in Some (updateTerminalRepliesLocked (m1\<lparr>focused := find_from 0 moved focusedSess (focused m1)\<rparr>)))))"

section \<open>Queries and sizes\<close>

datatype focus_result = NoSession | FocusedSession nat | IndexOutOfRange

definition Focused :: "('e, 'cs) sessionManager \<Rightarrow> focus_result" where
  "Focused m =
     (if sessions m = [] then NoSession
      else if in_range (focused m) (sessions m) then FocusedSession (sessions m ! nat (focused m))
      else IndexOutOfRange)"

definition FocusedIndex :: "('e, 'cs) sessionManager \<Rightarrow> int" where
  "FocusedIndex m = focused m"

definition Len :: "('e, 'cs) sessionManager \<Rightarrow> nat" where
  "Len m = length (sessions m)"

definition Sessions :: "('e, 'cs) sessionManager \<Rightarrow> nat list" where
  "Sessions m = sessions m"

definition ByID :: "int \<Rightarrow> ('e, 'cs) sessionManager \<Rightarrow> nat option" where
  "ByID i m = List.find (\<lambda>sid. index (w_sessions m sid) = i) (sessions m)"

definition ResizeOne :: "('e, 'cs) emulator \<Rightarrow> int \<Rightarrow> int \<Rightarrow> int \<Rightarrow>
    ('e, 'cs) sessionManager \<Rightarrow> ('e, 'cs) sessionManager" where
  "ResizeOne E i c r m =
     (case List.find (\<lambda>sid. index (w_sessions m sid) = i) (sessions m) of
        None \<Rightarrow> m
      | Some sid \<Rightarrow> snd (SessionResize E sid c r m))"

definition ResizeAll :: "('e, 'cs) emulator \<Rightarrow> int \<Rightarrow> int \<Rightarrow>
    ('e, 'cs) sessionManager \<Rightarrow> ('e, 'cs) sessionManager" where
  "ResizeAll E c r m =
     foldl (\<lambda>m sid. snd (SessionResize E sid c r m)) (m\<lparr>mgr_cols := c, mgr_rows := r\<rparr>) (sessions m)"

text \<open>\<open>Respawn\<close>: \<open>None\<close> is the error that the index is out of range.\<close>

definition Respawn :: "('e, 'cs) emulator \<Rightarrow> int \<Rightarrow> (nat \<times> int) option \<Rightarrow>
    ('e, 'cs) sessionManager \<Rightarrow> bool option \<times> ('e, 'cs) sessionManager" where
  "Respawn E i opened m =
     (if \<not> in_range i (sessions m) then (None, m)
      else
        (let (ok, m1) = SessionRespawn E (sessions m ! nat i) (mgr_cols m) (mgr_rows m) opened m
         in (Some ok, m1)))"

definition CloseAll :: "('e, 'cs) sessionManager \<Rightarrow> ('e, 'cs) sessionManager" where
  "CloseAll m =
     foldl (\<lambda>m sid. SessionClose sid m)
       (updateTerminalRepliesLocked (m\<lparr>sessions := [], focused := 0\<rparr>)) (sessions m)"

end
