(* ===== verification/ManagerProps.thy ===== *)
theory ManagerProps
  imports Manager ScreenProps
begin

text \<open>
  The manager's invariant (its sessions are distinct, each knows its place, the focus names one of
  them) over every sequence of its operations, what each operation does to the order and to the
  focused session, and where the focus does not follow the session it was on.
\<close>

section \<open>Frames\<close>

named_theorems mgr_frame \<open>manager fields an operation does not write\<close>

lemma updateTerminalReplies_frame [mgr_frame]:
  "sessions (updateTerminalRepliesLocked m) = sessions m"
  "focused (updateTerminalRepliesLocked m) = focused m"
  "w_sessions (updateTerminalRepliesLocked m) = w_sessions m"
  "w_nextSession (updateTerminalRepliesLocked m) = w_nextSession m"
  "mgr_cols (updateTerminalRepliesLocked m) = mgr_cols m" "mgr_rows (updateTerminalRepliesLocked m) = mgr_rows m"
  by (simp_all add: updateTerminalRepliesLocked_def)

lemma reindex_frame [mgr_frame]:
  "sessions (reindex m) = sessions m" "focused (reindex m) = focused m"
  "w_nextSession (reindex m) = w_nextSession m"
  "mgr_cols (reindex m) = mgr_cols m" "mgr_rows (reindex m) = mgr_rows m"
  by (simp_all add: reindex_def)

lemma upd_session_frame [mgr_frame]:
  "sessions (upd_session i f m) = sessions m" "focused (upd_session i f m) = focused m"
  "w_nextSession (upd_session i f m) = w_nextSession m"
  "w_sessions (upd_session i f m) x = (if x = i then f (w_sessions m i) else w_sessions m x)"
  "mgr_cols (upd_session i f m) = mgr_cols m" "mgr_rows (upd_session i f m) = mgr_rows m"
  by (simp_all add: upd_session_def)

lemma close_channel_mgr_frame [mgr_frame]:
  "sessions (close_channel ch m) = sessions m" "focused (close_channel ch m) = focused m"
  "w_nextSession (close_channel ch m) = w_nextSession m" "w_sessions (close_channel ch m) = w_sessions m"
  by (simp_all add: close_channel_def split: option.split)

lemma SessionClose_frame [mgr_frame]:
  "sessions (SessionClose i m) = sessions m" "focused (SessionClose i m) = focused m"
  "w_nextSession (SessionClose i m) = w_nextSession m"
  "index (w_sessions (SessionClose i m) x) = index (w_sessions m x)"
  "runtimeID (w_sessions (SessionClose i m) x) = runtimeID (w_sessions m x)"
  by (simp_all add: SessionClose_def Let_def mgr_frame)

lemma Start_frame [mgr_frame]:
  "sessions (snd (Start i opened m)) = sessions m" "focused (snd (Start i opened m)) = focused m"
  "w_nextSession (snd (Start i opened m)) = w_nextSession m"
  "index (w_sessions (snd (Start i opened m)) x) = index (w_sessions m x)"
  "fst (Start i opened m) = (opened \<noteq> None)"
  by (auto simp: Start_def start_locked_def upd_session_def upd_screen_def Let_def split: option.split)

lemma SessionResize_frame [mgr_frame]:
  "sessions (snd (SessionResize E i c r m)) = sessions m"
  "focused (snd (SessionResize E i c r m)) = focused m"
  "w_nextSession (snd (SessionResize E i c r m)) = w_nextSession m"
  "w_sessions (snd (SessionResize E i c r m)) = w_sessions m"
  by (simp_all add: SessionResize_def upd_screen_def Let_def)

lemma SessionRespawn_frame [mgr_frame]:
  "sessions (snd (SessionRespawn E i c r opened m)) = sessions m"
  "focused (snd (SessionRespawn E i c r opened m)) = focused m"
  "w_nextSession (snd (SessionRespawn E i c r opened m)) = w_nextSession m"
  "index (w_sessions (snd (SessionRespawn E i c r opened m)) x) = index (w_sessions m x)"
  by (simp_all add: SessionRespawn_def Let_def mgr_frame respawn_locked_def upd_session_def)

section \<open>Reindexing\<close>

lemma reindex_other: "x \<notin> set sids \<Longrightarrow> reindex_from i sids h x = h x"
  by (induction i sids h rule: reindex_from.induct) auto

lemma reindex_index:
  "distinct sids \<Longrightarrow> k < length sids \<Longrightarrow> index (reindex_from i sids h (sids ! k)) = i + int k"
proof (induction i sids h arbitrary: k rule: reindex_from.induct)
  case (2 i sid sids h)
  show ?case
  proof (cases k)
    case 0
    with 2 show ?thesis by (simp add: reindex_other setIndex_def)
  next
    case (Suc j)
    with 2 show ?thesis by (simp add: fun_upd_def algebra_simps)
  qed
qed simp

lemma reindex_keeps:
  "runtimeID (reindex_from i sids h x) = runtimeID (h x)" "title (reindex_from i sids h x) = title (h x)"
  "screen (reindex_from i sids h x) = screen (h x)" "rw (reindex_from i sids h x) = rw (h x)"
  by (induction i sids h rule: reindex_from.induct) (simp_all add: setIndex_def)

section \<open>The invariant\<close>

definition placed :: "('e, 'cs) sessionManager \<Rightarrow> bool" where
  "placed m \<longleftrightarrow> distinct (sessions m) \<and>
     (\<forall>k < length (sessions m). index (w_sessions m (sessions m ! k)) = int k) \<and>
     (\<forall>sid \<in> set (sessions m). sid < w_nextSession m)"

definition focus_ok :: "('e, 'cs) sessionManager \<Rightarrow> bool" where
  "focus_ok m \<longleftrightarrow> (if sessions m = [] then focused m = 0 else in_range (focused m) (sessions m))"

definition mgr_inv :: "('e, 'cs) sessionManager \<Rightarrow> bool" where
  "mgr_inv m \<longleftrightarrow> placed m \<and> focus_ok m"

lemma in_range_Nil [simp]: "\<not> in_range i []"
  by (simp add: in_range_def)

lemma focus_nonneg: "focus_ok m \<Longrightarrow> 0 \<le> focused m"
  by (auto simp: focus_ok_def in_range_def split: if_splits)

lemma placed_reindex:
  assumes "distinct sids" and "\<forall>sid \<in> set sids. sid < w_nextSession m"
  shows "placed (reindex (m\<lparr>sessions := sids\<rparr>))"
  using assms reindex_index [of sids _ 0 "w_sessions m"] by (simp add: placed_def reindex_def)

lemma placed_cong:
  assumes "placed m" and "sessions m' = sessions m" and "w_nextSession m \<le> w_nextSession m'"
    and "\<And>x. x \<in> set (sessions m) \<Longrightarrow> index (w_sessions m' x) = index (w_sessions m x)"
  shows "placed m'"
  using assms by (auto simp: placed_def intro: less_le_trans)

lemma focus_ok_cong:
  "focus_ok m \<Longrightarrow> sessions m' = sessions m \<Longrightarrow> focused m' = focused m \<Longrightarrow> focus_ok m'"
  by (simp add: focus_ok_def)

lemma mgr_inv_cong:
  assumes "mgr_inv m" and "sessions m' = sessions m" and "focused m' = focused m"
    and "w_nextSession m \<le> w_nextSession m'"
    and "\<And>x. x \<in> set (sessions m) \<Longrightarrow> index (w_sessions m' x) = index (w_sessions m x)"
  shows "mgr_inv m'"
  using assms placed_cong [of m m'] focus_ok_cong [of m m'] by (simp add: mgr_inv_def)

lemma set_remove_at_subset: "set (remove_at i xs) \<subseteq> set xs"
  unfolding remove_at_def by (auto dest: in_set_takeD in_set_dropD)

lemma placed_removed:
  assumes "placed m" and "i < length (sessions m)"
  shows "placed (reindex (m\<lparr>sessions := remove_at i (sessions m)\<rparr>))"
  using assms set_remove_at_subset [of i "sessions m"]
  by (intro placed_reindex) (auto simp: placed_def distinct_remove_at)

section \<open>Each operation keeps it\<close>

lemma in_range_nat: "in_range i xs \<Longrightarrow> nat i < length xs"
  by (auto simp: in_range_def)

lemma length_removed: "in_range i xs \<Longrightarrow> length (remove_at (nat i) xs) = length xs - 1"
  by (simp add: in_range_nat)

lemma Focus_inv: "mgr_inv m \<Longrightarrow> mgr_inv (Focus i m)"
  by (auto simp: Focus_def mgr_inv_def placed_def focus_ok_def mgr_frame)

lemma Rename_inv: "mgr_inv m \<Longrightarrow> mgr_inv (Rename i t m)"
  by (auto simp: Rename_def mgr_frame SetTitle_def intro: mgr_inv_cong)

lemma clamp_frame [mgr_frame]:
  "sessions (clamp_focus m) = sessions m" "w_sessions (clamp_focus m) = w_sessions m"
  "w_nextSession (clamp_focus m) = w_nextSession m"
  by (simp_all add: clamp_focus_def)

lemma clamp_focus_ok: "0 \<le> focused m \<Longrightarrow> focus_ok (clamp_focus m)"
  by (auto simp: focus_ok_def clamp_focus_def in_range_def)

lemma mgr_inv_removed:
  assumes "mgr_inv m" and "in_range i (sessions m)"
  shows "mgr_inv (clamp_focus (reindex (m\<lparr>sessions := remove_at (nat i) (sessions m)\<rparr>)))"
proof -
  have "placed (reindex (m\<lparr>sessions := remove_at (nat i) (sessions m)\<rparr>))"
    using assms by (intro placed_removed) (auto simp: mgr_inv_def in_range_def)
  then have "placed (clamp_focus (reindex (m\<lparr>sessions := remove_at (nat i) (sessions m)\<rparr>)))"
    by (rule placed_cong) (simp_all add: mgr_frame)
  moreover have "0 \<le> focused m" using assms by (simp add: mgr_inv_def focus_nonneg)
  ultimately show ?thesis by (simp add: mgr_inv_def clamp_focus_ok mgr_frame)
qed

lemma Remove_inv: "mgr_inv m \<Longrightarrow> mgr_inv (snd (Remove i m))"
  using mgr_inv_removed [of m i]
  by (auto simp: Remove_def Let_def mgr_frame intro: mgr_inv_cong)

lemma Detach_inv: "mgr_inv m \<Longrightarrow> mgr_inv (snd (Detach i m))"
  using mgr_inv_removed [of m i]
  by (auto simp: Detach_def Let_def mgr_frame intro: mgr_inv_cong)

lemma Kill_as_Remove:
  assumes "mgr_inv m"
  shows "Kill i m = (if length (sessions m) \<le> 1 then m else snd (Remove i m))"
proof (cases "length (sessions m) \<le> 1 \<or> \<not> in_range i (sessions m)")
  case True
  then show ?thesis by (auto simp: Kill_def Remove_def)
next
  case False
  then have len: "length (remove_at (nat i) (sessions m)) = length (sessions m) - 1" "1 < length (sessions m)"
    by (auto simp: length_removed)
  then have "remove_at (nat i) (sessions m) \<noteq> []" by (cases "remove_at (nat i) (sessions m)") auto
  moreover have "0 \<le> focused m" using assms by (simp add: mgr_inv_def focus_nonneg)
  ultimately show ?thesis
    using False len by (auto simp: Kill_def Remove_def Let_def clamp_focus_def mgr_frame)
qed

lemma Kill_inv: "mgr_inv m \<Longrightarrow> mgr_inv (Kill i m)"
  by (simp add: Kill_as_Remove Remove_inv)

lemma Adopt_inv:
  assumes "mgr_inv m" and "sid \<notin> set (sessions m)" and "sid < w_nextSession m"
  shows "mgr_inv (Adopt (Some sid) position m)"
proof -
  define pos where "pos = (if position < 0 \<or> int (length (sessions m)) < position
      then int (length (sessions m)) else position)"
  define m1 where "m1 = upd_session sid (\<lambda>s. s\<lparr>SendOutput := mgr_SendOutput m, SendExit := mgr_SendExit m\<rparr>) m"
  have pos: "0 \<le> pos" "nat pos \<le> length (sessions m)" by (auto simp: pos_def)
  have "placed (reindex (m1\<lparr>sessions := insert_at (nat pos) sid (sessions m1)\<rparr>))"
    using assms pos
    by (intro placed_reindex) (auto simp: m1_def mgr_frame mgr_inv_def placed_def distinct_insert_at)
  moreover have "focus_ok (reindex (m1\<lparr>sessions := insert_at (nat pos) sid (sessions m1)\<rparr>))"
  proof -
    have "length (insert_at (nat pos) sid (sessions m)) = Suc (length (sessions m))" by simp
    then have "insert_at (nat pos) sid (sessions m) \<noteq> []" by (cases "insert_at (nat pos) sid (sessions m)") auto
    then show ?thesis
      using assms(1) by (auto simp: focus_ok_def m1_def mgr_frame mgr_inv_def in_range_def split: if_splits)
  qed
  ultimately have inv: "mgr_inv (reindex (m1\<lparr>sessions := insert_at (nat pos) sid (sessions m1)\<rparr>))"
    by (simp add: mgr_inv_def)
  have "mgr_inv (updateTerminalRepliesLocked (reindex (m1\<lparr>sessions := insert_at (nat pos) sid (sessions m1)\<rparr>)))"
    by (rule mgr_inv_cong [OF inv]) (simp_all add: mgr_frame)
  then show ?thesis by (simp add: Adopt_def Let_def pos_def m1_def)
qed

lemma find_from_absent: "x \<notin> set ys \<Longrightarrow> find_from i ys x d = d"
  by (induction i ys x d rule: find_from.induct) auto

lemma find_from_nth:
  "distinct ys \<Longrightarrow> k < length ys \<Longrightarrow> find_from i ys (ys ! k) d = i + int k"
proof (induction i ys "ys ! k" d arbitrary: k rule: find_from.induct)
  case (2 i y ys d)
  then show ?case by (cases k) (auto simp: find_from_absent)
qed simp

text \<open>The list after a move, and the place it gives the focused session.\<close>

definition move_list :: "nat \<Rightarrow> nat \<Rightarrow> 'a list \<Rightarrow> 'a list" where
  "move_list from to xs = insert_at to (xs ! from) (remove_at from xs)"

lemma move_list_facts:
  assumes "from < length xs" and "to < length xs"
  shows "mset (move_list from to xs) = mset xs" "length (move_list from to xs) = length xs"
    "move_list from to xs ! to = xs ! from"
  using assms
  by (simp_all add: move_list_def surgery_simps)

lemma remove1_split: "x \<notin> set as \<Longrightarrow> remove1 x (as @ x # bs) = as @ bs"
  by (induction as) auto

lemma remove1_nth:
  assumes "distinct xs" and "i < length xs"
  shows "remove1 (xs ! i) xs = remove_at i xs"
proof -
  have xs: "xs = take i xs @ xs ! i # drop (Suc i) xs" using assms(2) by (rule id_take_nth_drop)
  with assms(1) have "xs ! i \<notin> set (take i xs)" by (metis distinct_append disjoint_iff list.set_intros(1))
  then show ?thesis using remove1_split xs by (metis remove_at_def)
qed

lemma remove1_insert_at: "x \<notin> set xs \<Longrightarrow> i \<le> length xs \<Longrightarrow> remove1 x (insert_at i x xs) = xs"
  using remove1_split [of x "take i xs" "drop i xs"] by (auto simp: insert_at_def dest: in_set_takeD)

lemma remove1_move:
  assumes "distinct xs" and "src < length xs" and "dst < length xs"
  shows "remove1 (xs ! src) (move_list src dst xs) = remove1 (xs ! src) xs"
proof -
  have "xs ! src \<notin> set (remove_at src xs)" using assms by (simp add: set_remove_at)
  then show ?thesis using assms by (simp add: move_list_def remove1_insert_at remove1_nth)
qed

lemma Move_cases:
  assumes inv: "mgr_inv m" and move: "1 < length (sessions m)" "in_range from (sessions m)"
    and dest: "dest = max 0 (min to (int (length (sessions m)) - 1))" "from \<noteq> dest"
  obtains m' where "Move from to m = Some m'" "mgr_inv m'"
    "sessions m' = move_list (nat from) (nat dest) (sessions m)"
    "sessions m' ! nat (focused m') = sessions m ! nat (focused m)"
proof -
  let ?xs = "sessions m" and ?n = "int (length (sessions m))"
  let ?moved = "move_list (nat from) (nat dest) ?xs"
  have d: "0 \<le> dest" "dest < ?n" and f: "in_range (focused m) ?xs"
    using assms by (auto simp: mgr_inv_def focus_ok_def split: if_splits)
  have b: "nat from < length ?xs" "nat dest < length ?xs" using d move by (auto simp: in_range_def)
  note facts = move_list_facts [OF b]
  have ds: "distinct ?xs" "\<forall>sid \<in> set ?xs. sid < w_nextSession m"
    using inv by (simp_all add: mgr_inv_def placed_def)
  have set_eq: "set ?moved = set ?xs" using facts(1) by (rule mset_eq_setD)
  have dm: "distinct ?moved" using ds(1) facts(1) by (metis mset_eq_imp_distinct_iff)
  have "?xs ! nat (focused m) \<in> set ?moved" using in_range_nat [OF f] by (simp add: set_eq)
  then obtain k where k: "k < length ?moved" "?moved ! k = ?xs ! nat (focused m)"
    by (auto simp: in_set_conv_nth)
  define m1 where "m1 = reindex (m\<lparr>sessions := ?moved\<rparr>)"
  define m' where "m' = updateTerminalRepliesLocked
    (m1\<lparr>focused := find_from 0 ?moved (?xs ! nat (focused m)) (focused m1)\<rparr>)"
  have foc: "find_from 0 ?moved (?xs ! nat (focused m)) x = int k" for x
    using find_from_nth [OF dm k(1), of 0 x] by (simp add: k(2))
  have p1: "placed m1" unfolding m1_def using dm ds(2) set_eq by (intro placed_reindex) auto
  have p: "placed m'"
    unfolding m'_def by (rule placed_cong [OF p1]) (simp_all add: mgr_frame)
  have s': "sessions m' = ?moved" "focused m' = int k" by (simp_all add: m'_def m1_def mgr_frame foc)
  moreover have "focus_ok m'" using k s' facts(2) move by (auto simp: focus_ok_def in_range_def)
  moreover have "Move from to m = Some m'"
    using move d f dest by (auto simp: Move_def Let_def m'_def m1_def move_list_def in_range_def)
  ultimately show ?thesis using that p k by (simp add: mgr_inv_def)
qed

lemma Move_inv:
  assumes "mgr_inv m"
  shows "\<exists>m'. Move src to m = Some m' \<and> mgr_inv m'"
proof (cases "1 < length (sessions m) \<and> in_range src (sessions m) \<and>
    src \<noteq> max 0 (min to (int (length (sessions m)) - 1))")
  case True
  with assms show ?thesis using Move_cases [of m src _ to] by metis
next
  case False
  then have "Move src to m = Some m"
    by (auto simp: Move_def Let_def in_range_def max_def min_def split: if_splits)
  with assms show ?thesis by simp
qed

lemma newSession_frame [mgr_frame]:
  "fst (newSession E rnd idx command c r ssh m) = w_nextSession m"
  "sessions (snd (newSession E rnd idx command c r ssh m)) = sessions m"
  "focused (snd (newSession E rnd idx command c r ssh m)) = focused m"
  "w_nextSession (snd (newSession E rnd idx command c r ssh m)) = Suc (w_nextSession m)"
  "x \<noteq> w_nextSession m \<Longrightarrow> w_sessions (snd (newSession E rnd idx command c r ssh m)) x = w_sessions m x"
  "index (w_sessions (snd (newSession E rnd idx command c r ssh m)) (w_nextSession m)) = idx"
  by (simp_all add: newSession_def Let_def)

lemma begin_frame [mgr_frame]:
  "fst (newWithOptions_begin E rnd command ssh d m) = w_nextSession m"
  "sessions (snd (newWithOptions_begin E rnd command ssh d m)) = sessions m @ [w_nextSession m]"
  "focused (snd (newWithOptions_begin E rnd command ssh d m)) = int (length (sessions m))"
  "w_nextSession (snd (newWithOptions_begin E rnd command ssh d m)) = Suc (w_nextSession m)"
  "x \<noteq> w_nextSession m \<Longrightarrow> w_sessions (snd (newWithOptions_begin E rnd command ssh d m)) x = w_sessions m x"
  "index (w_sessions (snd (newWithOptions_begin E rnd command ssh d m)) (w_nextSession m)) = int (length (sessions m))"
  by (simp_all add: newWithOptions_begin_def Let_def case_prod_beta mgr_frame)

lemma conf_begin_frame [mgr_frame]:
  "fst (NewConfigured_begin E rnd command ssh d env m) = w_nextSession m"
  "sessions (snd (NewConfigured_begin E rnd command ssh d env m)) = sessions m @ [w_nextSession m]"
  "focused (snd (NewConfigured_begin E rnd command ssh d env m)) = focused m"
  "w_nextSession (snd (NewConfigured_begin E rnd command ssh d env m)) = Suc (w_nextSession m)"
  "x \<noteq> w_nextSession m \<Longrightarrow> w_sessions (snd (NewConfigured_begin E rnd command ssh d env m)) x = w_sessions m x"
  "index (w_sessions (snd (NewConfigured_begin E rnd command ssh d env m)) (w_nextSession m)) = int (length (sessions m))"
  by (simp_all add: NewConfigured_begin_def Let_def case_prod_beta mgr_frame setCallbacks_def)

lemma placed_appended:
  assumes "placed m" and "sessions m' = sessions m @ [w_nextSession m]"
    and "w_nextSession m' = Suc (w_nextSession m)"
    and "\<And>x. x \<noteq> w_nextSession m \<Longrightarrow> index (w_sessions m' x) = index (w_sessions m x)"
    and "index (w_sessions m' (w_nextSession m)) = int (length (sessions m))"
  shows "placed m'"
proof -
  have lt: "\<And>sid. sid \<in> set (sessions m) \<Longrightarrow> sid < w_nextSession m" using assms(1) by (simp add: placed_def)
  then have "w_nextSession m \<notin> set (sessions m)" by blast
  moreover have "index (w_sessions m' ((sessions m @ [w_nextSession m]) ! k)) = int k"
    if "k < Suc (length (sessions m))" for k
  proof (cases "k = length (sessions m)")
    case True
    then show ?thesis using assms(5) by simp
  next
    case False
    then have k: "k < length (sessions m)" using that by simp
    then have "sessions m ! k \<noteq> w_nextSession m" using lt [of "sessions m ! k"] by auto
    with k assms(1,4) show ?thesis by (simp add: nth_append placed_def)
  qed
  ultimately show ?thesis
    using assms(1-3) lt by (auto simp: placed_def less_SucI)
qed

lemma placed_begin: "placed m \<Longrightarrow> placed (snd (newWithOptions_begin E rnd command ssh d m))"
  by (rule placed_appended [of m]) (simp_all add: mgr_frame)

lemma placed_conf_begin: "placed m \<Longrightarrow> placed (snd (NewConfigured_begin E rnd command ssh d env m))"
  by (rule placed_appended [of m]) (simp_all add: mgr_frame)

lemma failed_frame [mgr_frame]:
  "sessions (newWithOptions_failed sid idx m) = remove1 sid (sessions m)"
  "w_nextSession (newWithOptions_failed sid idx m) = w_nextSession m"
  "focused (newWithOptions_failed sid idx m) =
     (if remove1 sid (sessions m) = [] then 0 else if 0 < idx then idx - 1 else 0)"
  by (simp_all add: newWithOptions_failed_def Let_def mgr_frame)

lemma placed_failed: "placed m \<Longrightarrow> placed (newWithOptions_failed sid idx m)"
proof -
  assume p: "placed m"
  then have "placed (reindex (m\<lparr>sessions := remove1 sid (sessions m)\<rparr>))"
    by (intro placed_reindex) (auto simp: placed_def dest: in_set_remove1 [THEN iffD1, rotated] notin_set_remove1)
  then show ?thesis
    by (rule placed_cong) (simp_all add: newWithOptions_failed_def Let_def mgr_frame)
qed

lemma placed_conf_failed: "placed m \<Longrightarrow> placed (NewConfigured_failed sid m)"
proof -
  assume p: "placed m"
  then have "placed (reindex (m\<lparr>sessions := remove1 sid (sessions m)\<rparr>))"
    by (intro placed_reindex) (auto simp: placed_def dest: notin_set_remove1)
  then show ?thesis
    by (rule placed_cong) (simp_all add: NewConfigured_failed_def mgr_frame)
qed

lemma placed_Start: "placed m \<Longrightarrow> placed (snd (Start sid opened m))"
  by (rule placed_cong) (simp_all add: mgr_frame)

text \<open>What a new session does to the order and the focus, in both outcomes.\<close>

lemma newWithOptions_facts:
  assumes "mgr_inv m"
  shows "mgr_inv (snd (newWithOptions E rnd command ssh d opened m))"
    "sessions (snd (newWithOptions E rnd command ssh d opened m)) =
       (if opened = None then sessions m else sessions m @ [w_nextSession m])"
    "focused (snd (newWithOptions E rnd command ssh d opened m)) =
       (if opened \<noteq> None then int (length (sessions m))
        else if sessions m = [] then 0 else int (length (sessions m)) - 1)"
proof -
  define m1 where "m1 = snd (newWithOptions_begin E rnd command ssh d m)"
  define m2 where "m2 = snd (Start (w_nextSession m) opened m1)"
  have eq: "newWithOptions_begin E rnd command ssh d m = (w_nextSession m, m1)"
    unfolding m1_def by (rule prod_eqI) (simp_all add: begin_frame(1))
  have st: "Start (w_nextSession m) opened m1 = (opened \<noteq> None, m2)"
    unfolding m2_def by (rule prod_eqI) (simp_all only: fst_conv snd_conv Start_frame(5))
  have new: "snd (newWithOptions E rnd command ssh d opened m) =
      (if opened \<noteq> None then m2 else newWithOptions_failed (w_nextSession m) (int (length (sessions m))) m2)"
    by (simp add: newWithOptions_def eq st)
  have p2: "placed m2" unfolding m2_def m1_def
    using assms by (intro placed_Start placed_begin) (simp add: mgr_inv_def)
  have absent: "w_nextSession m \<notin> set (sessions m)"
    using assms by (auto simp: mgr_inv_def placed_def)
  then have rm: "remove1 (w_nextSession m) (sessions m @ [w_nextSession m]) = sessions m"
    by (simp add: remove1_append)
  have s2: "sessions m2 = sessions m @ [w_nextSession m]" "focused m2 = int (length (sessions m))"
    by (simp_all add: m2_def m1_def mgr_frame)
  show s: "sessions (snd (newWithOptions E rnd command ssh d opened m)) =
       (if opened = None then sessions m else sessions m @ [w_nextSession m])"
    and f: "focused (snd (newWithOptions E rnd command ssh d opened m)) =
       (if opened \<noteq> None then int (length (sessions m))
        else if sessions m = [] then 0 else int (length (sessions m)) - 1)"
    unfolding new by (simp_all add: failed_frame s2 rm)
  have "placed (snd (newWithOptions E rnd command ssh d opened m))"
    using p2 by (simp add: new placed_failed)
  moreover have "focus_ok (snd (newWithOptions E rnd command ssh d opened m))"
    by (auto simp: focus_ok_def s f in_range_def Suc_le_eq)
  ultimately show "mgr_inv (snd (newWithOptions E rnd command ssh d opened m))" by (simp add: mgr_inv_def)
qed

lemma NewConfigured_facts:
  assumes "mgr_inv m"
  shows "mgr_inv (snd (NewConfigured E rnd command ssh d env opened m))"
    "sessions (snd (NewConfigured E rnd command ssh d env opened m)) =
       (if opened = None then sessions m else sessions m @ [w_nextSession m])"
    "focused (snd (NewConfigured E rnd command ssh d env opened m)) = focused m"
proof -
  define m1 where "m1 = snd (NewConfigured_begin E rnd command ssh d env m)"
  define m2 where "m2 = snd (Start (w_nextSession m) opened m1)"
  have eq: "NewConfigured_begin E rnd command ssh d env m = (w_nextSession m, m1)"
    unfolding m1_def by (rule prod_eqI) (simp_all add: conf_begin_frame(1))
  have st: "Start (w_nextSession m) opened m1 = (opened \<noteq> None, m2)"
    unfolding m2_def by (rule prod_eqI) (simp_all only: fst_conv snd_conv Start_frame(5))
  have new: "snd (NewConfigured E rnd command ssh d env opened m) =
      (if opened \<noteq> None then m2 else NewConfigured_failed (w_nextSession m) m2)"
    by (simp add: NewConfigured_def eq st)
  have p2: "placed m2" unfolding m2_def m1_def
    using assms by (intro placed_Start placed_conf_begin) (simp add: mgr_inv_def)
  have absent: "w_nextSession m \<notin> set (sessions m)"
    using assms by (auto simp: mgr_inv_def placed_def)
  then have rm: "remove1 (w_nextSession m) (sessions m @ [w_nextSession m]) = sessions m"
    by (simp add: remove1_append)
  have s2: "sessions m2 = sessions m @ [w_nextSession m]" "focused m2 = focused m"
    by (simp_all add: m2_def m1_def mgr_frame)
  show s: "sessions (snd (NewConfigured E rnd command ssh d env opened m)) =
       (if opened = None then sessions m else sessions m @ [w_nextSession m])"
    and f: "focused (snd (NewConfigured E rnd command ssh d env opened m)) = focused m"
    unfolding new by (simp_all add: NewConfigured_failed_def mgr_frame s2 rm)
  have "placed (snd (NewConfigured E rnd command ssh d env opened m))"
    using p2 by (simp add: new placed_conf_failed)
  moreover have "focus_ok (snd (NewConfigured E rnd command ssh d env opened m))"
    using assms by (auto simp: focus_ok_def s f in_range_def mgr_inv_def split: if_splits)
  ultimately show "mgr_inv (snd (NewConfigured E rnd command ssh d env opened m))" by (simp add: mgr_inv_def)
qed

section \<open>Every sequence of operations\<close>

lemma foldl_mgr_inv:
  "(\<And>m x. mgr_inv m \<Longrightarrow> mgr_inv (f m x)) \<Longrightarrow> mgr_inv m \<Longrightarrow> mgr_inv (foldl f m xs)"
  by (induction xs arbitrary: m) auto

lemma ResizeAll_inv: "mgr_inv m \<Longrightarrow> mgr_inv (ResizeAll E c r m)"
proof -
  assume inv: "mgr_inv m"
  have "mgr_inv (m\<lparr>mgr_cols := c, mgr_rows := r\<rparr>)"
    by (rule mgr_inv_cong [OF inv]) simp_all
  then show ?thesis
    unfolding ResizeAll_def
    by (rule foldl_mgr_inv [rotated]) (rule mgr_inv_cong, simp_all add: mgr_frame)
qed

lemma ResizeOne_inv: "mgr_inv m \<Longrightarrow> mgr_inv (ResizeOne E i c r m)"
  by (auto simp: ResizeOne_def mgr_frame split: option.split intro: mgr_inv_cong)

lemma Respawn_inv: "mgr_inv m \<Longrightarrow> mgr_inv (snd (Respawn E i opened m))"
  by (auto simp: Respawn_def case_prod_beta mgr_frame intro: mgr_inv_cong)

lemma CloseAll_inv: "mgr_inv (CloseAll m)"
proof -
  have "mgr_inv (updateTerminalRepliesLocked (m\<lparr>sessions := [], focused := 0\<rparr>))"
    by (simp add: mgr_inv_def placed_def focus_ok_def mgr_frame)
  then show ?thesis
    unfolding CloseAll_def
    by (rule foldl_mgr_inv [rotated]) (rule mgr_inv_cong, simp_all add: mgr_frame)
qed

lemma settings_inv:
  assumes inv: "mgr_inv m"
  shows "mgr_inv (SetSendOutput fn m)" "mgr_inv (SetSendExit fn m)" "mgr_inv (SetAgentStateEndpoint ep m)"
proof -
  have st: "mgr_inv (m\<lparr>mgr_SendOutput := fn\<rparr>)" "mgr_inv (m\<lparr>mgr_SendExit := fn\<rparr>)"
    "mgr_inv (m\<lparr>mgr_agentEndpoint := ep\<rparr>)"
    by (rule mgr_inv_cong [OF inv]; simp)+
  have upd: "mgr_inv (upd_session sid f m)" if "mgr_inv m" "\<And>s. index (f s) = index s" for sid f and m :: "('a, 'b) sessionManager"
    using that by (auto intro: mgr_inv_cong simp: mgr_frame)
  show "mgr_inv (SetSendOutput fn m)"
    unfolding SetSendOutput_def by (rule foldl_mgr_inv [OF _ st(1)]) (simp add: upd setSendOutput_def)
  show "mgr_inv (SetSendExit fn m)"
    unfolding SetSendExit_def by (rule foldl_mgr_inv [OF _ st(2)]) (simp add: upd setSendExit_def)
  show "mgr_inv (SetAgentStateEndpoint ep m)"
    unfolding SetAgentStateEndpoint_def by (rule foldl_mgr_inv [OF _ st(3)]) (simp add: upd)
qed

text \<open>
  The manager's life: its operations, and anything a session does to itself meanwhile (reading,
  exiting, being resized), which touches neither the order nor the indexes. A session is adopted
  when no manager holds it.
\<close>

inductive mgr_step :: "('e, 'cs) emulator \<Rightarrow> ('e, 'cs) sessionManager \<Rightarrow> ('e, 'cs) sessionManager \<Rightarrow> bool"
  for E :: "('e, 'cs) emulator" where
  new: "mgr_step E m (snd (newWithOptions E rnd command ssh d opened m))"
| configured: "mgr_step E m (snd (NewConfigured E rnd command ssh d env opened m))"
| focus: "mgr_step E m (Focus i m)"
| rename: "mgr_step E m (Rename i t m)"
| kill: "mgr_step E m (Kill i m)"
| remove: "mgr_step E m (snd (Remove i m))"
| detach: "mgr_step E m (snd (Detach i m))"
| adopt: "sid \<notin> set (sessions m) \<Longrightarrow> sid < w_nextSession m \<Longrightarrow> mgr_step E m (Adopt (Some sid) i m)"
| move: "Move src dst m = Some m' \<Longrightarrow> mgr_step E m m'"
| resize_one: "mgr_step E m (ResizeOne E i c r m)"
| resize_all: "mgr_step E m (ResizeAll E c r m)"
| respawn: "mgr_step E m (snd (Respawn E i opened m))"
| close_all: "mgr_step E m (CloseAll m)"
| send_output: "mgr_step E m (SetSendOutput fn m)"
| send_exit: "mgr_step E m (SetSendExit fn m)"
| endpoint: "mgr_step E m (SetAgentStateEndpoint ep m)"
| loop_reads: "mgr_step E m (loop_read E k chunk m)"
| loop_commits: "mgr_step E m (loop_commit k m)"
| loop_sends: "mgr_step E m (loop_send k m)"
| loop_errors: "mgr_step E m (loop_error k m)"

lemma upd_run_frame [mgr_frame]:
  "sessions (upd_run k f m) = sessions m" "focused (upd_run k f m) = focused m"
  "w_nextSession (upd_run k f m) = w_nextSession m" "w_sessions (upd_run k f m) = w_sessions m"
  by (simp_all add: upd_run_def)

lemma upd_screen_frame [mgr_frame]:
  "sessions (upd_screen k f m) = sessions m" "focused (upd_screen k f m) = focused m"
  "w_nextSession (upd_screen k f m) = w_nextSession m" "w_sessions (upd_screen k f m) = w_sessions m"
  by (simp_all add: upd_screen_def)

lemma loops_inv:
  assumes "mgr_inv m"
  shows "mgr_inv (loop_read E k chunk m)" "mgr_inv (loop_commit k m)" "mgr_inv (loop_send k m)"
    "mgr_inv (loop_error k m)"
  by (rule mgr_inv_cong [OF assms];
      simp add: loop_read_def loop_commit_def loop_send_def loop_error_def Let_def case_prod_beta mgr_frame
        split: phase.split)+

lemma mgr_step_inv: "mgr_step E m m' \<Longrightarrow> mgr_inv m \<Longrightarrow> mgr_inv m'"
proof (induction rule: mgr_step.induct)
  case (move src dst m m')
  then show ?case using Move_inv [of m src dst] by simp
qed (simp_all add: newWithOptions_facts NewConfigured_facts Focus_inv Rename_inv Kill_inv Remove_inv Detach_inv
      Adopt_inv ResizeOne_inv ResizeAll_inv Respawn_inv CloseAll_inv settings_inv loops_inv)

lemma new_manager_inv: "mgr_inv (NewManagerWithSSH c r out ex ssh)"
  by (simp add: mgr_inv_def placed_def focus_ok_def NewManagerWithSSH_def)

section \<open>The properties\<close>

lemma mgr_steps_inv: "(mgr_step E)\<^sup>*\<^sup>* m m' \<Longrightarrow> mgr_inv m \<Longrightarrow> mgr_inv m'"
  by (induction rule: rtranclp_induct) (auto intro: mgr_step_inv)

text \<open>
  C7. Whatever is done to a session manager, in whatever order, starts that fail included, its
  sessions stay distinct, the session in place k has index k, and the focus is 0 in an empty manager
  and the index of a session otherwise: asking for the focused session never runs out of range.
\<close>

theorem manager_invariant:
  assumes "(mgr_step E)\<^sup>*\<^sup>* (NewManagerWithSSH c r out ex ssh) m"
  shows "distinct (sessions m) \<and>
    map (\<lambda>sid. index (w_sessions m sid)) (sessions m) = map int [0..<length (sessions m)] \<and>
    (if sessions m = [] then focused m = 0 \<and> Focused m = NoSession
     else Focused m = FocusedSession (sessions m ! nat (focused m)) \<and> in_range (focused m) (sessions m))"
proof -
  have inv: "mgr_inv m" using assms new_manager_inv by (rule mgr_steps_inv)
  then have "map (\<lambda>sid. index (w_sessions m sid)) (sessions m) = map int [0..<length (sessions m)]"
    by (intro nth_equalityI) (simp_all add: mgr_inv_def placed_def)
  with inv show ?thesis by (simp add: mgr_inv_def placed_def focus_ok_def Focused_def)
qed

abbreviation demo_manager :: "(unit, unit) sessionManager" where
  "demo_manager \<equiv> snd (newWithOptions answering_emulator [] [] None [] (Some (7, 42))
     (NewManagerWithSSH 80 24 True True None))"

lemma demo_manager_run:
  "(mgr_step answering_emulator)\<^sup>*\<^sup>* (NewManagerWithSSH 80 24 True True None) demo_manager"
  by (rule r_into_rtranclp) (rule mgr_step.new)

theorem manager_invariant_witness:
  "distinct (sessions demo_manager) \<and>
    map (\<lambda>sid. index (w_sessions demo_manager sid)) (sessions demo_manager) =
      map int [0..<length (sessions demo_manager)] \<and>
    (if sessions demo_manager = [] then focused demo_manager = 0 \<and> Focused demo_manager = NoSession
     else Focused demo_manager = FocusedSession (sessions demo_manager ! nat (focused demo_manager)) \<and>
       in_range (focused demo_manager) (sessions demo_manager))"
  by (rule manager_invariant [OF demo_manager_run])

text \<open>
  C28. \<open>Move\<close> never fails on a manager it can meet: it permutes the sessions, the one moved lands at
  the destination clamped to the list, the others keep their order, and the focus stays on the
  session it was on, wherever that ends up.
\<close>

theorem move_keeps_focus:
  assumes "mgr_inv m" and "1 < length (sessions m)" and "in_range src (sessions m)"
  shows "\<exists>m'. Move src dst m = Some m' \<and> mgr_inv m' \<and>
    mset (sessions m') = mset (sessions m) \<and>
    sessions m' ! nat (max 0 (min dst (int (length (sessions m)) - 1))) = sessions m ! nat src \<and>
    remove1 (sessions m ! nat src) (sessions m') = remove1 (sessions m ! nat src) (sessions m) \<and>
    Focused m' = Focused m"
proof -
  define d where "d = max 0 (min dst (int (length (sessions m)) - 1))"
  have b: "nat src < length (sessions m)" "nat d < length (sessions m)"
    using assms by (auto simp: d_def in_range_def)
  have ds: "distinct (sessions m)" using assms(1) by (simp add: mgr_inv_def placed_def)
  have foc: "Focused x = FocusedSession (sessions x ! nat (focused x))"
    if "mgr_inv x" "sessions x \<noteq> []" for x :: "('a, 'b) sessionManager"
    using that by (auto simp: Focused_def mgr_inv_def focus_ok_def)
  have ne: "sessions m \<noteq> []" using assms(2) by auto
  show ?thesis
  proof (cases "src = d")
    case True
    then have "Move src dst m = Some m"
      using assms(2,3) by (auto simp: Move_def Let_def d_def in_range_def max_def min_def split: if_splits)
    with True assms(1) show ?thesis by (auto simp: d_def [symmetric])
  next
    case False
    obtain m' where m': "Move src dst m = Some m'" "mgr_inv m'"
      "sessions m' = move_list (nat src) (nat d) (sessions m)"
      "sessions m' ! nat (focused m') = sessions m ! nat (focused m)"
      using Move_cases [OF assms d_def False] by blast
    note facts = move_list_facts [OF b]
    have "sessions m' \<noteq> []" using facts(2) m'(3) assms(2) by auto
    then have "Focused m' = Focused m" using foc m'(2,4) assms(1) ne by simp
    moreover have "remove1 (sessions m ! nat src) (sessions m') = remove1 (sessions m ! nat src) (sessions m)"
      using remove1_move [OF ds b] m'(3) by simp
    ultimately show ?thesis
      using m' facts by (auto simp: d_def [symmetric])
  qed
qed

text \<open>Managers with two and four sessions.\<close>

fun demo_sessions :: "nat \<Rightarrow> (unit, unit) sessionManager" where
  "demo_sessions 0 = NewManagerWithSSH 80 24 True True None"
| "demo_sessions (Suc n) = snd (newWithOptions answering_emulator [] [] None [] (Some (n, 42)) (demo_sessions n))"

lemma demo_sessions_facts:
  "mgr_inv (demo_sessions n) \<and> sessions (demo_sessions n) = [0..<n] \<and> w_nextSession (demo_sessions n) = n \<and>
   focused (demo_sessions n) = int (n - 1)"
proof (induction n)
  case 0
  show ?case by (simp add: new_manager_inv) (simp add: NewManagerWithSSH_def)
next
  case (Suc n)
  have "w_nextSession (snd (newWithOptions answering_emulator [] [] None [] (Some (n, 42)) (demo_sessions n)))
      = Suc (w_nextSession (demo_sessions n))"
    by (simp add: newWithOptions_def Let_def case_prod_beta mgr_frame)
  with Suc newWithOptions_facts [of "demo_sessions n"] show ?case by simp
qed

theorem move_keeps_focus_witness:
  "\<exists>m'. Move 0 1 (demo_sessions 2) = Some m' \<and> mgr_inv m' \<and>
    mset (sessions m') = mset (sessions (demo_sessions 2)) \<and>
    sessions m' ! nat (max 0 (min 1 (int (length (sessions (demo_sessions 2))) - 1))) = sessions (demo_sessions 2) ! nat 0 \<and>
    remove1 (sessions (demo_sessions 2) ! nat 0) (sessions m') =
      remove1 (sessions (demo_sessions 2) ! nat 0) (sessions (demo_sessions 2)) \<and>
    Focused m' = Focused (demo_sessions 2)"
  by (rule move_keeps_focus) (simp_all only: demo_sessions_facts in_range_def, simp_all)

text \<open>
  C38. A new session is all or nothing: when its process starts, it is appended and has the focus;
  when it does not, the list of sessions is what it was, with every index right, and the session
  made for it is closed for good (its run token has moved on and it counts as exited).
\<close>

theorem new_session_all_or_nothing:
  assumes "mgr_inv m"
  shows "let m' = snd (newWithOptions E rnd command ssh dir opened m) in
    mgr_inv m' \<and>
    (if opened = None
     then sessions m' = sessions m \<and> exited (w_sessions m' (w_nextSession m)) \<and>
       rw (w_sessions m' (w_nextSession m)) = None
     else sessions m' = sessions m @ [w_nextSession m] \<and> Focused m' = FocusedSession (w_nextSession m))"
proof (cases opened)
  case None
  have "exited (w_sessions (SessionClose sid x) sid)" "rw (w_sessions (SessionClose sid x) sid) = None"
    for sid and x :: "('a, 'b) sessionManager"
    by (simp_all add: SessionClose_def Let_def mgr_frame)
  then have "exited (w_sessions (snd (newWithOptions E rnd command ssh dir None m)) (w_nextSession m)) \<and>
      rw (w_sessions (snd (newWithOptions E rnd command ssh dir None m)) (w_nextSession m)) = None"
    by (simp add: newWithOptions_def newWithOptions_failed_def Let_def case_prod_beta begin_frame Start_def)
  then show ?thesis
    using newWithOptions_facts(1,2) [OF assms, of E rnd command ssh dir None] None by (simp add: Let_def)
next
  case (Some a)
  with newWithOptions_facts [OF assms, of E rnd command ssh dir opened] show ?thesis
    by (simp add: Let_def Focused_def in_range_def)
qed

theorem new_session_all_or_nothing_witness:
  "let m' = snd (newWithOptions answering_emulator [] [] None [] None (demo_sessions 2)) in
    mgr_inv m' \<and>
    (if (None :: (nat \<times> int) option) = None
     then sessions m' = sessions (demo_sessions 2) \<and> exited (w_sessions m' (w_nextSession (demo_sessions 2))) \<and>
       rw (w_sessions m' (w_nextSession (demo_sessions 2))) = None
     else sessions m' = sessions (demo_sessions 2) @ [w_nextSession (demo_sessions 2)] \<and>
       Focused m' = FocusedSession (w_nextSession (demo_sessions 2)))"
  by (rule new_session_all_or_nothing) (simp only: demo_sessions_facts)

lemma find_index:
  assumes "placed m"
  shows "List.find (\<lambda>sid. index (w_sessions m sid) = i) (sessions m) =
    (if in_range i (sessions m) then Some (sessions m ! nat i) else None)"
proof (cases "in_range i (sessions m)")
  case True
  then have b: "nat i < length (sessions m)" by (rule in_range_nat)
  have "index (w_sessions m (sessions m ! j)) \<noteq> i" if "j < nat i" for j
    using assms that b by (simp add: placed_def)
  moreover have "index (w_sessions m (sessions m ! nat i)) = i"
    using assms b True by (simp add: placed_def in_range_def)
  ultimately show ?thesis using b True by (auto simp: find_Some_iff)
next
  case False
  then have "index (w_sessions m sid) \<noteq> i" if "sid \<in> set (sessions m)" for sid
    using assms that by (auto simp: placed_def in_range_def in_set_conv_nth)
  with False show ?thesis by (simp add: find_None_iff)
qed

text \<open>
  On a consistent manager an index finds its session: \<open>ByID\<close> gives the session in that place and
  nothing out of range, and removing a place leaves every other session, in order, with the focus on
  a session that is still there (or 0 when none is left).
\<close>

theorem index_finds_session:
  assumes "mgr_inv m"
  shows "ByID i m = (if in_range i (sessions m) then Some (sessions m ! nat i) else None) \<and>
    fst (Remove i m) = in_range i (sessions m) \<and>
    sessions (snd (Remove i m)) = (if in_range i (sessions m) then remove_at (nat i) (sessions m) else sessions m) \<and>
    mgr_inv (snd (Remove i m)) \<and>
    sessions (Kill i m) = (if length (sessions m) \<le> 1 then sessions m else sessions (snd (Remove i m)))"
  using find_index [of m i] Remove_inv [OF assms, of i] Kill_as_Remove [OF assms, of i] assms
  by (simp add: mgr_inv_def ByID_def) (simp add: Remove_def Let_def mgr_frame)

theorem index_finds_session_witness:
  "ByID 1 (demo_sessions 3) = (if in_range 1 (sessions (demo_sessions 3)) then Some (sessions (demo_sessions 3) ! nat 1) else None) \<and>
    fst (Remove 1 (demo_sessions 3)) = in_range 1 (sessions (demo_sessions 3)) \<and>
    sessions (snd (Remove 1 (demo_sessions 3))) =
      (if in_range 1 (sessions (demo_sessions 3)) then remove_at (nat 1) (sessions (demo_sessions 3)) else sessions (demo_sessions 3)) \<and>
    mgr_inv (snd (Remove 1 (demo_sessions 3))) \<and>
    sessions (Kill 1 (demo_sessions 3)) = (if length (sessions (demo_sessions 3)) \<le> 1 then sessions (demo_sessions 3)
      else sessions (snd (Remove 1 (demo_sessions 3))))"
  by (rule index_finds_session) (simp only: demo_sessions_facts)

section \<open>Where the focus does not follow\<close>

text \<open>
  Killing (or removing) a session in front of the focused one moves the focus to the session after
  it, since the focus is an index that is only clamped.
\<close>

lemma kill_before_focus_shifts:
  assumes "mgr_inv m" and "in_range i (sessions m)" and "i < focused m"
    and "focused m < int (length (sessions m)) - 1"
  shows "Focused m = FocusedSession (sessions m ! nat (focused m)) \<and>
    Focused (Kill i m) = FocusedSession (sessions m ! Suc (nat (focused m)))"
proof -
  have r: "0 \<le> i" "i < int (length (sessions m))" "0 \<le> focused m" using assms by (auto simp: in_range_def)
  have len: "length (remove_at (nat i) (sessions m)) = length (sessions m) - 1" using r by simp
  have s: "sessions (Kill i m) = remove_at (nat i) (sessions m)" "focused (Kill i m) = focused m"
    using assms len r by (simp_all add: Kill_def Let_def mgr_frame)
  have "remove_at (nat i) (sessions m) ! nat (focused m) = sessions m ! Suc (nat (focused m))"
    using assms r by (simp add: nth_remove_at)
  moreover have "0 < length (remove_at (nat i) (sessions m))" unfolding len using assms r by linarith
  then have "remove_at (nat i) (sessions m) \<noteq> []" by (rule length_greater_0_conv [THEN iffD1])
  moreover have "sessions m \<noteq> []" using r by auto
  ultimately show ?thesis
    using assms r len by (auto simp: Focused_def s in_range_def)
qed

text \<open>A start that fails moves the focus to the last session, whichever had it before.\<close>

lemma failed_start_moves_focus:
  assumes "mgr_inv m" and "focused m = 0" and "1 < length (sessions m)"
  shows "focused (snd (newWithOptions E rnd command ssh dir None m)) = int (length (sessions m)) - 1"
  using newWithOptions_facts(3) [OF assms(1), of E rnd command ssh dir None] assms(3) by auto

text \<open>
  Other operations can run while a process is being started. With four sessions listed, the fourth
  still starting, two removals and then the failure leave the focus past the end of the list:
  asking for the focused session would stop the program.
\<close>

lemma failure_after_removals_out_of_range:
  "let (sid, m1) = newWithOptions_begin answering_emulator [] [] None [] (demo_sessions 3);
       m2 = snd (Remove 0 (snd (Remove 0 m1)));
       m3 = newWithOptions_failed sid 3 m2
   in sessions m3 = [2] \<and> focused m3 = 2 \<and> Focused m3 = IndexOutOfRange"
proof -
  note d = demo_sessions_facts [of 3]
  define m1 where "m1 = snd (newWithOptions_begin answering_emulator [] [] None [] (demo_sessions 3))"
  have b: "newWithOptions_begin answering_emulator [] [] None [] (demo_sessions 3) = (3, m1)"
    unfolding m1_def using d by (intro prod_eqI) (simp_all add: mgr_frame)
  have m1: "sessions m1 = [0, 1, 2, 3]" using d by (simp add: m1_def mgr_frame upt_rec)
  have rm: "sessions (snd (Remove 0 m)) = tl (sessions m)" if "sessions m \<noteq> []" for m :: "(unit, unit) sessionManager"
    using that by (cases "sessions m") (simp_all add: Remove_def Let_def mgr_frame in_range_def remove_at_def)
  define m2 where "m2 = snd (Remove 0 (snd (Remove 0 m1)))"
  have "sessions m2 = [2, 3]" using m1 rm by (simp add: m2_def)
  then have m3: "sessions (newWithOptions_failed 3 3 m2) = [2]" "focused (newWithOptions_failed 3 3 m2) = 2"
    by (simp_all add: mgr_frame)
  then show ?thesis
    by (simp add: b m2_def [symmetric] Focused_def in_range_def)
qed

text \<open>
  A respawn whose process does not start leaves a session that is neither running nor exited: it has
  no channel, no read loop will ever report its end, and \<open>exited\<close> is false.
\<close>

lemma failed_respawn_looks_alive:
  "let s = w_sessions (snd (SessionRespawn E i c r None w)) i in
   \<not> exited s \<and> rw s = None \<and> processID s = 0 \<and> fst (SessionRespawn E i c r None w) = False"
  by (simp add: SessionRespawn_def Start_def respawn_locked_def upd_session_def Let_def)

end
