(* ===== verification/Json.thy ===== *)
theory Json
  imports GoStrings
begin

text \<open>
  JSON values as Go's \<open>encoding/json\<close> sees them, and what \<open>Unmarshal\<close> does to the fields of a
  struct: a missing field or null leaves the zero value, a value of another type is an error, keys
  match up to case, and of duplicate keys the last one counts. A \<open>json.RawMessage\<close> is a value, or
  \<open>None\<close> for the empty message (a field that is missing): the text itself is not modelled. Values of type \<open>any\<close> that Go
  code passes around are \<open>goval\<close>s.
\<close>

datatype json = JNull | JBool bool | JInt int | JReal bytes | JStr bytes | JArr "json list"
  | JObj "(bytes \<times> json) list"

type_synonym raw = "json option"

text \<open>
  Key folding: ASCII letters without case, and the two other runes that fold to ASCII letters
  (U+017F to s and U+212A to k).
\<close>

definition fold_rune :: "rune \<Rightarrow> rune" where
  "fold_rune r =
     (if 0x41 \<le> r \<and> r \<le> 0x5A then r + 0x20 else if r = 0x17F then 0x73 else if r = 0x212A then 0x6B else r)"

definition same_key :: "bytes \<Rightarrow> bytes \<Rightarrow> bool" where
  "same_key a b \<longleftrightarrow> map fold_rune (runes_of a) = map fold_rune (runes_of b)"

text \<open>Decoding into a struct: the members of the value, or the error that it is not an object.\<close>

definition members :: "json \<Rightarrow> (bytes \<times> json) list option" where
  "members v = (case v of JObj fs \<Rightarrow> Some fs | JNull \<Rightarrow> Some [] | _ \<Rightarrow> None)"

text \<open>
  Decoding one field: every member with its key is decoded into it in turn. \<open>None\<close> is a type error;
  decoding goes on after one, which shows in \<open>field_value\<close>, the value of the field when the error is
  ignored.
\<close>

definition field :: "('a \<Rightarrow> json \<Rightarrow> 'a option) \<Rightarrow> 'a \<Rightarrow> bytes \<Rightarrow> (bytes \<times> json) list \<Rightarrow> 'a option" where
  "field dec zero key fs =
     foldl (\<lambda>acc kv. if same_key (fst kv) key then Option.bind acc (\<lambda>a. dec a (snd kv)) else acc) (Some zero) fs"

definition field_value :: "('a \<Rightarrow> json \<Rightarrow> 'a option) \<Rightarrow> 'a \<Rightarrow> bytes \<Rightarrow> (bytes \<times> json) list \<Rightarrow> 'a" where
  "field_value dec zero key fs =
     foldl (\<lambda>a kv. if same_key (fst kv) key then (case dec a (snd kv) of Some b \<Rightarrow> b | None \<Rightarrow> a) else a) zero fs"

definition dec_str :: "bytes \<Rightarrow> json \<Rightarrow> bytes option" where
  "dec_str a v = (case v of JStr s \<Rightarrow> Some s | JNull \<Rightarrow> Some a | _ \<Rightarrow> None)"

definition dec_bool :: "bool \<Rightarrow> json \<Rightarrow> bool option" where
  "dec_bool a v = (case v of JBool b \<Rightarrow> Some b | JNull \<Rightarrow> Some a | _ \<Rightarrow> None)"

definition dec_int :: "int \<Rightarrow> json \<Rightarrow> int option" where
  "dec_int a v =
     (case v of JInt i \<Rightarrow> if - (2 ^ 63) \<le> i \<and> i < 2 ^ 63 then Some i else None
      | JNull \<Rightarrow> Some a | _ \<Rightarrow> None)"

definition dec_uint64 :: "64 word \<Rightarrow> json \<Rightarrow> 64 word option" where
  "dec_uint64 a v =
     (case v of JInt i \<Rightarrow> if 0 \<le> i \<and> i < 2 ^ 64 then Some (of_int i) else None
      | JNull \<Rightarrow> Some a | _ \<Rightarrow> None)"

fun dec_strs :: "json list \<Rightarrow> bytes list option" where
  "dec_strs [] = Some []"
| "dec_strs (v # vs) =
     (case (dec_str [] v, dec_strs vs) of (Some s, Some ss) \<Rightarrow> Some (s # ss) | _ \<Rightarrow> None)"

definition dec_str_list :: "bytes list \<Rightarrow> json \<Rightarrow> bytes list option" where
  "dec_str_list a v = (case v of JArr vs \<Rightarrow> dec_strs vs | JNull \<Rightarrow> Some [] | _ \<Rightarrow> None)"

text \<open>A \<open>json.RawMessage\<close> field takes any value, null included.\<close>

definition dec_raw :: "raw \<Rightarrow> json \<Rightarrow> raw option" where
  "dec_raw a v = Some (Some v)"

definition dec_raws :: "json list \<Rightarrow> json \<Rightarrow> json list option" where
  "dec_raws a v = (case v of JArr vs \<Rightarrow> Some vs | JNull \<Rightarrow> Some [] | _ \<Rightarrow> None)"

abbreviation str_field :: "string \<Rightarrow> (bytes \<times> json) list \<Rightarrow> bytes option" where
  "str_field key \<equiv> field dec_str [] (ascii key)"

abbreviation int_field :: "string \<Rightarrow> (bytes \<times> json) list \<Rightarrow> int option" where
  "int_field key \<equiv> field dec_int 0 (ascii key)"

abbreviation uint_field :: "string \<Rightarrow> (bytes \<times> json) list \<Rightarrow> 64 word option" where
  "uint_field key \<equiv> field dec_uint64 0 (ascii key)"

abbreviation bool_field :: "string \<Rightarrow> (bytes \<times> json) list \<Rightarrow> bool option" where
  "bool_field key \<equiv> field dec_bool False (ascii key)"

abbreviation strs_field :: "string \<Rightarrow> (bytes \<times> json) list \<Rightarrow> bytes list option" where
  "strs_field key \<equiv> field dec_str_list [] (ascii key)"

section \<open>Values of type any\<close>

datatype goval = GNil | GBool bool | GStr bytes | GUint "64 word" | GBytes bytes
  | GMap "(bytes \<times> goval) list" | GMaps "(bytes \<times> goval) list list" | GOther json

definition go_get :: "(bytes \<times> goval) list \<Rightarrow> string \<Rightarrow> goval" where
  "go_get m key = (case map_of m (ascii key) of Some v \<Rightarrow> v | None \<Rightarrow> GNil)"

section \<open>Facts\<close>

lemma same_key_refl [simp]: "same_key k k"
  by (simp add: same_key_def)

lemma field_Nil [simp]: "field dec zero key [] = Some zero"
  by (simp add: field_def)

lemma field_value_field: "field dec zero key fs = Some a \<Longrightarrow> field_value dec zero key fs = a"
proof -
  have none: "foldl (\<lambda>acc kv. if same_key (fst kv) key then Option.bind acc (\<lambda>a. dec a (snd kv)) else acc) None fs = None"
    for fs by (induction fs) simp_all
  show "field dec zero key fs = Some a \<Longrightarrow> field_value dec zero key fs = a"
    unfolding field_def field_value_def
  proof (induction fs arbitrary: zero)
    case (Cons kv fs)
    show ?case
    proof (cases "same_key (fst kv) key")
      case True
      with Cons none show ?thesis by (cases "dec zero (snd kv)") simp_all
    next
      case False
      with Cons show ?thesis by simp
    qed
  qed simp
qed

text \<open>Comparing ASCII keys.\<close>

lemma runes_of_ascii_Cons: "b < 0x80 \<Longrightarrow> runes_of (b # bs) = unat b # runes_of bs"
  by (simp add: decode_lead_def word_less_nat_alt)

declare runes_of.simps(2) [simp del]

lemmas key_simps = same_key_def fold_rune_def runes_of_ascii_Cons word_less_nat_alt

text \<open>Decoding an object with one member per key.\<close>

definition keys_distinct :: "bytes list \<Rightarrow> bool" where
  "keys_distinct ks \<longleftrightarrow>
     list_all (\<lambda>i. list_all (\<lambda>j. same_key (ks ! i) (ks ! j) = (i = j)) [0..<length ks]) [0..<length ks]"

lemma field_skip:
  "list_all (\<lambda>kv. \<not> same_key (fst kv) key) fs \<Longrightarrow>
   foldl (\<lambda>acc kv. if same_key (fst kv) key then Option.bind acc (\<lambda>a. dec a (snd kv)) else acc) acc fs = acc"
  by (induction fs arbitrary: acc) simp_all

lemma field_one:
  assumes "list_all (\<lambda>kv. \<not> same_key (fst kv) key) fs" and "list_all (\<lambda>kv. \<not> same_key (fst kv) key) gs"
    and "same_key k key"
  shows "field dec zero key (fs @ (k, v) # gs) = dec zero v"
  using assms by (simp add: field_def field_skip)

lemma field_zip:
  assumes d: "keys_distinct ks" and l: "length vs = length ks" and i: "i < length ks"
  shows "field dec zero (ks ! i) (zip ks vs) = dec zero (vs ! i)"
proof -
  have z: "zip ks vs = take i (zip ks vs) @ (ks ! i, vs ! i) # drop (Suc i) (zip ks vs)"
    using id_take_nth_drop [of i "zip ks vs"] i l by simp
  have k: "same_key (ks ! a) (ks ! i) = (a = i)" if "a < length ks" for a
    using d that i by (auto simp: keys_distinct_def list_all_iff)
  have "list_all (\<lambda>kv. \<not> same_key (fst kv) (ks ! i)) (take i (zip ks vs))"
    using i l k by (auto simp: list_all_length)
  moreover have "list_all (\<lambda>kv. \<not> same_key (fst kv) (ks ! i)) (drop (Suc i) (zip ks vs))"
    using i l k by (auto simp: list_all_length)
  moreover have "same_key (ks ! i) (ks ! i)" using k i by simp
  ultimately show ?thesis by (subst z) (rule field_one)
qed

end
