(* ===== verification/Frame.thy ===== *)
theory Frame
  imports GoStrings
begin

text \<open>
  The framing of the attach and control sockets (\<open>src/pkg/localserver/frame.go\<close>): a length in
  four big-endian bytes, a type byte and the body. A connection is the byte string it delivers
  before its end; reading gives a frame and the rest, or the error of \<open>io.ReadFull\<close>.
\<close>

definition MaxFrameSize :: nat where
  "MaxFrameSize = 2 ^ 20"

definition be16 :: "nat \<Rightarrow> bytes" where
  "be16 n = [byte_of (n div 256 mod 256), byte_of (n mod 256)]"

definition be32 :: "nat \<Rightarrow> bytes" where
  "be32 n = [byte_of (n div 16777216 mod 256), byte_of (n div 65536 mod 256),
             byte_of (n div 256 mod 256), byte_of (n mod 256)]"

definition un_be :: "bytes \<Rightarrow> nat" where
  "un_be s = foldl (\<lambda>n b. n * 256 + unat b) 0 s"

datatype frame_error = EndOfFile | UnexpectedEOF | InvalidFrameSize nat

definition WriteFrame :: "byte \<Rightarrow> bytes \<Rightarrow> bytes option" where
  "WriteFrame ty body =
     (if MaxFrameSize < length body + 1 then None
      else Some (be32 (length body + 1) @ [ty] @ body))"

text \<open>\<open>io.ReadFull\<close> for \<open>n\<close> bytes.\<close>

definition read_full :: "nat \<Rightarrow> bytes \<Rightarrow> frame_error + (bytes \<times> bytes)" where
  "read_full n s =
     (if n \<le> length s then Inr (take n s, drop n s)
      else if s = [] then Inl EndOfFile else Inl UnexpectedEOF)"

definition ReadFrame :: "bytes \<Rightarrow> frame_error + (byte \<times> bytes \<times> bytes)" where
  "ReadFrame s =
     (case read_full 4 s of
        Inl e \<Rightarrow> Inl e
      | Inr (hdr, s1) \<Rightarrow>
          (let n = un_be hdr in
           if n = 0 \<or> MaxFrameSize < n then Inl (InvalidFrameSize n)
           else (case read_full n s1 of
                   Inl e \<Rightarrow> Inl e
                 | Inr (buf, s2) \<Rightarrow> Inr (hd buf, tl buf, s2))))"

text \<open>A reader's loop: all frames, and the error that ends it.\<close>

function read_frames :: "bytes \<Rightarrow> (byte \<times> bytes) list \<times> frame_error" where
  "read_frames s =
     (case ReadFrame s of
        Inl e \<Rightarrow> ([], e)
      | Inr (ty, body, rest) \<Rightarrow>
          (if length rest < length s then (let (fs, e) = read_frames rest in ((ty, body) # fs, e))
           else ([], EndOfFile)))"
  by pat_completeness auto
termination by (relation "measure length") auto

declare read_frames.simps [simp del]

section \<open>Big-endian numbers\<close>

lemma length_be [simp]: "length (be16 n) = 2" "length (be32 n) = 4"
  by (simp_all add: be16_def be32_def)

lemma un_be16: "n < 65536 \<Longrightarrow> un_be (be16 n) = n"
proof -
  assume n: "n < 65536"
  then have "n div 256 < 256" by (simp add: less_mult_imp_div_less)
  then have "n div 256 mod 256 * 256 + n mod 256 = n" by simp
  then show ?thesis by (simp add: un_be_def be16_def)
qed

lemma un_be32: "n < 4294967296 \<Longrightarrow> un_be (be32 n) = n"
proof -
  assume n: "n < 4294967296"
  have a: "n = n div 256 * 256 + n mod 256" by simp
  have b: "n div 256 = n div 65536 * 256 + n div 256 mod 256"
    using div_mult_mod_eq [of "n div 256" 256] by (simp add: div_mult2_eq [symmetric])
  have c: "n div 65536 = n div 16777216 * 256 + n div 65536 mod 256"
    using div_mult_mod_eq [of "n div 65536" 256] by (simp add: div_mult2_eq [symmetric])
  have "n div 16777216 < 256" using n by (simp add: less_mult_imp_div_less)
  then have d: "n div 16777216 = n div 16777216 mod 256" by simp
  have "((n div 16777216 mod 256 * 256 + n div 65536 mod 256) * 256 + n div 256 mod 256) * 256 + n mod 256 = n"
    unfolding d [symmetric] unfolding c [symmetric] unfolding b [symmetric] by simp
  then show ?thesis by (simp add: un_be_def be32_def del: mod_less)
qed

section \<open>Round trip\<close>

lemma ReadFrame_written:
  "WriteFrame ty body = Some s \<Longrightarrow> ReadFrame (s @ rest) = Inr (ty, body, rest)"
proof -
  assume w: "WriteFrame ty body = Some s"
  then have len: "length body + 1 \<le> MaxFrameSize" and s: "s = be32 (length body + 1) @ [ty] @ body"
    by (auto simp: WriteFrame_def split: if_splits)
  then have "un_be (be32 (length body + 1)) = length body + 1"
    by (intro un_be32) (simp add: MaxFrameSize_def)
  then show ?thesis
    using len by (simp add: s ReadFrame_def read_full_def)
qed

lemma ReadFrame_shrinks: "ReadFrame s = Inr (ty, body, rest) \<Longrightarrow>
  length s = 5 + length body + length rest \<and> length body < MaxFrameSize"
  by (auto simp: ReadFrame_def read_full_def Let_def split: if_splits)

lemma ReadFrame_cut:
  assumes "WriteFrame ty body = Some s" and "k < length s"
  shows "ReadFrame (take k s) = Inl (if k = 0 \<or> k = 4 then EndOfFile else UnexpectedEOF)"
proof -
  have len: "length body + 1 \<le> MaxFrameSize" and s: "s = be32 (length body + 1) @ [ty] @ body"
    using assms(1) by (auto simp: WriteFrame_def split: if_splits)
  have n: "un_be (be32 (length body + 1)) = length body + 1"
    using len by (intro un_be32) (simp add: MaxFrameSize_def)
  show ?thesis
  proof (cases "k < 4")
    case True
    then show ?thesis using assms(2) by (auto simp: ReadFrame_def read_full_def)
  next
    case False
    then have "take 4 (take k s) = be32 (length body + 1)" "drop 4 (take k s) = take (k - 4) (ty # body)"
      using assms(2) by (simp_all add: s min_def)
    then show ?thesis
      using False assms(2) len n by (auto simp: ReadFrame_def read_full_def s Let_def)
  qed
qed

lemma read_frames_written:
  "WriteFrame ty body = Some s \<Longrightarrow>
   read_frames (s @ rest) = (let (fs, e) = read_frames rest in ((ty, body) # fs, e))"
  using ReadFrame_written [of ty body s rest] ReadFrame_shrinks [of "s @ rest" ty body rest]
  by (subst read_frames.simps) simp

fun write_frames :: "(byte \<times> bytes) list \<Rightarrow> bytes option" where
  "write_frames [] = Some []"
| "write_frames ((ty, body) # fs) =
     (case (WriteFrame ty body, write_frames fs) of (Some s, Some t) \<Rightarrow> Some (s @ t) | _ \<Rightarrow> None)"

lemma read_frames_Nil [simp]: "read_frames [] = ([], EndOfFile)"
  by (subst read_frames.simps) (simp add: ReadFrame_def read_full_def)

lemma read_write_frames: "write_frames fs = Some s \<Longrightarrow> read_frames s = (fs, EndOfFile)"
proof (induction fs arbitrary: s rule: write_frames.induct)
  case (2 ty body fs)
  then obtain a b where "WriteFrame ty body = Some a" "write_frames fs = Some b" "s = a @ b"
    by (auto split: option.splits)
  with 2 show ?case by (simp add: read_frames_written)
qed simp

section \<open>The properties\<close>

text \<open>
  C34. The frames written to a connection are the frames read from it: whatever the types and bodies,
  a reader gets all of them in order and then the end of the stream; a connection that breaks inside
  a frame yields no frame for it, but an end-of-file error.
\<close>

theorem frames_roundtrip:
  assumes "write_frames fs = Some s" and "WriteFrame ty body = Some t" and "k < length t"
  shows "read_frames s = (fs, EndOfFile) \<and>
    ReadFrame (take k t) = Inl (if k = 0 \<or> k = 4 then EndOfFile else UnexpectedEOF) \<and>
    ReadFrame (t @ s) = Inr (ty, body, s)"
  using assms read_write_frames ReadFrame_cut ReadFrame_written by simp

theorem frames_roundtrip_witness:
  "read_frames [0, 0, 0, 2, 7, 0x61] = ([(7, [0x61])], EndOfFile) \<and>
    ReadFrame (take 4 [0, 0, 0, 1, 9]) = Inl (if 4 = (0::nat) \<or> 4 = (4::nat) then EndOfFile else UnexpectedEOF) \<and>
    ReadFrame ([0, 0, 0, 1, 9] @ [0, 0, 0, 2, 7, 0x61]) = Inr (9, [], [0, 0, 0, 2, 7, 0x61])"
  by (rule frames_roundtrip) (simp_all add: WriteFrame_def MaxFrameSize_def be32_def byte_of_def)

lemma be32_un_be: "length s = 4 \<Longrightarrow> be32 (un_be s) = s"
proof -
  assume "length s = 4"
  then obtain a b c d where s: "s = [a, b, c, d]" by (auto simp: length_Suc_conv eval_nat_numeral)
  have lt: "unat x < 256" for x :: byte using unsigned_less [of x] by simp
  define q where "q = (unat a * 256 + unat b) * 256 + unat c"
  have digit: "(x * 256 + y) mod 256 = y" "(x * 256 + y) div 256 = x" if "y < 256" for x y :: nat
    using that by simp_all
  have n: "un_be s = q * 256 + unat d" by (simp add: s un_be_def q_def)
  have "un_be s div 256 = q" "un_be s mod 256 = unat d" unfolding n using digit [OF lt] by blast+
  moreover from this(1) have "un_be s div 65536 = unat a * 256 + unat b" "q mod 256 = unat c"
    using div_mult2_eq [of "un_be s" 256 256] digit [OF lt [of c], of "unat a * 256 + unat b"]
    by (simp_all add: q_def)
  moreover from this(1) have "un_be s div 16777216 = unat a"
    using div_mult2_eq [of "un_be s" 65536 256] digit [OF lt [of b], of "unat a"] by simp
  moreover have "(unat a * 256 + unat b) mod 256 = unat b" using digit [OF lt] by blast
  ultimately show ?thesis using lt by (simp add: be32_def s)
qed

lemma ReadFrame_bounds:
  "(WriteFrame ty body = None \<longleftrightarrow> MaxFrameSize \<le> length body) \<and>
   (case ReadFrame s of
      Inl (InvalidFrameSize n) \<Rightarrow> n = 0 \<or> MaxFrameSize < n
    | Inl _ \<Rightarrow> True
    | Inr (t, b, rest) \<Rightarrow> length b < MaxFrameSize \<and> (\<exists>w. WriteFrame t b = Some w \<and> s = w @ rest))"
proof -
  have "\<exists>w. WriteFrame t b = Some w \<and> s = w @ rest" if r: "ReadFrame s = Inr (t, b, rest)" for t b rest
  proof -
    let ?n = "un_be (take 4 s)"
    have n: "4 \<le> length s" "?n \<noteq> 0" "?n \<le> MaxFrameSize" "?n \<le> length (drop 4 s)"
      and eq: "t = hd (take ?n (drop 4 s))" "b = tl (take ?n (drop 4 s))" "rest = drop ?n (drop 4 s)"
      using r by (auto simp: ReadFrame_def read_full_def Let_def split: if_splits)
    have ne: "take ?n (drop 4 s) \<noteq> []" using n by auto
    then have "t # b = take ?n (drop 4 s)" unfolding eq(1,2) by (rule list.collapse)
    moreover have "length b + 1 = ?n" using eq(2) n by simp
    moreover have "be32 ?n = take 4 s" using n(1) by (intro be32_un_be) simp
    moreover have "s = take 4 s @ take ?n (drop 4 s) @ rest"
      unfolding eq(3) append_take_drop_id by simp
    ultimately show ?thesis
      using n by (simp add: WriteFrame_def)
  qed
  then show ?thesis
    by (auto simp: WriteFrame_def not_less_eq_eq ReadFrame_shrinks split: sum.split frame_error.split)
      (auto simp: ReadFrame_def read_full_def Let_def split: if_splits sum.splits)
qed

text \<open>
  Sizes are bounded on both sides: a body that does not fit \<open>MaxFrameSize\<close> with its type byte is
  refused and nothing is written; and whatever bytes arrive, a frame read has a body below the
  bound, an announced size of zero or above the bound is an error, and every frame read is one that
  \<open>WriteFrame\<close> could have written, followed by the rest of the stream.
\<close>

theorem frame_sizes_bounded:
  "(if MaxFrameSize \<le> length body then WriteFrame ty body = None else WriteFrame ty body \<noteq> None) \<and>
   (case ReadFrame s of
      Inl (InvalidFrameSize n) \<Rightarrow> n = 0 \<or> MaxFrameSize < n
    | Inl _ \<Rightarrow> True
    | Inr (t, b, rest) \<Rightarrow> length b < MaxFrameSize \<and> (\<exists>w. WriteFrame t b = Some w \<and> s = w @ rest))"
  using ReadFrame_bounds [of ty body s] by simp

end
