(* ===== verification/GoPath.thy ===== *)
theory GoPath
  imports GoStrings
begin

text \<open>
  Go's \<open>path/filepath\<close> on Unix: \<open>Clean\<close> and \<open>Rel\<close>, over the components of a path.
\<close>

abbreviation slash :: byte where "slash \<equiv> 0x2F"
abbreviation dot :: bytes where "dot \<equiv> [0x2E]"
abbreviation dotdot :: bytes where "dotdot \<equiv> [0x2E, 0x2E]"

definition rooted :: "bytes \<Rightarrow> bool" where
  "rooted p \<longleftrightarrow> p \<noteq> [] \<and> hd p = slash"

definition clean_step :: "bool \<Rightarrow> bytes list \<Rightarrow> bytes \<Rightarrow> bytes list" where
  "clean_step r acc x =
     (if x = [] \<or> x = dot then acc
      else if x = dotdot then
        (if acc \<noteq> [] \<and> last acc \<noteq> dotdot then butlast acc else if r then acc else acc @ [dotdot])
      else acc @ [x])"

definition clean_parts :: "bytes \<Rightarrow> bytes list" where
  "clean_parts p = foldl (clean_step (rooted p)) [] (split_on slash p)"

definition filepath_Clean :: "bytes \<Rightarrow> bytes" where
  "filepath_Clean p =
     (if rooted p then slash # join_with [slash] (clean_parts p)
      else if clean_parts p = [] then dot else join_with [slash] (clean_parts p))"

fun strip_common :: "bytes list \<Rightarrow> bytes list \<Rightarrow> bytes list \<times> bytes list" where
  "strip_common (x # xs) (y # ys) = (if x = y then strip_common xs ys else (x # xs, y # ys))"
| "strip_common xs ys = (xs, ys)"

text \<open>\<open>Rel\<close>; \<open>None\<close> is its error.\<close>

definition filepath_Rel :: "bytes \<Rightarrow> bytes \<Rightarrow> bytes option" where
  "filepath_Rel base targ =
     (if filepath_Clean targ = filepath_Clean base then Some dot
      else if rooted base \<noteq> rooted targ then None
      else
        (let (up, down) =
           strip_common (clean_parts base)
             (if \<not> rooted targ \<and> clean_parts targ = [] then [dot] else clean_parts targ)
         in if up \<noteq> [] \<and> down \<noteq> [] \<and> hd up = dotdot then None
            else Some (join_with [slash] (map (\<lambda>_. dotdot) up @ down))))"

text \<open>
  The names of sockets: every maximal run of bytes outside \<open>A-Za-z0-9._-\<close> becomes one underscore.
\<close>

definition safe_byte :: "byte \<Rightarrow> bool" where
  "safe_byte b \<longleftrightarrow> byte_in 0x41 0x5A b \<or> byte_in 0x61 0x7A b \<or> byte_in 0x30 0x39 b \<or> b \<in> {0x2E, 0x5F, 0x2D}"

fun sanitize_from :: "bool \<Rightarrow> bytes \<Rightarrow> bytes" where
  "sanitize_from in_run [] = []"
| "sanitize_from in_run (b # bs) =
     (if safe_byte b then b # sanitize_from False bs
      else if in_run then sanitize_from True bs else 0x5F # sanitize_from True bs)"

section \<open>Facts\<close>

lemma sanitize_from_safe: "list_all safe_byte (sanitize_from r v)"
  by (induction v arbitrary: r) (auto simp: safe_byte_def)

lemma sanitize_from_id: "list_all safe_byte v \<Longrightarrow> sanitize_from r v = v"
  by (induction v arbitrary: r) auto

lemma sanitize_from_append:
  "list_all safe_byte w \<Longrightarrow> sanitize_from r (v @ w) = sanitize_from r v @ w"
  by (induction v arbitrary: r) (auto simp: sanitize_from_id)


lemma split_on_no_sep: "x \<in> set (split_on c s) \<Longrightarrow> c \<notin> set x"
proof (induction s arbitrary: x)
  case (Cons b bs)
  then show ?case by (cases "split_on c bs") (auto split: if_splits)
qed simp

lemma foldl_clean_set:
  "(\<And>x. x \<in> set xs \<Longrightarrow> slash \<notin> set x) \<Longrightarrow> (\<And>x. x \<in> set acc \<Longrightarrow> slash \<notin> set x \<and> x \<noteq> [] \<and> x \<noteq> dot) \<Longrightarrow>
   y \<in> set (foldl (clean_step r) acc xs) \<Longrightarrow> slash \<notin> set y \<and> y \<noteq> [] \<and> y \<noteq> dot"
proof (induction xs arbitrary: acc)
  case (Cons x xs)
  have "slash \<notin> set z \<and> z \<noteq> [] \<and> z \<noteq> dot" if "z \<in> set (clean_step r acc x)" for z
    using that Cons.prems(1) [of x] Cons.prems(2) [of z]
    by (auto simp: clean_step_def split: if_splits dest: in_set_butlastD)
  with Cons.IH [of "clean_step r acc x"] Cons.prems(1,3) show ?case by auto
qed auto

lemma clean_parts_ok: "y \<in> set (clean_parts p) \<Longrightarrow> slash \<notin> set y \<and> y \<noteq> [] \<and> y \<noteq> dot"
  unfolding clean_parts_def by (rule foldl_clean_set) (auto dest: split_on_no_sep)

lemma foldl_clean_no_dotdot:
  "dotdot \<notin> set acc \<Longrightarrow> dotdot \<notin> set (foldl (clean_step True) acc xs)"
proof (induction xs arbitrary: acc)
  case (Cons x xs)
  have "dotdot \<notin> set (clean_step True acc x)"
    using Cons.prems by (auto simp: clean_step_def dest: in_set_butlastD)
  with Cons.IH show ?case by simp
qed simp

lemma rooted_no_dotdot: "rooted p \<Longrightarrow> dotdot \<notin> set (clean_parts p)"
  by (simp add: clean_parts_def foldl_clean_no_dotdot)

lemma strip_common_prefix: "(fst (strip_common xs ys) = []) = prefix xs ys"
  by (induction xs ys rule: strip_common.induct) auto

lemma strip_common_snd: "set (snd (strip_common xs ys)) \<subseteq> set ys"
  by (induction xs ys rule: strip_common.induct) auto

lemma strip_common_fst: "set (fst (strip_common xs ys)) \<subseteq> set xs"
  by (induction xs ys rule: strip_common.induct) auto

lemma strip_common_done: "strip_common xs ys = ([], []) \<Longrightarrow> xs = ys"
  by (induction xs ys rule: strip_common.induct) (auto split: if_splits)

lemma strip_common_self [simp]: "strip_common xs xs = ([], [])"
  by (induction xs) auto

text \<open>A relative path made of components goes up iff its first component is \<open>..\<close>.\<close>

lemma join_with_hd: "join_with [slash] (x # xs) = x @ (if xs = [] then [] else slash # join_with [slash] xs)"
  by (cases xs) auto

lemma join_with_dotdot: "(join_with [slash] (x # xs) = dotdot) = (x = dotdot \<and> xs = [])"
proof -
  have "slash \<in> set (join_with [slash] (x # xs))" if "xs \<noteq> []"
    using that by (simp add: join_with_hd)
  then have "xs = []" if "join_with [slash] (x # xs) = dotdot"
    using that by (cases "xs = []") auto
  then show ?thesis by auto
qed

lemma join_with_prefix_dotdot:
  assumes "slash \<notin> set x"
  shows "prefix (dotdot @ [slash]) (join_with [slash] (x # xs)) = (x = dotdot \<and> xs \<noteq> [])"
proof
  assume p: "prefix (dotdot @ [slash]) (join_with [slash] (x # xs))"
  then have ne: "xs \<noteq> []" using assms by (auto simp: prefix_def)
  with p obtain t where t: "x @ slash # join_with [slash] xs = dotdot @ slash # t"
    by (auto simp: join_with_hd prefix_def)
  have "takeWhile (\<lambda>b. b \<noteq> slash) (x @ slash # join_with [slash] xs) = x"
    using assms by (subst takeWhile_append2) auto
  moreover have "takeWhile (\<lambda>b. b \<noteq> slash) (dotdot @ slash # t) = dotdot" by simp
  ultimately have "x = dotdot" using t by simp
  with ne show "x = dotdot \<and> xs \<noteq> []" by simp
qed (auto simp: join_with_hd)

text \<open>Components are recovered from a path.\<close>

lemma split_on_append: "slash \<notin> set x \<Longrightarrow> split_on slash (x @ slash # s) = x # split_on slash s"
  by (induction x) auto

lemma split_on_none: "slash \<notin> set x \<Longrightarrow> split_on slash x = [x]"
  by (induction x) auto

lemma split_join:
  "xs \<noteq> [] \<Longrightarrow> (\<And>x. x \<in> set xs \<Longrightarrow> slash \<notin> set x) \<Longrightarrow> split_on slash (join_with [slash] xs) = xs"
proof (induction xs)
  case (Cons x xs)
  then show ?case by (cases "xs = []") (simp_all add: join_with_hd split_on_append split_on_none)
qed simp

lemma join_with_inj:
  assumes "join_with [slash] xs = join_with [slash] ys"
    and "\<And>x. x \<in> set xs \<Longrightarrow> slash \<notin> set x \<and> x \<noteq> []" and "\<And>y. y \<in> set ys \<Longrightarrow> slash \<notin> set y \<and> y \<noteq> []"
  shows "xs = ys"
proof -
  have ne: "join_with [slash] zs = [] \<Longrightarrow> (\<And>z. z \<in> set zs \<Longrightarrow> z \<noteq> []) \<Longrightarrow> zs = []" for zs
    by (cases zs) (auto simp: join_with_hd)
  show ?thesis
  proof (cases "xs = [] \<or> ys = []")
    case True
    then show ?thesis using assms ne [of xs] ne [of ys] by auto
  next
    case False
    then show ?thesis using assms split_join [of xs] split_join [of ys] by metis
  qed
qed

lemma filepath_Clean_eq:
  "rooted p \<Longrightarrow> rooted q \<Longrightarrow> (filepath_Clean p = filepath_Clean q) = (clean_parts p = clean_parts q)"
  using join_with_inj [of "clean_parts p" "clean_parts q"] clean_parts_ok
  by (auto simp: filepath_Clean_def)

end
