(* ===== verification/Control.thy ===== *)
theory Control
  imports Json Frame GoPath "HOL-Library.AList"
begin

text \<open>
  The control service (\<open>src/pkg/control/service.go\<close>, \<open>protocol.go\<close>, \<open>id.go\<close>): clients that
  authenticate with the owner's token or a delegated grant, send requests, and subscribe to output
  and events. Outside the model, in the record \<open>env\<close>: the backend that carries a method out, the
  text of JSON values, random bytes and symbolic links. Times are nanoseconds given to each
  operation; every call of the backend is logged.
\<close>

declare runes_of.simps(2) [simp del]

section \<open>Data\<close>

record ctl_error =
  err_Code :: bytes
  err_Message :: bytes
  err_Details :: "(bytes \<times> goval) list"

definition NewError :: "string \<Rightarrow> string \<Rightarrow> ctl_error" where
  "NewError code msg = \<lparr>err_Code = ascii code, err_Message = ascii msg, err_Details = []\<rparr>"

record request =
  rq_ID :: bytes
  rq_Method :: bytes
  rq_Params :: raw

record response =
  rs_ID :: bytes
  rs_OK :: bool
  rs_Result :: "json option"
  rs_Error :: "ctl_error option"

record scope =
  CreatedBySubject :: bool
  MaxConnections :: int
  MaxSessions :: int
  AllowedCommands :: "bytes list"
  AllowedCwdRoots :: "bytes list"
  AllowSSH :: bool

text \<open>\<open>permissions\<close>: the nil map of the owner, or the set delegated.\<close>

record grant =
  g_controllerID :: bytes
  g_expires :: int
  g_permissions :: "bytes list option"
  g_scope :: scope
  g_subjectSessionID :: bytes
  g_subjectConnectionID :: bytes

record subscription =
  sub_id :: bytes
  sub_streams :: "bytes list"
  sub_sessions :: "bytes list"

record outbound =
  out_typ :: byte
  out_body :: bytes

record controlClient =
  cl_controllerID :: bytes
  cl_grant :: grant
  cl_send :: "outbound list"
  cl_closed :: bool
  cl_subscriptions :: "(bytes \<times> subscription) list"

record idempotentResult =
  id_method :: bytes
  id_result :: "json option"
  id_err :: "ctl_error option"
  id_expires :: int

record 'b env =
  env_backend :: "bytes \<Rightarrow> raw \<Rightarrow> bytes \<Rightarrow> 'b \<Rightarrow> (ctl_error + goval) \<times> 'b"
  env_any :: "goval \<Rightarrow> json option"
  env_text :: "json \<Rightarrow> bytes"
  env_parse :: "bytes \<Rightarrow> raw"
  env_random :: "nat \<Rightarrow> bytes"
  env_symlinks :: "bytes \<Rightarrow> bytes option"
  env_timestamp :: "int \<Rightarrow> bytes"
  env_pid :: int

record 'b service =
  sv_serverName :: bytes
  sv_serverID :: bytes
  sv_endpoint :: bytes
  sv_token :: bytes
  sv_clients :: "nat list"
  sv_client :: "nat \<Rightarrow> controlClient"
  sv_grants :: "bytes \<rightharpoonup> grant"
  sv_outputAt :: "bytes \<rightharpoonup> int"
  sv_idem :: "bytes \<rightharpoonup> idempotentResult"
  sv_closed :: bool
  sv_backend :: 'b
  sv_calls :: "(bytes \<times> raw \<times> bytes) list"
  sv_random :: nat

definition FrameHello :: byte where "FrameHello = 0x20"
definition FrameWelcome :: byte where "FrameWelcome = 0x21"
definition FrameRequest :: byte where "FrameRequest = 0x22"
definition FrameResponse :: byte where "FrameResponse = 0x23"
definition FrameEvent :: byte where "FrameEvent = 0x24"
definition FrameOutput :: byte where "FrameOutput = 0x25"
definition FrameInput :: byte where "FrameInput = 0x26"
definition FrameAck :: byte where "FrameAck = 0x27"

definition NewID :: "'b env \<Rightarrow> string \<Rightarrow> 'b service \<Rightarrow> bytes \<times> 'b service" where
  "NewID E p s =
     (ascii p @ ascii ''_'' @ hex_encode (env_random E (sv_random s)), s\<lparr>sv_random := Suc (sv_random s)\<rparr>)"

definition call_backend :: "'b env \<Rightarrow> bytes \<Rightarrow> raw \<Rightarrow> bytes \<Rightarrow> 'b service \<Rightarrow> (ctl_error + goval) \<times> 'b service" where
  "call_backend E m p c s =
     (let (r, b) = env_backend E m p c (sv_backend s)
      in (r, s\<lparr>sv_backend := b, sv_calls := sv_calls s @ [(m, p, c)]\<rparr>))"

definition json_obj :: "(string \<times> json) list \<Rightarrow> json" where
  "json_obj kvs = JObj (map (\<lambda>(k, v). (ascii k, v)) kvs)"

section \<open>Sending to a client\<close>

definition queue_size :: nat where "queue_size = 256"

definition enqueue :: "byte \<Rightarrow> bytes \<Rightarrow> controlClient \<Rightarrow> bool \<times> controlClient" where
  "enqueue t body c =
     (if length (cl_send c) < queue_size
      then (True, c\<lparr>cl_send := cl_send c @ [\<lparr>out_typ = t, out_body = body\<rparr>]\<rparr>)
      else (False, c))"

text \<open>
  The JSON of messages. \<open>None\<close> is a value \<open>Marshal\<close> cannot encode, whose error the code ignores: the
  frame then has an empty body.
\<close>

definition opt_any :: "'b env \<Rightarrow> string \<Rightarrow> (bytes \<times> goval) list \<Rightarrow> (string \<times> json) list option" where
  "opt_any E key m =
     (if m = [] then Some [] else (case env_any E (GMap m) of Some v \<Rightarrow> Some [(key, v)] | None \<Rightarrow> None))"

definition error_json :: "'b env \<Rightarrow> ctl_error \<Rightarrow> json option" where
  "error_json E e =
     (case opt_any E ''details'' (err_Details e) of
        None \<Rightarrow> None
      | Some d \<Rightarrow> Some (json_obj ([(''code'', JStr (err_Code e)), (''message'', JStr (err_Message e))] @ d)))"

definition response_json :: "'b env \<Rightarrow> response \<Rightarrow> json option" where
  "response_json E r =
     (let head = [(''id'', JStr (rs_ID r)), (''ok'', JBool (rs_OK r))] @
            (case rs_Result r of Some v \<Rightarrow> [(''result'', v)] | None \<Rightarrow> [])
      in case rs_Error r of
           None \<Rightarrow> Some (json_obj head)
         | Some e \<Rightarrow>
             (case error_json E e of None \<Rightarrow> None | Some v \<Rightarrow> Some (json_obj (head @ [(''error'', v)]))))"

definition body_of :: "'b env \<Rightarrow> json option \<Rightarrow> bytes" where
  "body_of E v = (case v of Some j \<Rightarrow> env_text E j | None \<Rightarrow> [])"

record event =
  ev_Event :: bytes
  ev_EventID :: bytes
  ev_Timestamp :: bytes
  ev_SessionID :: bytes
  ev_Generation :: "64 word"
  ev_Data :: "(bytes \<times> goval) list"

definition event_json :: "'b env \<Rightarrow> event \<Rightarrow> json option" where
  "event_json E e =
     (case opt_any E ''data'' (ev_Data e) of
        None \<Rightarrow> None
      | Some d \<Rightarrow> Some (json_obj (
          [(''event'', JStr (ev_Event e)), (''eventId'', JStr (ev_EventID e)), (''timestamp'', JStr (ev_Timestamp e))] @
          (if ev_SessionID e = [] then [] else [(''sessionId'', JStr (ev_SessionID e))]) @
          (if ev_Generation e = 0 then [] else [(''generation'', JInt (uint (ev_Generation e)))]) @ d)))"

definition upd_client :: "nat \<Rightarrow> (controlClient \<Rightarrow> controlClient) \<Rightarrow> 'b service \<Rightarrow> 'b service" where
  "upd_client cid f s = s\<lparr>sv_client := (sv_client s)(cid := f (sv_client s cid))\<rparr>"

definition respond_client :: "'b env \<Rightarrow> response \<Rightarrow> controlClient \<Rightarrow> controlClient" where
  "respond_client E r c =
     (let (sent, c1) = enqueue FrameResponse (body_of E (response_json E r)) c
      in if sent then c1 else c1\<lparr>cl_closed := True\<rparr>)"

definition respond :: "'b env \<Rightarrow> nat \<Rightarrow> response \<Rightarrow> 'b service \<Rightarrow> 'b service" where
  "respond E cid r s = upd_client cid (respond_client E r) s"

section \<open>Authentication\<close>

definition secureEqual :: "bytes \<Rightarrow> bytes \<Rightarrow> bool" where
  "secureEqual a b = (if length a \<noteq> length b then False else a = b)"

definition no_scope :: scope where
  "no_scope = \<lparr>CreatedBySubject = False, MaxConnections = 0, MaxSessions = 0, AllowedCommands = [],
     AllowedCwdRoots = [], AllowSSH = False\<rparr>"

definition authenticate :: "int \<Rightarrow> 'b service \<Rightarrow> bytes \<Rightarrow> bytes \<Rightarrow> grant option" where
  "authenticate now s token controllerID =
     (if secureEqual token (sv_token s)
      then Some \<lparr>g_controllerID = controllerID, g_expires = 0, g_permissions = None, g_scope = no_scope,
                 g_subjectSessionID = [], g_subjectConnectionID = []\<rparr>
      else (case sv_grants s token of
              None \<Rightarrow> None
            | Some g \<Rightarrow> if g_expires g < now then None else Some g))"

record hello =
  h_Protocol :: bytes
  h_Version :: int
  h_Server :: bytes
  h_Token :: bytes
  h_Resume :: bytes

definition decode_hello :: "raw \<Rightarrow> hello option" where
  "decode_hello v =
     (case Option.bind v members of
        None \<Rightarrow> None
      | Some fs \<Rightarrow>
          (case (str_field ''protocol'' fs, int_field ''version'' fs, str_field ''server'' fs,
                 str_field ''token'' fs, str_field ''resumeControllerId'' fs,
                 str_field ''clientName'' fs, str_field ''clientVersion'' fs, strs_field ''capabilities'' fs) of
             (Some p, Some n, Some sv, Some t, Some r, Some _, Some _, Some _) \<Rightarrow>
               Some \<lparr>h_Protocol = p, h_Version = n, h_Server = sv, h_Token = t, h_Resume = r\<rparr>
           | _ \<Rightarrow> None))"

definition Capabilities :: "bytes list" where
  "Capabilities = map ascii [''binary-input'', ''binary-output'', ''output-replay'', ''agent-state'',
     ''session-await'', ''delegation'']"

definition welcome_json :: "'b env \<Rightarrow> bytes \<Rightarrow> 'b service \<Rightarrow> json" where
  "welcome_json E ctl s =
     json_obj [(''protocol'', JStr (ascii ''multicrum-control'')), (''version'', JInt 1),
       (''serverId'', JStr (sv_serverID s)), (''serverName'', JStr (sv_serverName s)),
       (''controllerId'', JStr ctl), (''ownerPid'', JInt (env_pid E)),
       (''capabilities'', JArr (map JStr Capabilities)),
       (''limits'', json_obj [(''maxFrameBytes'', JInt (int MaxFrameSize)), (''maxSessions'', JInt 32),
          (''replayBytesPerSession'', JInt (256 * 1024))])]"

text \<open>
  The handshake of \<open>serve\<close>: what the first frame leads to. A dropped connection gets no answer, a
  refused one the frame given and is closed, a welcomed one is registered under the number \<open>cid\<close> and
  gets its welcome frame.
\<close>

datatype handshake = Dropped | Refused bytes | Welcomed bytes

definition writeHandshakeError :: "'b env \<Rightarrow> string \<Rightarrow> handshake" where
  "writeHandshakeError E message =
     Refused (body_of E (response_json E \<lparr>rs_ID = [], rs_OK = False, rs_Result = None,
       rs_Error = Some (NewError ''permission_denied'' message)\<rparr>))"

definition serve_hello :: "'b env \<Rightarrow> int \<Rightarrow> nat \<Rightarrow> byte \<Rightarrow> bytes \<Rightarrow> 'b service \<Rightarrow> handshake \<times> 'b service" where
  "serve_hello E now cid t body s =
     (if t \<noteq> FrameHello then (Dropped, s)
      else
        (case decode_hello (env_parse E body) of
           None \<Rightarrow> (writeHandshakeError E ''incompatible control handshake'', s)
         | Some h \<Rightarrow>
             (if h_Protocol h \<noteq> ascii ''multicrum-control'' \<or> h_Version h \<noteq> 1 \<or> h_Server h \<noteq> sv_serverName s
              then (writeHandshakeError E ''incompatible control handshake'', s)
              else
                (let (ctl, s1) = (if h_Resume h = [] then NewID E ''ctl'' s else (h_Resume h, s)) in
                 case authenticate now s1 (h_Token h) ctl of
                   None \<Rightarrow> (writeHandshakeError E ''authentication failed'', s1)
                 | Some g \<Rightarrow>
                     (Welcomed (env_text E (welcome_json E (g_controllerID g) s1)),
                      s1\<lparr>sv_clients := sv_clients s1 @ [cid],
                         sv_client := (sv_client s1)(cid :=
                           \<lparr>cl_controllerID = g_controllerID g, cl_grant = g, cl_send = [], cl_closed = False,
                            cl_subscriptions = []\<rparr>)\<rparr>)))))"

definition disconnect :: "nat \<Rightarrow> 'b service \<Rightarrow> 'b service" where
  "disconnect cid s =
     (upd_client cid (\<lambda>c. c\<lparr>cl_closed := True\<rparr>) s)\<lparr>sv_clients := filter (\<lambda>i. i \<noteq> cid) (sv_clients s)\<rparr>"

text \<open>\<open>Close\<close>: the connections are closed; the endpoint's file and listener are outside the model.\<close>

definition Close :: "'b service \<Rightarrow> 'b service" where
  "Close s =
     (if sv_closed s then s
      else s\<lparr>sv_closed := True,
             sv_client := (\<lambda>i. if i \<in> set (sv_clients s) then (sv_client s i)\<lparr>cl_closed := True\<rparr> else sv_client s i)\<rparr>)"

text \<open>\<open>NewService\<close>.\<close>

definition NewService :: "'b env \<Rightarrow> bytes \<Rightarrow> bytes \<Rightarrow> bytes \<Rightarrow> 'b \<Rightarrow> 'b service" where
  "NewService E name endpoint token b =
     \<lparr>sv_serverName = name, sv_serverID = ascii ''srv_'' @ hex_encode (env_random E 0), sv_endpoint = endpoint,
      sv_token = token, sv_clients = [],
      sv_client = (\<lambda>_. \<lparr>cl_controllerID = [], cl_grant = \<lparr>g_controllerID = [], g_expires = 0, g_permissions = None,
         g_scope = no_scope, g_subjectSessionID = [], g_subjectConnectionID = []\<rparr>, cl_send = [], cl_closed = False,
         cl_subscriptions = []\<rparr>),
      sv_grants = Map.empty, sv_outputAt = Map.empty, sv_idem = Map.empty, sv_closed = False,
      sv_backend = b, sv_calls = [], sv_random = 1\<rparr>"

section \<open>What a delegated client may do\<close>

definition createdBy :: "(bytes \<times> goval) list \<Rightarrow> bytes \<Rightarrow> bool" where
  "createdBy m controllerID \<longleftrightarrow> go_get m ''createdBy'' = GStr controllerID"

definition list_of :: "goval \<Rightarrow> string \<Rightarrow> (bytes \<times> goval) list list option" where
  "list_of result key =
     (case result of
        GMap payload \<Rightarrow> (case go_get payload key of GMaps ms \<Rightarrow> Some ms | _ \<Rightarrow> None)
      | _ \<Rightarrow> None)"

definition created_count :: "string \<Rightarrow> string \<Rightarrow> 'b env \<Rightarrow> bytes \<Rightarrow> 'b service \<Rightarrow> int \<times> 'b service" where
  "created_count method key E controllerID s =
     (let (r, s1) = call_backend E (ascii method) (Some (JObj [])) controllerID s in
      case r of
        Inl _ \<Rightarrow> (0, s1)
      | Inr result \<Rightarrow>
          (case list_of result key of
             None \<Rightarrow> (0, s1)
           | Some ms \<Rightarrow> (int (length (filter (\<lambda>m. createdBy m controllerID) ms)), s1)))"

definition createdConnectionCount :: "'b env \<Rightarrow> bytes \<Rightarrow> 'b service \<Rightarrow> int \<times> 'b service" where
  "createdConnectionCount = created_count ''connection.list'' ''connections''"

definition createdSessionCount :: "'b env \<Rightarrow> bytes \<Rightarrow> 'b service \<Rightarrow> int \<times> 'b service" where
  "createdSessionCount = created_count ''session.list'' ''sessions''"

definition connectionCreatedBy :: "'b env \<Rightarrow> bytes \<Rightarrow> bytes \<Rightarrow> 'b service \<Rightarrow> bool \<times> 'b service" where
  "connectionCreatedBy E connectionID controllerID s =
     (let (r, s1) = call_backend E (ascii ''connection.list'') (Some (JObj [])) controllerID s in
      case r of
        Inl _ \<Rightarrow> (False, s1)
      | Inr result \<Rightarrow>
          (case list_of result ''connections'' of
             None \<Rightarrow> (False, s1)
           | Some ms \<Rightarrow>
               ((case List.find (\<lambda>m. go_get m ''connectionId'' = GStr connectionID) ms of
                   None \<Rightarrow> False
                 | Some m \<Rightarrow> createdBy m controllerID), s1)))"

definition session_ref :: "bytes \<Rightarrow> raw" where
  "session_ref sid = Some (json_obj [(''sessionId'', JStr sid)])"

definition session_of :: "goval \<Rightarrow> (bytes \<times> goval) list option" where
  "session_of result =
     (case result of
        GMap payload \<Rightarrow> (case go_get payload ''session'' of GMap m \<Rightarrow> Some m | _ \<Rightarrow> None)
      | _ \<Rightarrow> None)"

definition sessionCreatedBy :: "'b env \<Rightarrow> bytes \<Rightarrow> bytes \<Rightarrow> 'b service \<Rightarrow> bool \<times> 'b service" where
  "sessionCreatedBy E sid controllerID s =
     (let (r, s1) = call_backend E (ascii ''session.get'') (session_ref sid) controllerID s in
      case r of
        Inl _ \<Rightarrow> (False, s1)
      | Inr result \<Rightarrow>
          ((case session_of result of None \<Rightarrow> False | Some m \<Rightarrow> createdBy m controllerID), s1))"

text \<open>The loop over the sessions of a subscription: each is the subject or of the client's making.\<close>

fun all_sessions_own :: "'b env \<Rightarrow> grant \<Rightarrow> bytes \<Rightarrow> bytes list \<Rightarrow> 'b service \<Rightarrow> bool \<times> 'b service" where
  "all_sessions_own E g ctl [] s = (True, s)"
| "all_sessions_own E g ctl (sid # sids) s =
     (if sid = g_subjectSessionID g then all_sessions_own E g ctl sids s
      else
        (let (own, s1) = sessionCreatedBy E sid ctl s
         in if own then all_sessions_own E g ctl sids s1 else (False, s1)))"

text \<open>\<open>SubscriptionRequest\<close>: \<open>from\<close> is a Go map, kept as the list of its entries.\<close>

definition dec_from :: "json \<Rightarrow> (64 word \<times> 64 word) option" where
  "dec_from v =
     (case members v of
        None \<Rightarrow> None
      | Some fs \<Rightarrow>
          (case (uint_field ''generation'' fs, uint_field ''sequence'' fs) of
             (Some g, Some q) \<Rightarrow> Some (g, q)
           | _ \<Rightarrow> None))"

type_synonym from_map = "(bytes \<times> 64 word \<times> 64 word) list"

fun dec_from_map :: "from_map \<Rightarrow> (bytes \<times> json) list \<Rightarrow> from_map option" where
  "dec_from_map m [] = Some m"
| "dec_from_map m ((k, v) # kvs) =
     (case dec_from v of None \<Rightarrow> None | Some p \<Rightarrow> dec_from_map (AList.update k p m) kvs)"

definition dec_froms :: "from_map \<Rightarrow> json \<Rightarrow> from_map option" where
  "dec_froms m v = (case v of JNull \<Rightarrow> Some [] | JObj kvs \<Rightarrow> dec_from_map m kvs | _ \<Rightarrow> None)"

record subscription_request =
  sr_Streams :: "bytes list"
  sr_SessionIDs :: "bytes list"
  sr_From :: from_map

definition decode_subscription :: "raw \<Rightarrow> subscription_request option" where
  "decode_subscription params =
     (case Option.bind params members of
        None \<Rightarrow> None
      | Some fs \<Rightarrow>
          (case (strs_field ''streams'' fs, strs_field ''sessionIds'' fs, field dec_froms [] (ascii ''from'') fs) of
             (Some st, Some ss, Some fr) \<Rightarrow> Some \<lparr>sr_Streams = st, sr_SessionIDs = ss, sr_From = fr\<rparr>
           | _ \<Rightarrow> None))"

definition decode_reference :: "raw \<Rightarrow> (bytes \<times> bytes) option" where
  "decode_reference params =
     (case Option.bind params members of
        None \<Rightarrow> None
      | Some fs \<Rightarrow>
          (case (str_field ''sessionId'' fs, str_field ''connectionId'' fs) of
             (Some sid, Some con) \<Rightarrow> Some (sid, con)
           | _ \<Rightarrow> None))"

definition is_method :: "bytes \<Rightarrow> string list \<Rightarrow> bool" where
  "is_method m names \<longleftrightarrow> m \<in> set (map ascii names)"

definition delegatedObjectAllowed ::
  "'b env \<Rightarrow> grant \<Rightarrow> bytes \<Rightarrow> bytes \<Rightarrow> raw \<Rightarrow> 'b service \<Rightarrow> bool \<times> 'b service" where
  "delegatedObjectAllowed E g ctl method params s =
     (if \<not> CreatedBySubject (g_scope g) then (True, s)
      else if is_method method [''server.get'', ''connection.list'', ''session.list'', ''connection.create''] then
        (if method = ascii ''connection.create'' \<and> 0 < MaxConnections (g_scope g)
         then (let (n, s1) = createdConnectionCount E ctl s in (n < MaxConnections (g_scope g), s1))
         else (True, s))
      else if method = ascii ''subscribe'' then
        (case decode_subscription params of
           None \<Rightarrow> (False, s)
         | Some rq \<Rightarrow>
             (let (ok, s1) = all_sessions_own E g ctl (sr_SessionIDs rq) s in (ok \<and> sr_SessionIDs rq \<noteq> [], s1)))
      else
        (case decode_reference params of
           None \<Rightarrow> (False, s)
         | Some (sid, con) \<Rightarrow>
             (if has_prefix method (ascii ''session.'') then
                (if method = ascii ''session.create''
                 then (if con = g_subjectConnectionID g then (True, s) else connectionCreatedBy E con ctl s)
                 else if sid = [] then (False, s)
                 else if sid = g_subjectSessionID g then (True, s)
                 else sessionCreatedBy E sid ctl s)
              else if has_prefix method (ascii ''connection.'') then
                (if con = [] then (False, s) else connectionCreatedBy E con ctl s)
              else (False, s))))"

definition withinRoot :: "'b env \<Rightarrow> bytes \<Rightarrow> bytes \<Rightarrow> bool" where
  "withinRoot E path root =
     (case env_symlinks E path of
        None \<Rightarrow> False
      | Some realPath \<Rightarrow>
          (case env_symlinks E root of
             None \<Rightarrow> False
           | Some realRoot \<Rightarrow>
               (case filepath_Rel realRoot realPath of
                  None \<Rightarrow> False
                | Some relative \<Rightarrow>
                    relative = dot \<or> (relative \<noteq> dotdot \<and> \<not> has_prefix relative (dotdot @ [slash])))))"

text \<open>The command, directory and backend kind of \<open>session.create\<close>.\<close>

definition decode_create :: "raw \<Rightarrow> (bytes list \<times> bytes \<times> bytes) option" where
  "decode_create params =
     (case Option.bind params members of
        None \<Rightarrow> None
      | Some fs \<Rightarrow>
          (case (strs_field ''cmd'' fs, str_field ''cwd'' fs,
                 field (\<lambda>a v. Option.bind (members v) (field dec_str a (ascii ''kind''))) [] (ascii ''backend'') fs) of
             (Some c, Some d, Some k) \<Rightarrow> Some (c, d, k)
           | _ \<Rightarrow> None))"

definition create_limits :: "'b env \<Rightarrow> scope \<Rightarrow> bytes list \<Rightarrow> bytes \<Rightarrow> bytes \<Rightarrow> bool" where
  "create_limits E sc cmd cwd kind \<longleftrightarrow>
     (if kind = ascii ''ssh'' \<and> \<not> AllowSSH sc then False
      else if AllowedCommands sc \<noteq> [] \<and> \<not> list_ex (\<lambda>c. hd cmd = c) (AllowedCommands sc) then False
      else if cwd \<noteq> [] \<and> AllowedCwdRoots sc \<noteq> [] \<and> \<not> list_ex (withinRoot E cwd) (AllowedCwdRoots sc) then False
      else True)"

definition permission_of :: "bytes \<Rightarrow> bytes" where
  "permission_of method = (if method = ascii ''subscribe'' then ascii ''session.subscribe'' else method)"

definition allowed :: "'b env \<Rightarrow> nat \<Rightarrow> bytes \<Rightarrow> raw \<Rightarrow> 'b service \<Rightarrow> bool \<times> 'b service" where
  "allowed E cid method params s =
     (let c = sv_client s cid; g = cl_grant c; sc = g_scope g in
      case g_permissions g of
        None \<Rightarrow> (True, s)
      | Some perms \<Rightarrow>
          (if permission_of method \<notin> set perms then (False, s)
           else
             (let (ok, s1) = delegatedObjectAllowed E g (cl_controllerID c) method params s in
              if \<not> ok then (False, s1)
              else if method \<noteq> ascii ''session.create'' then (True, s1)
              else
                (case decode_create params of
                   None \<Rightarrow> (False, s1)
                 | Some (cmd, cwd, kind) \<Rightarrow>
                     (if cmd = [] then (False, s1)
                      else if 0 < MaxSessions sc then
                        (let (n, s2) = createdSessionCount E (cl_controllerID c) s1 in
                         if MaxSessions sc \<le> n then (False, s2) else (create_limits E sc cmd cwd kind, s2))
                      else (create_limits E sc cmd cwd kind, s1))))))"

end
