(* ===== verification/ControlRun.thy ===== *)
theory ControlRun
  imports Control
begin

text \<open>
  The requests of a control client (\<open>src/pkg/control/service.go\<close>): subscriptions and their replay,
  delegation, waiting, input and output frames, idempotency, and the dispatch of \<open>handleRequest\<close>.
\<close>

text \<open>\<open>mustJSON\<close>: a value that cannot be encoded gives the empty message.\<close>

definition mustJSON :: "'b env \<Rightarrow> (string \<times> goval) list \<Rightarrow> raw" where
  "mustJSON E kvs = env_any E (GMap (map (\<lambda>(k, v). (ascii k, v)) kvs))"

definition gomap :: "(string \<times> goval) list \<Rightarrow> goval" where
  "gomap kvs = GMap (map (\<lambda>(k, v). (ascii k, v)) kvs)"

text \<open>\<open>decodeParams\<close>: an empty message counts as an empty object.\<close>

definition params_of :: "raw \<Rightarrow> raw" where
  "params_of params = (case params of None \<Rightarrow> Some (JObj []) | Some v \<Rightarrow> Some v)"

definition invalid_params :: ctl_error where
  "invalid_params = NewError ''invalid_argument'' ''invalid params''"

section \<open>Output and events\<close>

definition output_header :: "'b env \<Rightarrow> int \<Rightarrow> bytes \<Rightarrow> bytes \<Rightarrow> 64 word \<Rightarrow> 64 word \<Rightarrow> bytes \<Rightarrow> json" where
  "output_header E now sub sid gen seq data =
     json_obj [(''subscriptionId'', JStr sub), (''sessionId'', JStr sid), (''generation'', JInt (uint gen)),
       (''sequence'', JInt (uint seq)), (''length'', JInt (int (length data))),
       (''timestamp'', JStr (env_timestamp E now))]"

text \<open>The layout of binary frames: the length of the header, the header, the data.\<close>

definition with_header :: "bytes \<Rightarrow> bytes \<Rightarrow> bytes option" where
  "with_header header data =
     (if 65535 < length header then None else Some (be16 (length header) @ header @ data))"

definition sendOutput ::
  "'b env \<Rightarrow> int \<Rightarrow> nat \<Rightarrow> bytes \<Rightarrow> bytes \<Rightarrow> 64 word \<Rightarrow> 64 word \<Rightarrow> bytes \<Rightarrow> 'b service \<Rightarrow> 'b service" where
  "sendOutput E now cid sub sid gen seq data s =
     (case with_header (env_text E (output_header E now sub sid gen seq data)) data of
        None \<Rightarrow> s
      | Some body \<Rightarrow>
          (let (sent, c) = enqueue FrameOutput body (sv_client s cid) in
           if sent then upd_client cid (\<lambda>_. c) s
           else
             (let (eid, s1) = NewID E ''evt'' s;
                  gap = \<lparr>ev_Event = ascii ''session.outputGap'', ev_EventID = eid,
                         ev_Timestamp = env_timestamp E now, ev_SessionID = sid, ev_Generation = gen,
                         ev_Data = [(ascii ''availableSequence'', GUint (seq + of_nat (length data)))]\<rparr>
              in upd_client cid (\<lambda>c. snd (enqueue FrameEvent (body_of E (event_json E gap)) c)) s1)))"

definition outputKey :: "bytes \<Rightarrow> 64 word \<Rightarrow> bytes" where
  "outputKey sid gen = sid @ [slash] @ decimal (unat gen)"

definition wants_output :: "bytes \<Rightarrow> subscription \<Rightarrow> bool" where
  "wants_output sid sub \<longleftrightarrow>
     ascii ''session.output'' \<in> set (sub_streams sub) \<and> (sub_sessions sub = [] \<or> sid \<in> set (sub_sessions sub))"

definition publish_client ::
  "'b env \<Rightarrow> int \<Rightarrow> bytes \<Rightarrow> 64 word \<Rightarrow> 64 word \<Rightarrow> bytes \<Rightarrow> 'b service \<Rightarrow> nat \<Rightarrow> 'b service" where
  "publish_client E now sid gen seq data s cid =
     foldl (\<lambda>t sub. if wants_output sid (snd sub) then sendOutput E now cid (sub_id (snd sub)) sid gen seq data t else t)
       s (cl_subscriptions (sv_client s cid))"

definition PublishOutput ::
  "'b env \<Rightarrow> int \<Rightarrow> bytes \<Rightarrow> 64 word \<Rightarrow> 64 word \<Rightarrow> bytes \<Rightarrow> 'b service \<Rightarrow> 'b service" where
  "PublishOutput E now sid gen seq data s =
     foldl (publish_client E now sid gen seq data)
       (s\<lparr>sv_outputAt := (sv_outputAt s)(outputKey sid gen \<mapsto> now)\<rparr>) (sv_clients s)"

definition wants_event :: "bytes \<Rightarrow> bytes \<Rightarrow> subscription \<Rightarrow> bool" where
  "wants_event stream sid sub \<longleftrightarrow>
     stream \<in> set (sub_streams sub) \<and> (sid = [] \<or> sub_sessions sub = [] \<or> sid \<in> set (sub_sessions sub))"

definition event_client :: "bytes \<Rightarrow> bytes \<Rightarrow> bytes \<Rightarrow> controlClient \<Rightarrow> controlClient" where
  "event_client stream sid body c =
     foldl (\<lambda>d sub. if wants_event stream sid (snd sub) then snd (enqueue FrameEvent body d) else d)
       c (cl_subscriptions c)"

definition fill_event :: "'b env \<Rightarrow> int \<Rightarrow> event \<Rightarrow> 'b service \<Rightarrow> event \<times> 'b service" where
  "fill_event E now e s =
     (let (eid, s1) = (if ev_EventID e = [] then NewID E ''evt'' s else (ev_EventID e, s))
      in (e\<lparr>ev_EventID := eid,
            ev_Timestamp := (if ev_Timestamp e = [] then env_timestamp E now else ev_Timestamp e)\<rparr>, s1))"

definition PublishEvent :: "'b env \<Rightarrow> int \<Rightarrow> bytes \<Rightarrow> event \<Rightarrow> 'b service \<Rightarrow> 'b service" where
  "PublishEvent E now stream e s =
     (let (e1, s1) = fill_event E now e s;
          body = body_of E (event_json E e1)
      in foldl (\<lambda>t cid. upd_client cid (event_client stream (ev_SessionID e1) body) t) s1 (sv_clients s1))"

section \<open>Subscriptions\<close>

text \<open>
  One entry of \<open>from\<close>. Go visits the entries of the map in no fixed order; the model visits them
  in the order of the list.
\<close>

definition replay_one :: "'b env \<Rightarrow> int \<Rightarrow> nat \<Rightarrow> bytes \<Rightarrow> 'b service \<Rightarrow> bytes \<times> 64 word \<times> 64 word \<Rightarrow> 'b service" where
  "replay_one E now cid subid s entry =
     (let (sid, gen, seq) = entry;
          (r, s1) = call_backend E (ascii ''session.replay'')
            (mustJSON E [(''sessionId'', GStr sid), (''generation'', GUint gen), (''sequence'', GUint seq)])
            (cl_controllerID (sv_client s cid)) s
      in case r of
           Inl e \<Rightarrow>
             (if err_Code e = ascii ''output_gap'' then
                (let (eid, s2) = NewID E ''evt'' s1;
                     gap = \<lparr>ev_Event = ascii ''session.outputGap'', ev_EventID = eid,
                            ev_Timestamp = env_timestamp E now, ev_SessionID = sid, ev_Generation = gen,
                            ev_Data = err_Details e\<rparr>
                 in upd_client cid (\<lambda>c. snd (enqueue FrameEvent (body_of E (event_json E gap)) c)) s2)
              else s1)
         | Inr result \<Rightarrow>
             (case result of
                GMap replay \<Rightarrow>
                  (let data = (case go_get replay ''data'' of GBytes d \<Rightarrow> d | _ \<Rightarrow> []);
                       seq1 = (case go_get replay ''sequence'' of GUint n \<Rightarrow> n | _ \<Rightarrow> 0);
                       gen1 = (case go_get replay ''generation'' of GUint n \<Rightarrow> n | _ \<Rightarrow> 0)
                   in if data \<noteq> [] then sendOutput E now cid subid sid gen1 seq1 data s1 else s1)
              | _ \<Rightarrow> s1))"

definition add_subscription :: "subscription \<Rightarrow> controlClient \<Rightarrow> controlClient" where
  "add_subscription sub c = c\<lparr>cl_subscriptions := AList.update (sub_id sub) sub (cl_subscriptions c)\<rparr>"

definition subscribe :: "'b env \<Rightarrow> int \<Rightarrow> nat \<Rightarrow> raw \<Rightarrow> 'b service \<Rightarrow> (ctl_error + goval) \<times> 'b service" where
  "subscribe E now cid params s =
     (case decode_subscription (params_of params) of
        None \<Rightarrow> (Inl invalid_params, s)
      | Some rq \<Rightarrow>
          (let (subid, s1) = NewID E ''sub'' s;
               sub = \<lparr>sub_id = subid, sub_streams = sr_Streams rq, sub_sessions = sr_SessionIDs rq\<rparr>;
               s2 = upd_client cid (add_subscription sub) s1;
               s3 = foldl (replay_one E now cid subid) s2 (sr_From rq)
           in (Inr (gomap [(''subscriptionId'', GStr subid)]), s3)))"

section \<open>Delegation\<close>

text \<open>A number of milliseconds as a \<open>time.Duration\<close>, whose product wraps at 64 bits.\<close>

definition duration_ms :: "int \<Rightarrow> int" where
  "duration_ms ms = (ms * 1000000 + 2 ^ 63) mod 2 ^ 64 - 2 ^ 63"

definition dec_scope :: "scope \<Rightarrow> json \<Rightarrow> scope option" where
  "dec_scope a v =
     (case members v of
        None \<Rightarrow> None
      | Some fs \<Rightarrow>
          (case (field dec_bool (CreatedBySubject a) (ascii ''createdBySubject'') fs,
                 field dec_int (MaxConnections a) (ascii ''maxConnections'') fs,
                 field dec_int (MaxSessions a) (ascii ''maxSessions'') fs,
                 field dec_str_list (AllowedCommands a) (ascii ''allowedCommands'') fs,
                 field dec_str_list (AllowedCwdRoots a) (ascii ''allowedCwdRoots'') fs,
                 field dec_bool (AllowSSH a) (ascii ''allowSSH'') fs) of
             (Some c, Some mc, Some ms, Some ac, Some ar, Some sh) \<Rightarrow>
               Some \<lparr>CreatedBySubject = c, MaxConnections = mc, MaxSessions = ms, AllowedCommands = ac,
                     AllowedCwdRoots = ar, AllowSSH = sh\<rparr>
           | _ \<Rightarrow> None))"

record delegateRequest =
  dr_SubjectSessionID :: bytes
  dr_ExpiresInMS :: int
  dr_Permissions :: "bytes list"
  dr_Scope :: scope

definition decode_delegate :: "raw \<Rightarrow> delegateRequest option" where
  "decode_delegate params =
     (case Option.bind params members of
        None \<Rightarrow> None
      | Some fs \<Rightarrow>
          (case (str_field ''subjectSessionId'' fs, int_field ''expiresInMs'' fs, strs_field ''permissions'' fs,
                 field dec_scope no_scope (ascii ''scope'') fs) of
             (Some sid, Some ms, Some ps, Some sc) \<Rightarrow>
               Some \<lparr>dr_SubjectSessionID = sid, dr_ExpiresInMS = ms, dr_Permissions = ps, dr_Scope = sc\<rparr>
           | _ \<Rightarrow> None))"

definition subject_connection :: "goval \<Rightarrow> bytes" where
  "subject_connection result =
     (case session_of result of
        None \<Rightarrow> []
      | Some m \<Rightarrow> (case go_get m ''connectionId'' of GStr c \<Rightarrow> c | _ \<Rightarrow> []))"

definition inject_params :: "'b env \<Rightarrow> bytes \<Rightarrow> bytes \<Rightarrow> 'b service \<Rightarrow> raw" where
  "inject_params E sid token s =
     mustJSON E [(''sessionId'', GStr sid),
       (''env'', gomap [(''MULTICRUM_CONTROL_ENDPOINT'', GStr (sv_endpoint s)),
          (''MULTICRUM_CONTROL_TOKEN'', GStr token), (''MULTICRUM_PARENT_SESSION_ID'', GStr sid),
          (''MULTICRUM_SERVER'', GStr (sv_serverName s))])]"

definition delegate :: "'b env \<Rightarrow> int \<Rightarrow> nat \<Rightarrow> raw \<Rightarrow> 'b service \<Rightarrow> (ctl_error + goval) \<times> 'b service" where
  "delegate E now cid params s =
     (let c = sv_client s cid in
      if g_permissions (cl_grant c) \<noteq> None
      then (Inl (NewError ''permission_denied'' ''delegated capabilities cannot delegate''), s)
      else
        (case decode_delegate (params_of params) of
           None \<Rightarrow> (Inl invalid_params, s)
         | Some rq \<Rightarrow>
             (if dr_SubjectSessionID rq = [] \<or> dr_ExpiresInMS rq \<le> 0
              then (Inl (NewError ''invalid_argument'' ''subjectSessionId and positive expiresInMs are required''), s)
              else
                (let (subject, s1) = call_backend E (ascii ''session.get'')
                       (mustJSON E [(''sessionId'', GStr (dr_SubjectSessionID rq))]) (cl_controllerID c) s
                 in case subject of
                      Inl e \<Rightarrow> (Inl e, s1)
                    | Inr result \<Rightarrow>
                        (if subject_connection result = []
                         then (Inl (NewError ''internal'' ''subject session connection is unavailable''), s1)
                         else
                           (let (token, s2) = NewID E ''mct'' s1;
                                (ctl, s3) = NewID E ''ctl'' s2;
                                g = \<lparr>g_controllerID = ctl, g_expires = now + duration_ms (dr_ExpiresInMS rq),
                                     g_permissions = Some (dr_Permissions rq), g_scope = dr_Scope rq,
                                     g_subjectSessionID = dr_SubjectSessionID rq,
                                     g_subjectConnectionID = subject_connection result\<rparr>;
                                s4 = s3\<lparr>sv_grants := (sv_grants s3)(token \<mapsto> g)\<rparr>;
                                (injected, s5) = call_backend E (ascii ''capability.inject'')
                                  (inject_params E (dr_SubjectSessionID rq) token s4) (cl_controllerID c) s4
                            in case injected of
                                 Inl e \<Rightarrow> (Inl e, s5\<lparr>sv_grants := (sv_grants s5)(token := None)\<rparr>)
                               | Inr _ \<Rightarrow>
                                   (Inr (gomap [(''endpoint'', GStr (sv_endpoint s5)), (''token'', GStr token),
                                      (''expiresAt'', GStr (env_timestamp E (g_expires g)))]), s5)))))))"

section \<open>Input frames\<close>

definition accept_input :: "bytes \<Rightarrow> (bytes \<times> bytes) option" where
  "accept_input body =
     (if length body < 2 then None
      else
        (let n = un_be (take 2 body)
         in if length body - 2 < n then None else Some (take n (drop 2 body), drop (2 + n) body)))"

definition decode_input_header :: "raw \<Rightarrow> (bytes \<times> bytes \<times> 64 word) option" where
  "decode_input_header v =
     (case Option.bind v members of
        None \<Rightarrow> None
      | Some fs \<Rightarrow>
          (case (str_field ''requestId'' fs, str_field ''sessionId'' fs, uint_field ''generation'' fs) of
             (Some r, Some sid, Some g) \<Rightarrow> Some (r, sid, g)
           | _ \<Rightarrow> None))"

definition handleBinaryInput :: "'b env \<Rightarrow> nat \<Rightarrow> bytes \<Rightarrow> 'b service \<Rightarrow> 'b service" where
  "handleBinaryInput E cid body s =
     (case accept_input body of
        None \<Rightarrow> s
      | Some (header, data) \<Rightarrow>
          (case decode_input_header (env_parse E header) of
             None \<Rightarrow> s
           | Some (rid, sid, gen) \<Rightarrow>
               (let (r, s1) = call_backend E (ascii ''session.sendBytes'')
                      (mustJSON E [(''sessionId'', GStr sid), (''generation'', GUint gen), (''data'', GBytes data)])
                      (cl_controllerID (sv_client s cid)) s
                in case r of
                     Inl e \<Rightarrow> respond E cid \<lparr>rs_ID = rid, rs_OK = False, rs_Result = None, rs_Error = Some e\<rparr> s1
                   | Inr v \<Rightarrow> respond E cid \<lparr>rs_ID = rid, rs_OK = True, rs_Result = env_any E v, rs_Error = None\<rparr> s1)))"

end
