(* ===== verification/ControlServe.thy ===== *)
theory ControlServe
  imports ControlRun
begin

text \<open>
  Waiting (\<open>await\<close>, \<open>awaitCondition\<close>), the answer to a request (\<open>handleRequest\<close>) and the loop of
  \<open>serve\<close> (\<open>src/pkg/control/service.go\<close>).
\<close>

section \<open>Conditions\<close>

text \<open>What stays fixed while a condition is checked.\<close>

record 'b waiting =
  w_env :: "'b env"
  w_now :: int
  w_controller :: bytes
  w_session :: bytes
  w_generation :: "64 word"
  w_started :: int

definition decode_condition :: "json \<Rightarrow> (int \<times> json list \<times> json list) option" where
  "decode_condition v =
     (case members v of
        None \<Rightarrow> None
      | Some fs \<Rightarrow>
          (case (int_field ''quietMs'' fs, field dec_raws [] (ascii ''any'') fs, field dec_raws [] (ascii ''all'') fs) of
             (Some q, Some xs, Some ys) \<Rightarrow> Some (q, xs, ys)
           | _ \<Rightarrow> None))"

definition matched :: "(bytes \<times> goval) list \<Rightarrow> bool" where
  "matched m \<longleftrightarrow> go_get m ''matched'' = GBool True"

definition is_quiet :: "'b waiting \<Rightarrow> int \<Rightarrow> 'b service \<Rightarrow> bool" where
  "is_quiet w ms s =
     (let last = (case sv_outputAt s (outputKey (w_session w) (w_generation w)) of
                    None \<Rightarrow> w_started w | Some t \<Rightarrow> t)
      in duration_ms ms \<le> w_now w - last)"

definition gofields :: "(string \<times> goval) list \<Rightarrow> (bytes \<times> goval) list" where
  "gofields kvs = map (\<lambda>(k, v). (ascii k, v)) kvs"

definition awaitCheck :: "'b waiting \<Rightarrow> json \<Rightarrow> 'b service \<Rightarrow> (ctl_error + (bytes \<times> goval) list) \<times> 'b service" where
  "awaitCheck w v s =
     (let (r, s1) = call_backend (w_env w) (ascii ''session.awaitCheck'')
            (mustJSON (w_env w) [(''sessionId'', GStr (w_session w)), (''generation'', GUint (w_generation w)),
               (''condition'', GOther v)]) (w_controller w) s
      in case r of
           Inl e \<Rightarrow> (Inl e, s1)
         | Inr (GMap m) \<Rightarrow> (Inr m, s1)
         | Inr _ \<Rightarrow> (Inl (NewError ''internal'' ''invalid await result''), s1))"


lemma dec_raws_size: "dec_raws a v = Some vs \<Longrightarrow> size_list size vs \<le> size v"
  by (auto simp: dec_raws_def split: json.splits)

lemma foldl_bind_None:
  "foldl (\<lambda>acc kv. if p kv then Option.bind acc (\<lambda>a. d a (snd kv)) else acc) None fs = None"
  by (induction fs) simp_all

lemma field_raws_size:
  assumes "field dec_raws a key fs = Some vs"
  shows "vs = a \<or> size_list size vs \<le> size_list (\<lambda>kv. size (snd kv)) fs"
  using assms unfolding field_def
proof (induction fs arbitrary: a)
  case (Cons kv fs)
  show ?case
  proof (cases "same_key (fst kv) key")
    case True
    then obtain b where b: "dec_raws a (snd kv) = Some b"
      using Cons.prems foldl_bind_None [of "\<lambda>kv. same_key (fst kv) key" dec_raws fs]
      by (cases "dec_raws a (snd kv)") auto
    with True Cons.prems Cons.IH [of b] dec_raws_size [OF b] show ?thesis by auto
  next
    case False
    with Cons.prems Cons.IH [of a] show ?thesis by auto
  qed
qed simp

lemma members_size: "members v = Some fs \<Longrightarrow> fs = [] \<or> size_list (\<lambda>kv. size (snd kv)) fs < size v"
proof -
  have "size_list (\<lambda>kv. size (snd kv)) gs \<le> size_list (size_prod (\<lambda>x. 0) size) gs" for gs :: "(bytes \<times> json) list"
    by (induction gs) (auto simp: size_prod_def split: prod.splits)
  then show "members v = Some fs \<Longrightarrow> fs = [] \<or> size_list (\<lambda>kv. size (snd kv)) fs < size v"
    by (auto simp: members_def less_Suc_eq_le split: json.splits)
qed

lemma decode_condition_size:
  assumes "decode_condition v = Some (q, xs, ys)"
  shows "2 * size_list size xs < Suc (2 * size v)" and "2 * size_list size ys < Suc (2 * size v)"
proof -
  obtain fs where fs: "members v = Some fs" and x: "field dec_raws [] (ascii ''any'') fs = Some xs"
    and y: "field dec_raws [] (ascii ''all'') fs = Some ys"
    using assms by (auto simp: decode_condition_def split: option.splits)
  have "zs = [] \<or> size_list size zs < size v" if "field dec_raws [] key fs = Some zs" for key zs
    using field_raws_size [OF that] members_size [OF fs] that by auto
  from this [OF x] this [OF y]
  show "2 * size_list size xs < Suc (2 * size v)" and "2 * size_list size ys < Suc (2 * size v)" by auto
qed

type_synonym result_map = "(bytes \<times> goval) list"

text \<open>
  \<open>awaitCondition\<close> on a condition, on the alternatives of \<open>any\<close> (\<open>None\<close>: none matched) and on the
  conditions of \<open>all\<close>.
\<close>

function await_cond :: "'b waiting \<Rightarrow> json \<Rightarrow> 'b service \<Rightarrow> (ctl_error + result_map) \<times> 'b service"
  and await_any :: "'b waiting \<Rightarrow> json list \<Rightarrow> 'b service \<Rightarrow> (ctl_error + result_map option) \<times> 'b service"
  and await_all :: "'b waiting \<Rightarrow> goval \<Rightarrow> json list \<Rightarrow> 'b service \<Rightarrow> (ctl_error + result_map) \<times> 'b service"
where
  "await_cond w v s =
     (case decode_condition v of
        None \<Rightarrow> (Inl (NewError ''invalid_argument'' ''invalid await condition''), s)
      | Some (q, xs, ys) \<Rightarrow>
          (case await_any w xs s of
             (Inl e, s1) \<Rightarrow> (Inl e, s1)
           | (Inr (Some m), s1) \<Rightarrow> (Inr m, s1)
           | (Inr None, s1) \<Rightarrow>
               (if ys \<noteq> [] then await_all w GNil ys s1
                else if 0 < q then
                  (Inr (gofields (if is_quiet w q s1
                     then [(''matched'', GBool True), (''reason'', GStr (ascii ''quiet''))]
                     else [(''matched'', GBool False)])), s1)
                else awaitCheck w v s1)))"
| "await_any w [] s = (Inr None, s)"
| "await_any w (v # vs) s =
     (case await_cond w v s of
        (Inl e, s1) \<Rightarrow> (Inl e, s1)
      | (Inr m, s1) \<Rightarrow> if matched m then (Inr (Some m), s1) else await_any w vs s1)"
| "await_all w q [] s =
     (Inr (gofields [(''matched'', GBool True), (''reason'', GStr (ascii ''all'')), (''outputSequence'', q)]), s)"
| "await_all w q (v # vs) s =
     (case await_cond w v s of
        (Inl e, s1) \<Rightarrow> (Inl e, s1)
      | (Inr m, s1) \<Rightarrow>
          if matched m then await_all w (go_get m ''outputSequence'') vs s1
          else (Inr (gofields [(''matched'', GBool False)]), s1))"
  by pat_completeness auto
termination
  by (relation "measure (\<lambda>x. case x of Inl (w, v, s) \<Rightarrow> Suc (2 * size v)
       | Inr (Inl (w, vs, s)) \<Rightarrow> 2 * size_list size vs | Inr (Inr (w, q, vs, s)) \<Rightarrow> 2 * size_list size vs)")
    (auto dest: decode_condition_size)

declare await_cond.simps [simp del]

definition awaitCondition :: "'b waiting \<Rightarrow> raw \<Rightarrow> 'b service \<Rightarrow> (ctl_error + result_map) \<times> 'b service" where
  "awaitCondition w v s =
     (case v of
        None \<Rightarrow> (Inl (NewError ''invalid_argument'' ''invalid await condition''), s)
      | Some j \<Rightarrow> await_cond w j s)"

section \<open>Waiting\<close>

record awaitRequest =
  aw_SessionID :: bytes
  aw_Generation :: "64 word"
  aw_TimeoutMS :: int
  aw_Condition :: raw

definition decode_await :: "raw \<Rightarrow> awaitRequest option" where
  "decode_await params =
     (case Option.bind params members of
        None \<Rightarrow> None
      | Some fs \<Rightarrow>
          (case (str_field ''sessionId'' fs, uint_field ''generation'' fs, int_field ''timeoutMs'' fs,
                 field dec_raw None (ascii ''condition'') fs) of
             (Some sid, Some g, Some t, Some c) \<Rightarrow>
               Some \<lparr>aw_SessionID = sid, aw_Generation = g, aw_TimeoutMS = t, aw_Condition = c\<rparr>
           | _ \<Rightarrow> None))"

text \<open>
  One turn of the loop of \<open>await\<close>: what others did to the service since the last turn, the time, and
  whether the client is gone when the turn would wait. The loop runs on the turns given: \<open>None\<close> is
  the answer still owed when they are used up.
\<close>

record 'b turn =
  t_before :: "'b service \<Rightarrow> 'b service"
  t_now :: int
  t_gone :: bool

fun await_loop ::
  "('b turn \<Rightarrow> 'b waiting) \<Rightarrow> raw \<Rightarrow> int \<Rightarrow> 'b turn list \<Rightarrow> 'b service \<Rightarrow> (ctl_error + goval) option \<times> 'b service" where
  "await_loop wait cond deadline [] s = (None, s)"
| "await_loop wait cond deadline (t # ts) s =
     (case awaitCondition (wait t) cond (t_before t s) of
        (Inl e, s1) \<Rightarrow> (Some (Inl e), s1)
      | (Inr m, s1) \<Rightarrow>
          if matched m then (Some (Inr (GMap m)), s1)
          else if deadline < t_now t then (Some (Inl (NewError ''timeout'' ''wait deadline expired'')), s1)
          else if t_gone t then (Some (Inl (NewError ''unavailable'' ''controller disconnected'')), s1)
          else await_loop wait cond deadline ts s1)"

definition waiting_at :: "'b env \<Rightarrow> bytes \<Rightarrow> awaitRequest \<Rightarrow> int \<Rightarrow> 'b turn \<Rightarrow> 'b waiting" where
  "waiting_at E ctl rq started t =
     \<lparr>w_env = E, w_now = t_now t, w_controller = ctl, w_session = aw_SessionID rq,
      w_generation = aw_Generation rq, w_started = started\<rparr>"

definition await ::
  "'b env \<Rightarrow> int \<Rightarrow> 'b turn list \<Rightarrow> nat \<Rightarrow> raw \<Rightarrow> 'b service \<Rightarrow> (ctl_error + goval) option \<times> 'b service" where
  "await E now ts cid params s =
     (case decode_await (params_of params) of
        None \<Rightarrow> (Some (Inl invalid_params), s)
      | Some rq \<Rightarrow>
          (if aw_TimeoutMS rq \<le> 0
           then (Some (Inl (NewError ''invalid_argument'' ''positive timeoutMs is required'')), s)
           else await_loop (waiting_at E (cl_controllerID (sv_client s cid)) rq now) (aw_Condition rq)
                  (now + duration_ms (aw_TimeoutMS rq)) ts s))"

section \<open>Requests\<close>

definition alias_mode :: "bytes \<Rightarrow> string option" where
  "alias_mode m =
     (if m = ascii ''session.remove'' then Some ''remove''
      else if m = ascii ''session.terminate'' then Some ''terminate'' else None)"

text \<open>The value of a \<open>map[string]any\<close> decoded from an object.\<close>

definition any_map :: "(bytes \<times> json) list \<Rightarrow> (bytes \<times> goval) list" where
  "any_map kvs = foldl (\<lambda>m kv. AList.update (fst kv) (GOther (snd kv)) m) [] kvs"

text \<open>
  \<open>None\<close> is a panic: \<open>Unmarshal\<close> of null leaves the map nil, and the code then stores into it.
\<close>

definition normalizeSessionCloseAlias :: "'b env \<Rightarrow> request \<Rightarrow> request option" where
  "normalizeSessionCloseAlias E rq =
     (case alias_mode (rq_Method rq) of
        None \<Rightarrow> Some rq
      | Some mode \<Rightarrow>
          (case rq_Params rq of
             Some JNull \<Rightarrow> None
           | Some (JObj kvs) \<Rightarrow>
               Some (rq\<lparr>rq_Method := ascii ''session.close'',
                        rq_Params := env_any E (GMap (AList.update (ascii ''mode'') (GStr (ascii mode)) (any_map kvs)))\<rparr>)
           | _ \<Rightarrow> Some rq))"

definition requestIdempotencyKey :: "raw \<Rightarrow> bytes" where
  "requestIdempotencyKey params =
     (case Option.bind params members of
        None \<Rightarrow> []
      | Some fs \<Rightarrow> field_value dec_str [] (ascii ''idempotencyKey'') fs)"

definition isMutating :: "bytes \<Rightarrow> bool" where
  "isMutating m \<longleftrightarrow>
     \<not> is_method m [''server.get'', ''connection.list'', ''session.list'', ''session.get'',
                     ''session.snapshot'', ''session.await'', ''subscribe'']"

definition cache_key :: "bytes \<Rightarrow> bytes \<Rightarrow> bytes" where
  "cache_key ctl key = ctl @ [0] @ key"

definition ten_minutes :: int where "ten_minutes = 600 * 10 ^ 9"

definition cacheIdempotent ::
  "int \<Rightarrow> bytes \<Rightarrow> bytes \<Rightarrow> bytes \<Rightarrow> json option \<Rightarrow> ctl_error option \<Rightarrow> 'b service \<Rightarrow> 'b service" where
  "cacheIdempotent now ctl method key result err s =
     (if key = [] \<or> \<not> isMutating method then s
      else s\<lparr>sv_idem := (sv_idem s)(cache_key ctl key \<mapsto>
               \<lparr>id_method = method, id_result = result, id_err = err, id_expires = now + ten_minutes\<rparr>)\<rparr>)"

definition keep_created :: "grant \<Rightarrow> string \<Rightarrow> bytes \<Rightarrow> (bytes \<times> goval) list list \<Rightarrow> (bytes \<times> goval) list list" where
  "keep_created g key subject ms =
     filter (\<lambda>m. go_get m ''createdBy'' = GStr (g_controllerID g) \<or> go_get m key = GStr subject) ms"

definition filterCreatedResult :: "bytes \<Rightarrow> goval \<Rightarrow> grant \<Rightarrow> goval" where
  "filterCreatedResult method result g =
     (case result of
        GMap payload \<Rightarrow>
          (if method = ascii ''connection.list'' then
             (case go_get payload ''connections'' of
                GMaps ms \<Rightarrow> GMap (AList.update (ascii ''connections'')
                  (GMaps (keep_created g ''connectionId'' (g_subjectConnectionID g) ms)) payload)
              | _ \<Rightarrow> result)
           else if method = ascii ''session.list'' then
             (case go_get payload ''sessions'' of
                GMaps ms \<Rightarrow> GMap (AList.update (ascii ''sessions'')
                  (GMaps (keep_created g ''sessionId'' (g_subjectSessionID g) ms)) payload)
              | _ \<Rightarrow> result)
           else result)
      | _ \<Rightarrow> result)"

definition failure :: "bytes \<Rightarrow> ctl_error \<Rightarrow> response" where
  "failure rid e = \<lparr>rs_ID = rid, rs_OK = False, rs_Result = None, rs_Error = Some e\<rparr>"

definition success :: "bytes \<Rightarrow> json option \<Rightarrow> response" where
  "success rid v = \<lparr>rs_ID = rid, rs_OK = True, rs_Result = v, rs_Error = None\<rparr>"

text \<open>
  The first half of \<open>handleRequest\<close>: the request is answered at once, or is to be carried out under
  an idempotency key, or the goroutine panics and with it the program.
\<close>

datatype decision = Panic | Answer response | Carry_out request bytes

definition cached_answer :: "int \<Rightarrow> request \<Rightarrow> bytes \<Rightarrow> bytes \<Rightarrow> 'b service \<Rightarrow> response option" where
  "cached_answer now rq ctl key s =
     (if key = [] \<or> \<not> isMutating (rq_Method rq) then None
      else
        (case sv_idem s (cache_key ctl key) of
           None \<Rightarrow> None
         | Some r \<Rightarrow>
             (if \<not> now < id_expires r then None
              else if id_method r \<noteq> rq_Method rq
              then Some (failure (rq_ID rq) (NewError ''already_exists'' ''idempotency key was used for another method''))
              else Some \<lparr>rs_ID = rq_ID rq, rs_OK = (id_err r = None), rs_Result = id_result r, rs_Error = id_err r\<rparr>)))"

definition decide :: "'b env \<Rightarrow> int \<Rightarrow> nat \<Rightarrow> request \<Rightarrow> 'b service \<Rightarrow> decision \<times> 'b service" where
  "decide E now cid rq0 s =
     (if rq_ID rq0 = [] \<or> rq_Method rq0 = []
      then (Answer (failure (rq_ID rq0) (NewError ''invalid_argument'' ''id and method are required'')), s)
      else
        (case normalizeSessionCloseAlias E rq0 of
           None \<Rightarrow> (Panic, s)
         | Some rq \<Rightarrow>
             (let (ok, s1) = allowed E cid (rq_Method rq) (rq_Params rq) s in
              if \<not> ok
              then (Answer (failure (rq_ID rq) (NewError ''permission_denied'' ''capability does not allow this operation'')), s1)
              else
                (let key = requestIdempotencyKey (rq_Params rq) in
                 case cached_answer now rq (cl_controllerID (sv_client s1 cid)) key s1 of
                   Some r \<Rightarrow> (Answer r, s1)
                 | None \<Rightarrow> (Carry_out rq key, s1)))))"

definition carry_out ::
  "'b env \<Rightarrow> int \<Rightarrow> 'b turn list \<Rightarrow> nat \<Rightarrow> request \<Rightarrow> 'b service \<Rightarrow> (ctl_error + goval) option \<times> 'b service" where
  "carry_out E now ts cid rq s =
     (let m = rq_Method rq; p = rq_Params rq; settled = (\<lambda>(r, t). (Some r, t)) in
      if m = ascii ''subscribe'' then settled (subscribe E now cid p s)
      else if m = ascii ''session.await'' then await E now ts cid p s
      else if m = ascii ''capability.delegate'' then settled (delegate E now cid p s)
      else settled (call_backend E m p (cl_controllerID (sv_client s cid)) s))"

definition finish_request ::
  "'b env \<Rightarrow> int \<Rightarrow> nat \<Rightarrow> request \<Rightarrow> bytes \<Rightarrow> ctl_error + goval \<Rightarrow> 'b service \<Rightarrow> 'b service" where
  "finish_request E now cid rq key r s =
     (let c = sv_client s cid; ctl = cl_controllerID c; g = cl_grant c in
      case r of
        Inl e \<Rightarrow> respond E cid (failure (rq_ID rq) e) (cacheIdempotent now ctl (rq_Method rq) key None (Some e) s)
      | Inr v \<Rightarrow>
          (let v1 = (if g_permissions g \<noteq> None \<and> CreatedBySubject (g_scope g)
                     then filterCreatedResult (rq_Method rq) v g else v)
           in case env_any E v1 of
                None \<Rightarrow> respond E cid (failure (rq_ID rq) (NewError ''internal'' ''cannot encode response'')) s
              | Some j \<Rightarrow>
                  respond E cid (success (rq_ID rq) (Some j))
                    (cacheIdempotent now ctl (rq_Method rq) key (Some j) None s)))"

text \<open>
  \<open>handleRequest\<close> as one goroutine that nothing interrupts but the turns of a wait; \<open>later\<close> is the
  time at which the result is cached. The first component tells a panic and an answer still owed.
\<close>

datatype outcome = Crashed | Answered | Waiting

definition handleRequest ::
  "'b env \<Rightarrow> int \<Rightarrow> int \<Rightarrow> 'b turn list \<Rightarrow> nat \<Rightarrow> request \<Rightarrow> 'b service \<Rightarrow> outcome \<times> 'b service" where
  "handleRequest E now later ts cid rq0 s =
     (case decide E now cid rq0 s of
        (Panic, s1) \<Rightarrow> (Crashed, s1)
      | (Answer r, s1) \<Rightarrow> (Answered, respond E cid r s1)
      | (Carry_out rq key, s1) \<Rightarrow>
          (case carry_out E now ts cid rq s1 of
             (None, s2) \<Rightarrow> (Waiting, s2)
           | (Some r, s2) \<Rightarrow> (Answered, finish_request E later cid rq key r s2)))"

definition decode_request :: "raw \<Rightarrow> request option" where
  "decode_request v =
     (case Option.bind v members of
        None \<Rightarrow> None
      | Some fs \<Rightarrow>
          (case (str_field ''id'' fs, str_field ''method'' fs, field dec_raw None (ascii ''params'') fs) of
             (Some i, Some m, Some p) \<Rightarrow> Some \<lparr>rq_ID = i, rq_Method = m, rq_Params = p\<rparr>
           | _ \<Rightarrow> None))"

text \<open>One frame in the loop of \<open>serve\<close>; a frame of an unknown type ends the connection.\<close>

definition serve_frame ::
  "'b env \<Rightarrow> int \<Rightarrow> int \<Rightarrow> 'b turn list \<Rightarrow> nat \<Rightarrow> byte \<Rightarrow> bytes \<Rightarrow> 'b service \<Rightarrow> outcome \<times> 'b service" where
  "serve_frame E now later ts cid t body s =
     (if t = FrameRequest then
        (case decode_request (env_parse E body) of
           None \<Rightarrow> (Answered, respond E cid (failure [] (NewError ''invalid_argument'' ''invalid request JSON'')) s)
         | Some rq \<Rightarrow> handleRequest E now later ts cid rq s)
      else if t = FrameInput then (Answered, handleBinaryInput E cid body s)
      else if t = FrameAck then (Answered, s)
      else (Answered, disconnect cid s))"

end
