(* ===== verification/ControlClient.thy ===== *)
theory ControlClient
  imports ControlServe
begin

text \<open>
  The client of the control service (\<open>src/pkg/control/client.go\<close>): numbered calls that wait for the
  response with their number, and the queues of output and events the reader fills. Also the names
  of \<open>id.go\<close>.
\<close>

definition TokenPath :: "bytes \<Rightarrow> bytes" where
  "TokenPath endpoint =
     (if has_suffix endpoint (ascii ''.sock'') then take (length endpoint - 5) endpoint else endpoint) @ ascii ''.token''"

definition sanitize :: "bytes \<Rightarrow> bytes" where
  "sanitize v = sanitize_from False v"

section \<open>State\<close>

record output_header_rec =
  oh_SubscriptionID :: bytes
  oh_SessionID :: bytes
  oh_Generation :: "64 word"
  oh_Sequence :: "64 word"
  oh_Length :: int
  oh_Timestamp :: bytes

record client_response =
  cr_ID :: bytes
  cr_OK :: bool
  cr_Result :: raw
  cr_Error :: "(bytes \<times> bytes) option"

text \<open>
  \<open>pending\<close> holds the calls that wait; a response is handed to its call through a channel of one
  place, here \<open>cc_answered\<close>. Events are kept as their JSON.
\<close>

record client =
  cc_nextID :: "64 word"
  cc_pending :: "bytes list"
  cc_answered :: "bytes \<rightharpoonup> client_response"
  cc_output :: "(output_header_rec \<times> bytes) list"
  cc_events :: "json list"
  cc_done :: bool

definition new_client :: client where
  "new_client = \<lparr>cc_nextID = 0, cc_pending = [], cc_answered = Map.empty, cc_output = [], cc_events = [], cc_done = False\<rparr>"

definition hello_json :: "bytes \<Rightarrow> bytes \<Rightarrow> bytes \<Rightarrow> bytes \<Rightarrow> bytes \<Rightarrow> json" where
  "hello_json server name version token resume =
     json_obj ([(''protocol'', JStr (ascii ''multicrum-control'')), (''version'', JInt 1), (''server'', JStr server)] @
       (if name = [] then [] else [(''clientName'', JStr name)]) @
       (if version = [] then [] else [(''clientVersion'', JStr version)]) @
       [(''token'', JStr token)] @
       (if resume = [] then [] else [(''resumeControllerId'', JStr resume)]) @
       [(''capabilities'', JArr (map JStr Capabilities))])"

section \<open>Calls\<close>

definition call_id :: "64 word \<Rightarrow> bytes" where
  "call_id n = ascii ''req-'' @ decimal (unat n)"

definition begin_call :: "client \<Rightarrow> bytes \<times> client" where
  "begin_call c =
     (let n = cc_nextID c + 1; i = call_id n
      in (i, c\<lparr>cc_nextID := n, cc_pending := i # removeAll i (cc_pending c)\<rparr>))"

definition removePending :: "bytes \<Rightarrow> client \<Rightarrow> client" where
  "removePending i c = c\<lparr>cc_pending := removeAll i (cc_pending c)\<rparr>"

text \<open>\<open>Call\<close> up to its wait: the frame that is written.\<close>

definition Call :: "'b env \<Rightarrow> bytes \<Rightarrow> json \<Rightarrow> client \<Rightarrow> bytes \<times> (byte \<times> bytes) \<times> client" where
  "Call E method params c =
     (let (i, c1) = begin_call c
      in (i, (FrameRequest, env_text E (json_obj [(''id'', JStr i), (''method'', JStr method), (''params'', params)])), c1))"

definition input_header :: "bytes \<Rightarrow> bytes \<Rightarrow> 64 word \<Rightarrow> json" where
  "input_header i sid gen =
     json_obj [(''requestId'', JStr i), (''sessionId'', JStr sid), (''generation'', JInt (uint gen))]"

text \<open>\<open>SendBytes\<close>: a header that is too large fails after its number is used up.\<close>

definition SendBytes ::
  "'b env \<Rightarrow> bytes \<Rightarrow> 64 word \<Rightarrow> bytes \<Rightarrow> client \<Rightarrow> (bytes \<times> byte \<times> bytes) option \<times> client" where
  "SendBytes E sid gen data c =
     (let n = cc_nextID c + 1; i = call_id n in
      case with_header (env_text E (input_header i sid gen)) data of
        None \<Rightarrow> (None, c\<lparr>cc_nextID := n\<rparr>)
      | Some body \<Rightarrow> (Some (i, FrameInput, body), snd (begin_call c)))"

section \<open>The reader\<close>

definition decode_error :: "json \<Rightarrow> (bytes \<times> bytes) option" where
  "decode_error v =
     (case members v of
        None \<Rightarrow> None
      | Some fs \<Rightarrow> (case (str_field ''code'' fs, str_field ''message'' fs) of (Some a, Some b) \<Rightarrow> Some (a, b) | _ \<Rightarrow> None))"

definition decode_response :: "raw \<Rightarrow> client_response option" where
  "decode_response v =
     (case Option.bind v members of
        None \<Rightarrow> None
      | Some fs \<Rightarrow>
          (case (str_field ''id'' fs, bool_field ''ok'' fs, field dec_raw None (ascii ''result'') fs,
                 field (\<lambda>a v. if v = JNull then Some None else map_option Some (decode_error v)) None (ascii ''error'') fs) of
             (Some i, Some k, Some r, Some e) \<Rightarrow> Some \<lparr>cr_ID = i, cr_OK = k, cr_Result = r, cr_Error = e\<rparr>
           | _ \<Rightarrow> None))"

definition decode_output_header :: "raw \<Rightarrow> output_header_rec option" where
  "decode_output_header v =
     (case Option.bind v members of
        None \<Rightarrow> None
      | Some fs \<Rightarrow>
          (case (str_field ''subscriptionId'' fs, str_field ''sessionId'' fs, uint_field ''generation'' fs,
                 uint_field ''sequence'' fs, int_field ''length'' fs, str_field ''timestamp'' fs) of
             (Some sb, Some sid, Some g, Some q, Some l, Some t) \<Rightarrow>
               Some \<lparr>oh_SubscriptionID = sb, oh_SessionID = sid, oh_Generation = g, oh_Sequence = q,
                     oh_Length = l, oh_Timestamp = t\<rparr>
           | _ \<Rightarrow> None))"

definition decode_event :: "raw \<Rightarrow> json option" where
  "decode_event v =
     (case Option.bind v members of
        None \<Rightarrow> None
      | Some fs \<Rightarrow>
          (case (str_field ''event'' fs, str_field ''eventId'' fs, str_field ''timestamp'' fs, str_field ''sessionId'' fs,
                 uint_field ''generation'' fs, field (\<lambda>_ v. map_option Some (members v)) None (ascii ''data'') fs) of
             (Some _, Some _, Some _, Some _, Some _, Some _) \<Rightarrow> v
           | _ \<Rightarrow> None))"

definition offer :: "'a \<Rightarrow> 'a list \<Rightarrow> 'a list" where
  "offer x q = (if length q < queue_size then q @ [x] else q)"

definition recv_frame :: "'b env \<Rightarrow> client \<Rightarrow> byte \<times> bytes \<Rightarrow> client" where
  "recv_frame E c fr =
     (let (t, body) = fr in
      if t = FrameResponse then
        (case decode_response (env_parse E body) of
           None \<Rightarrow> c
         | Some r \<Rightarrow>
             (if cr_ID r \<in> set (cc_pending c)
              then (removePending (cr_ID r) c)\<lparr>cc_answered := (cc_answered c)(cr_ID r \<mapsto> r)\<rparr>
              else c))
      else if t = FrameEvent then
        (case decode_event (env_parse E body) of None \<Rightarrow> c | Some v \<Rightarrow> c\<lparr>cc_events := offer v (cc_events c)\<rparr>)
      else if t = FrameOutput then
        (case accept_input body of
           None \<Rightarrow> c
         | Some (header, data) \<Rightarrow>
             (case decode_output_header (env_parse E header) of
                None \<Rightarrow> c
              | Some h \<Rightarrow> c\<lparr>cc_output := offer (h, data) (cc_output c)\<rparr>))
      else c)"

text \<open>\<open>readLoop\<close> on the bytes of the connection: it ends with the first frame that cannot be read.\<close>

definition readLoop :: "'b env \<Rightarrow> bytes \<Rightarrow> client \<Rightarrow> client" where
  "readLoop E stream c = (foldl (recv_frame E) c (fst (read_frames stream)))\<lparr>cc_done := True\<rparr>"

section \<open>Facts\<close>

lemma sanitize_safe: "list_all safe_byte (sanitize v)"
  by (simp add: sanitize_def sanitize_from_safe)

lemma accept_with_header:
  assumes "with_header header data = Some body"
  shows "accept_input body = Some (header, data)"
proof -
  have len: "length header < 65536" and b: "body = be16 (length header) @ header @ data"
    using assms by (auto simp: with_header_def split: if_splits)
  have "take 2 body = be16 (length header)" and d: "drop 2 body = header @ data" and "drop (2 + length header) body = data"
    by (simp_all add: b)
  with un_be16 [OF len] show ?thesis by (simp add: accept_input_def Let_def b)
qed

section \<open>The output of the service, read back\<close>

definition output_keys :: "bytes list" where
  "output_keys = map ascii [''subscriptionId'', ''sessionId'', ''generation'', ''sequence'', ''length'', ''timestamp'']"

lemma output_keys_distinct: "keys_distinct output_keys"
  by (simp add: keys_distinct_def output_keys_def upt_rec key_simps)

lemma output_header_zip:
  "output_header E now sub sid gen seq data =
   JObj (zip output_keys [JStr sub, JStr sid, JInt (uint gen), JInt (uint seq), JInt (int (length data)),
     JStr (env_timestamp E now)])"
  by (simp add: output_header_def json_obj_def output_keys_def)

lemma dec_uint64_uint: "dec_uint64 a (JInt (uint (w :: 64 word))) = Some w"
  using uint_bounded [of w] by (simp add: dec_uint64_def)

lemma decode_output_header_sent:
  assumes "length data < 2 ^ 63"
  shows "decode_output_header (Some (output_header E now sub sid gen seq data)) =
    Some \<lparr>oh_SubscriptionID = sub, oh_SessionID = sid, oh_Generation = gen, oh_Sequence = seq,
          oh_Length = int (length data), oh_Timestamp = env_timestamp E now\<rparr>"
proof -
  let ?vs = "[JStr sub, JStr sid, JInt (uint gen), JInt (uint seq), JInt (int (length data)), JStr (env_timestamp E now)]"
  have n: "ascii ''subscriptionId'' = output_keys ! 0" "ascii ''sessionId'' = output_keys ! 1"
    "ascii ''generation'' = output_keys ! 2" "ascii ''sequence'' = output_keys ! 3"
    "ascii ''length'' = output_keys ! 4" "ascii ''timestamp'' = output_keys ! 5"
    by (simp_all add: output_keys_def)
  have l: "length output_keys = 6" by (simp add: output_keys_def)
  have f: "field dec zero (output_keys ! i) (zip output_keys ?vs) = dec zero (?vs ! i)" if "i < 6" for dec i and zero :: 'x
    using that by (intro field_zip output_keys_distinct) (simp_all add: l)
  have "int (length data) < 2 ^ 63" using assms by (metis of_nat_less_iff of_nat_numeral of_nat_power)
  then have d: "dec_int 0 (JInt (int (length data))) = Some (int (length data))"
    by (simp add: dec_int_def)
  show ?thesis
    unfolding decode_output_header_def output_header_zip n
    by (simp add: members_def f dec_uint64_uint d) (simp add: dec_str_def)
qed

end
