(* ===== verification/ControlProps.thy ===== *)
theory ControlProps
  imports ControlClient
begin

text \<open>
  What the control service guarantees: which requests are carried out and with what rights, what a
  delegation leaves behind, what a repeated request does, how long a wait lasts, and who gets which
  output.
\<close>

section \<open>Questions to the backend\<close>

text \<open>\<open>asked s t cs\<close>: from \<open>s\<close> to \<open>t\<close> only the backend ran, with the calls \<open>cs\<close>.\<close>

definition asked :: "'b service \<Rightarrow> 'b service \<Rightarrow> (bytes \<times> raw \<times> bytes) list \<Rightarrow> bool" where
  "asked s t cs \<longleftrightarrow> (\<exists>b. t = s\<lparr>sv_backend := b, sv_calls := sv_calls s @ cs\<rparr>)"

definition reads :: "(bytes \<times> raw \<times> bytes) list \<Rightarrow> bool" where
  "reads cs \<longleftrightarrow> list_all (\<lambda>c. is_method (fst c) [''connection.list'', ''session.list'', ''session.get'']) cs"

definition read_only :: "'b service \<Rightarrow> 'b service \<Rightarrow> bool" where
  "read_only s t \<longleftrightarrow> (\<exists>cs. asked s t cs \<and> reads cs)"

lemma asked_refl: "asked s s []"
  unfolding asked_def by (rule exI [of _ "sv_backend s"]) simp

lemma asked_trans: "asked s t cs \<Longrightarrow> asked t u ds \<Longrightarrow> asked s u (cs @ ds)"
  by (auto simp: asked_def)

lemma asked_call: "asked s (snd (call_backend E m p c s)) [(m, p, c)]"
proof -
  have "snd (call_backend E m p c s) =
    s\<lparr>sv_backend := snd (env_backend E m p c (sv_backend s)), sv_calls := sv_calls s @ [(m, p, c)]\<rparr>"
    by (simp add: call_backend_def case_prod_beta)
  then show ?thesis unfolding asked_def by (rule exI [of _ "snd (env_backend E m p c (sv_backend s))"])
qed

lemma read_only_refl [simp, intro]: "read_only s s"
  unfolding read_only_def by (rule exI [of _ "[]"]) (simp add: reads_def asked_refl)

lemma read_only_trans: "read_only s t \<Longrightarrow> read_only t u \<Longrightarrow> read_only s u"
  unfolding read_only_def
proof (elim exE conjE)
  fix cs ds assume "asked s t cs" "reads cs" "asked t u ds" "reads ds"
  then have "asked s u (cs @ ds) \<and> reads (cs @ ds)" by (simp add: reads_def asked_trans [of s t])
  then show "\<exists>es. asked s u es \<and> reads es" by (rule exI)
qed

lemma read_only_call:
  "is_method m [''connection.list'', ''session.list'', ''session.get''] \<Longrightarrow> read_only s (snd (call_backend E m p c s))"
  unfolding read_only_def by (rule exI [of _ "[(m, p, c)]"]) (simp add: reads_def asked_call)

lemma read_only_same:
  assumes "read_only s t"
  shows "sv_client t = sv_client s" and "sv_grants t = sv_grants s" and "sv_idem t = sv_idem s"
    and "sv_token t = sv_token s" and "sv_clients t = sv_clients s" and "sv_random t = sv_random s"
    and "sv_outputAt t = sv_outputAt s" and "sv_closed t = sv_closed s"
  using assms by (auto simp: read_only_def asked_def)

lemma read_only_created_count:
  "is_method (ascii m) [''connection.list'', ''session.list'', ''session.get''] \<Longrightarrow>
   read_only s (snd (created_count m key E ctl s))"
  using read_only_call [of "ascii m" s E "Some (JObj [])" ctl]
  by (auto simp: created_count_def split: prod.splits sum.splits option.splits)

lemma read_only_connectionCreatedBy: "read_only s (snd (connectionCreatedBy E con ctl s))"
  using read_only_call [of "ascii ''connection.list''" s E "Some (JObj [])" ctl]
  by (auto simp: connectionCreatedBy_def is_method_def split: prod.splits sum.splits option.splits)

lemma read_only_sessionCreatedBy: "read_only s (snd (sessionCreatedBy E sid ctl s))"
  using read_only_call [of "ascii ''session.get''" s E "session_ref sid" ctl]
  by (auto simp: sessionCreatedBy_def is_method_def split: prod.splits sum.splits option.splits)

lemma read_only_all_own: "read_only s (snd (all_sessions_own E g ctl sids s))"
proof (induction sids arbitrary: s)
  case (Cons sid sids)
  then show ?case
    using read_only_sessionCreatedBy [of s E sid ctl]
    by (auto split: prod.splits dest: read_only_trans)
      (metis read_only_trans snd_conv)
qed simp

lemma read_only_objectAllowed: "read_only s (snd (delegatedObjectAllowed E g ctl m p s))"
proof -
  have "read_only s (snd (createdConnectionCount E ctl s))"
    using read_only_created_count [of "''connection.list''" s "''connections''" E ctl]
    by (simp add: createdConnectionCount_def is_method_def)
  then show ?thesis
    by (simp add: delegatedObjectAllowed_def case_prod_beta Let_def read_only_connectionCreatedBy
        read_only_sessionCreatedBy read_only_all_own split: option.split)
qed

lemma read_only_allowed: "read_only s (snd (allowed E cid m p s))"
proof -
  let ?c = "sv_client s cid"
  obtain ok s1 where d: "delegatedObjectAllowed E (cl_grant ?c) (cl_controllerID ?c) m p s = (ok, s1)"
    by (metis surj_pair)
  then have r1: "read_only s s1" using read_only_objectAllowed by (metis snd_conv)
  obtain n s2 where k: "createdSessionCount E (cl_controllerID ?c) s1 = (n, s2)" by (metis surj_pair)
  then have "read_only s1 s2"
    using read_only_created_count [of "''session.list''" s1 "''sessions''" E "cl_controllerID ?c"]
    by (simp add: createdSessionCount_def is_method_def)
  with r1 have "read_only s s2" by (rule read_only_trans)
  with r1 d k show ?thesis
    by (simp add: allowed_def Let_def split: option.splits prod.splits)
qed

lemma read_only_decide: "read_only s (snd (decide E now cid rq0 s))"
  using read_only_allowed [of s E cid]
  by (simp add: decide_def Let_def case_prod_beta split: option.split)

text \<open>
  C15. Nothing but questions about what exists is put to the backend before a request has passed
  the permission check, and only a request that passed it is carried out: the first half of
  \<open>handleRequest\<close> changes nothing of the service, and its calls of the backend are listings.
\<close>

theorem only_permitted_requests_run:
  "case decide E now cid rq0 s of
     (d, s1) \<Rightarrow>
       (\<exists>b cs. s1 = s\<lparr>sv_backend := b, sv_calls := sv_calls s @ cs\<rparr> \<and>
          list_all (\<lambda>c. is_method (fst c) [''connection.list'', ''session.list'', ''session.get'']) cs) \<and>
       (case d of Carry_out rq key \<Rightarrow> fst (allowed E cid (rq_Method rq) (rq_Params rq) s) | _ \<Rightarrow> True)"
proof -
  obtain d s1 where d: "decide E now cid rq0 s = (d, s1)" by (metis surj_pair)
  have "read_only s s1" using read_only_decide [of s E now cid rq0] d by simp
  moreover have "case d of Carry_out rq key \<Rightarrow> fst (allowed E cid (rq_Method rq) (rq_Params rq) s) | _ \<Rightarrow> True"
    using d by (auto simp: decide_def Let_def split: if_splits option.splits prod.splits)
  ultimately show ?thesis by (auto simp: d read_only_def asked_def reads_def)
qed

section \<open>Crashes\<close>

text \<open>
  C35. A request takes the program down exactly when it is \<open>session.remove\<close> or \<open>session.terminate\<close>
  with null as its parameters, whoever sends it: the alias is rewritten before the permission check.
\<close>

theorem request_crashes_iff:
  "(fst (handleRequest E now later ts cid rq s) = Crashed) =
   (rq_ID rq \<noteq> [] \<and> rq_Params rq = Some JNull \<and>
    is_method (rq_Method rq) [''session.remove'', ''session.terminate''])"
proof -
  have "(fst (handleRequest E now later ts cid rq s) = Crashed) = (fst (decide E now cid rq s) = Panic)"
    by (auto simp: handleRequest_def split: prod.splits decision.splits option.splits)
  also have "\<dots> = (rq_ID rq \<noteq> [] \<and> rq_Method rq \<noteq> [] \<and> normalizeSessionCloseAlias E rq = None)"
    by (simp add: decide_def Let_def case_prod_beta split: option.split)
  also have "\<dots> = (rq_ID rq \<noteq> [] \<and> rq_Params rq = Some JNull \<and>
      is_method (rq_Method rq) [''session.remove'', ''session.terminate''])"
    by (auto simp: normalizeSessionCloseAlias_def alias_mode_def is_method_def simp del: ascii_simps
        split: option.splits json.splits) (simp_all add: ascii_def)
  finally show ?thesis .
qed

section \<open>Directories\<close>

lemma withinRoot_iff:
  assumes "env_symlinks E path = Some p" and "env_symlinks E root = Some r" and "rooted p" and "rooted r"
  shows "withinRoot E path root = prefix (clean_parts r) (clean_parts p)"
proof (cases "clean_parts p = clean_parts r")
  case True
  then have "filepath_Clean p = filepath_Clean r" using assms(3,4) by (simp add: filepath_Clean_eq)
  then show ?thesis using assms(1,2) True by (simp add: withinRoot_def filepath_Rel_def)
next
  case False
  then have ne: "filepath_Clean p \<noteq> filepath_Clean r" using assms(3,4) by (simp add: filepath_Clean_eq)
  obtain up down where ud: "strip_common (clean_parts r) (clean_parts p) = (up, down)" by (metis surj_pair)
  have up: "(up = []) = prefix (clean_parts r) (clean_parts p)"
    using strip_common_prefix [of "clean_parts r" "clean_parts p"] ud by simp
  have down: "slash \<notin> set x \<and> x \<noteq> [] \<and> x \<noteq> dotdot \<and> x \<noteq> dot" if "x \<in> set down" for x
    using strip_common_snd [of "clean_parts r" "clean_parts p"] ud that clean_parts_ok [of x p]
      rooted_no_dotdot [OF assms(3)] by auto
  have "hd up \<noteq> dotdot" if "up \<noteq> []"
    using that strip_common_fst [of "clean_parts r" "clean_parts p"] ud rooted_no_dotdot [OF assms(4)]
    by (metis fst_conv hd_in_set subsetD)
  then have rel: "filepath_Rel r p = Some (join_with [slash] (map (\<lambda>_. dotdot) up @ down))"
    using assms(3,4) ne ud by (auto simp: filepath_Rel_def)
  show ?thesis
  proof (cases up)
    case Nil
    then obtain x xs where d: "down = x # xs"
      using False ud strip_common_done [of "clean_parts r" "clean_parts p"] by (cases down) auto
    then have "slash \<notin> set x" and "x \<noteq> dotdot" using down [of x] by auto
    then show ?thesis
      using rel up Nil d assms(1,2) join_with_prefix_dotdot [of x xs] join_with_dotdot [of x xs]
      by (simp add: withinRoot_def)
  next
    case (Cons y ys)
    let ?zs = "map (\<lambda>_. dotdot) ys @ down"
    have s: "slash \<notin> set dotdot" by simp
    have "join_with [slash] (dotdot # ?zs) \<noteq> dot" by (simp add: join_with_hd)
    moreover have "join_with [slash] (dotdot # ?zs) = dotdot \<or> prefix (dotdot @ [slash]) (join_with [slash] (dotdot # ?zs))"
      using join_with_dotdot [of dotdot ?zs] join_with_prefix_dotdot [OF s, of ?zs] by blast
    ultimately show ?thesis using rel up Cons assms(1,2) by (simp add: withinRoot_def)
  qed
qed

end
