(* ===== verification/ControlFlow.thy ===== *)
theory ControlFlow
  imports ControlProps
begin

text \<open>
  What requests leave behind: the invariant of the service over every interleaving of frames,
  publications and waits, delegation, idempotent repetition, waiting, and the way of output and
  input between the service and its client.
\<close>

section \<open>The invariant\<close>

definition service_ok :: "'b service \<Rightarrow> bool" where
  "service_ok s \<longleftrightarrow>
     (\<forall>cid. length (cl_send (sv_client s cid)) \<le> queue_size) \<and>
     (\<forall>tok g. sv_grants s tok = Some g \<longrightarrow> g_permissions g \<noteq> None)"

definition client_ok :: "(controlClient \<Rightarrow> controlClient) \<Rightarrow> bool" where
  "client_ok f \<longleftrightarrow> (\<forall>c. length (cl_send c) \<le> queue_size \<longrightarrow> length (cl_send (f c)) \<le> queue_size)"

lemma service_ok_upd: "client_ok f \<Longrightarrow> service_ok s \<Longrightarrow> service_ok (upd_client cid f s)"
  by (auto simp: service_ok_def upd_client_def client_ok_def)

lemma client_ok_enqueue: "client_ok (\<lambda>c. snd (enqueue t body c))"
  by (auto simp: client_ok_def enqueue_def)

lemma client_ok_respond: "client_ok (respond_client E r)"
  by (auto simp: client_ok_def respond_client_def enqueue_def Let_def)

lemma service_ok_respond: "service_ok s \<Longrightarrow> service_ok (respond E cid r s)"
  unfolding respond_def by (intro service_ok_upd client_ok_respond)

lemma service_ok_NewID: "service_ok s \<Longrightarrow> service_ok (snd (NewID E p s))"
  by (simp add: NewID_def service_ok_def)

lemma service_ok_call: "service_ok s \<Longrightarrow> service_ok (snd (call_backend E m p c s))"
  by (simp add: call_backend_def case_prod_beta service_ok_def)

lemma service_ok_read_only: "read_only s t \<Longrightarrow> service_ok s \<Longrightarrow> service_ok t"
  by (simp add: service_ok_def read_only_same)

lemma service_ok_sendOutput: "service_ok s \<Longrightarrow> service_ok (sendOutput E now cid sub sid gen seq data s)"
proof -
  assume ok: "service_ok s"
  have "service_ok (upd_client cid (\<lambda>_. snd (enqueue FrameOutput body (sv_client s cid))) s)" for body
  proof -
    from ok have "length (cl_send (sv_client s cid)) \<le> queue_size" by (simp add: service_ok_def)
    then have "length (cl_send (snd (enqueue FrameOutput body (sv_client s cid)))) \<le> queue_size"
      by (auto simp: enqueue_def)
    with ok show ?thesis by (simp add: service_ok_def upd_client_def)
  qed
  moreover have "service_ok (upd_client cid (\<lambda>c. snd (enqueue FrameEvent body c)) (snd (NewID E ''evt'' s)))" for body
    using ok by (intro service_ok_upd client_ok_enqueue service_ok_NewID)
  ultimately show ?thesis
    using ok by (simp add: sendOutput_def Let_def case_prod_beta split: option.split)
qed

lemma service_ok_foldl:
  "(\<And>t x. service_ok t \<Longrightarrow> service_ok (f t x)) \<Longrightarrow> service_ok s \<Longrightarrow> service_ok (foldl f s xs)"
  by (induction xs arbitrary: s) auto

lemma service_ok_publish_client: "service_ok s \<Longrightarrow> service_ok (publish_client E now sid gen seq data s cid)"
  unfolding publish_client_def by (rule service_ok_foldl) (auto intro: service_ok_sendOutput)

lemma service_ok_outputAt [simp]: "service_ok (s\<lparr>sv_outputAt := f\<rparr>) = service_ok s"
  by (simp add: service_ok_def)

lemma service_ok_PublishOutput: "service_ok s \<Longrightarrow> service_ok (PublishOutput E now sid gen seq data s)"
  unfolding PublishOutput_def by (rule service_ok_foldl) (simp_all add: service_ok_publish_client)

lemma client_ok_foldl: "(\<And>x. client_ok (\<lambda>c. f c x)) \<Longrightarrow> length (cl_send c) \<le> queue_size \<Longrightarrow>
  length (cl_send (foldl f c xs)) \<le> queue_size"
  by (induction xs arbitrary: c) (auto simp: client_ok_def)

lemma client_ok_event: "client_ok (event_client stream sid body)"
  unfolding client_ok_def event_client_def
  by (intro allI impI client_ok_foldl) (use client_ok_enqueue in \<open>auto simp: client_ok_def\<close>)

lemma service_ok_PublishEvent: "service_ok s \<Longrightarrow> service_ok (PublishEvent E now stream e s)"
  unfolding PublishEvent_def Let_def case_prod_beta
  by (rule service_ok_foldl)
    (auto intro!: service_ok_upd client_ok_event service_ok_NewID simp: fill_event_def Let_def case_prod_beta)

lemma service_ok_replay: "service_ok s \<Longrightarrow> service_ok (replay_one E now cid subid s entry)"
  by (auto simp: replay_one_def Let_def case_prod_beta split: sum.split goval.split
      intro!: service_ok_upd client_ok_enqueue service_ok_NewID service_ok_sendOutput service_ok_call)

lemma service_ok_subscribe: "service_ok s \<Longrightarrow> service_ok (snd (subscribe E now cid p s))"
proof -
  have "client_ok (add_subscription sub)" for sub
    by (simp add: client_ok_def add_subscription_def)
  then show "service_ok s \<Longrightarrow> ?thesis"
    by (auto simp: subscribe_def Let_def case_prod_beta split: option.split
        intro!: service_ok_foldl service_ok_replay service_ok_upd service_ok_NewID)
qed

lemma service_ok_grant: "service_ok s \<Longrightarrow> g_permissions g \<noteq> None \<Longrightarrow> service_ok (s\<lparr>sv_grants := (sv_grants s)(tok \<mapsto> g)\<rparr>)"
  by (simp add: service_ok_def)

lemma service_ok_revoke: "service_ok s \<Longrightarrow> service_ok (s\<lparr>sv_grants := (sv_grants s)(tok := None)\<rparr>)"
  by (simp add: service_ok_def)

lemma service_ok_delegate: "service_ok s \<Longrightarrow> service_ok (snd (delegate E now cid p s))"
  by (auto simp: delegate_def Let_def case_prod_beta split: option.split sum.split
      intro!: service_ok_revoke service_ok_call service_ok_grant service_ok_NewID)

text \<open>Waiting asks the backend and lets the others act.\<close>

lemma service_ok_await_cond:
  fixes w :: "'b waiting"
  shows "service_ok s \<Longrightarrow> service_ok (snd (await_cond w v s))"
    and "service_ok s \<Longrightarrow> service_ok (snd (await_any w vs s))"
    and "service_ok s \<Longrightarrow> service_ok (snd (await_all w q vs s))"
proof (induction w v s and w vs s and w q vs s rule: await_cond_await_any_await_all.induct)
  case (1 w v s)
  then show ?case
    by (subst await_cond.simps)
      (auto simp: awaitCheck_def Let_def case_prod_beta service_ok_call
        split: option.split sum.split prod.split goval.split dest: sym)
qed (auto split: sum.split prod.split)

lemma service_ok_await_loop:
  "service_ok s \<Longrightarrow> (\<And>t u. t \<in> set ts \<Longrightarrow> service_ok u \<Longrightarrow> service_ok (t_before t u)) \<Longrightarrow>
   service_ok (snd (await_loop wait cond deadline ts s))"
proof (induction ts arbitrary: s)
  case (Cons t ts)
  then have "service_ok (snd (awaitCondition (wait t) cond (t_before t s)))"
    by (auto simp: awaitCondition_def intro!: service_ok_await_cond split: option.split)
  with Cons show ?case by (auto split: sum.split prod.split)
qed simp

lemma service_ok_handleRequest:
  assumes "service_ok s" and "\<And>t u. t \<in> set ts \<Longrightarrow> service_ok u \<Longrightarrow> service_ok (t_before t u)"
  shows "service_ok (snd (handleRequest E now later ts cid rq s))"
proof -
  obtain d s1 where d: "decide E now cid rq s = (d, s1)" by (metis surj_pair)
  have "read_only s s1"
    using read_only_decide [of s E now cid rq] d by simp
  then have s1: "service_ok s1" using assms(1) by (rule service_ok_read_only)
  have s2: "service_ok (snd (carry_out E now ts cid r s1))" for r
    using s1 assms(2)
    by (auto simp: carry_out_def await_def Let_def case_prod_beta split: option.split
        intro: service_ok_subscribe service_ok_delegate service_ok_call service_ok_await_loop)
  have cache: "service_ok u \<Longrightarrow> service_ok (cacheIdempotent later ctl m key res err u)" for u ctl m key res err
    by (simp add: cacheIdempotent_def service_ok_def)
  have fin: "service_ok u \<Longrightarrow> service_ok (finish_request E later cid r key res u)" for u r key res
    by (auto simp: finish_request_def Let_def split: sum.split option.split intro!: service_ok_respond cache)
  show ?thesis
    using s1 s2 fin
    by (auto simp: handleRequest_def d service_ok_respond split: decision.split prod.split option.split)
      (metis snd_conv)+
qed

lemma service_ok_serve_frame:
  assumes "service_ok s" and "\<And>t u. t \<in> set ts \<Longrightarrow> service_ok u \<Longrightarrow> service_ok (t_before t u)"
  shows "service_ok (snd (serve_frame E now later ts cid t body s))"
proof -
  have "service_ok (handleBinaryInput E cid body s)"
    using assms(1)
    by (auto simp: handleBinaryInput_def Let_def case_prod_beta split: option.split sum.split
        intro!: service_ok_respond service_ok_call)
  moreover have "service_ok (disconnect cid s)"
    using assms(1) by (simp add: disconnect_def upd_client_def service_ok_def)
  ultimately show ?thesis
    using assms service_ok_handleRequest [OF assms]
    by (auto simp: serve_frame_def service_ok_respond split: option.split)
qed

lemma NewID_same [simp]:
  "sv_client (snd (NewID E p s)) = sv_client s" "sv_grants (snd (NewID E p s)) = sv_grants s"
  "sv_clients (snd (NewID E p s)) = sv_clients s" "sv_token (snd (NewID E p s)) = sv_token s"
  "sv_calls (snd (NewID E p s)) = sv_calls s" "sv_idem (snd (NewID E p s)) = sv_idem s"
  "sv_serverName (snd (NewID E p s)) = sv_serverName s"
  by (simp_all add: NewID_def)

lemma service_ok_hello: "service_ok s \<Longrightarrow> service_ok (snd (serve_hello E now cid t body s))"
proof -
  assume s: "service_ok s"
  have reg: "service_ok (u\<lparr>sv_clients := cs, sv_client := f(cid := c)\<rparr>)"
    if "service_ok u" "f = sv_client u" "cl_send c = []" for u :: "'a service" and cs c f
    using that by (simp add: service_ok_def)
  have r: "service_ok (snd (if b then NewID E ''ctl'' s else (x, s)))" for b x
    using s by (simp add: service_ok_NewID)
  show ?thesis
    unfolding serve_hello_def Let_def case_prod_beta
    using s by (auto simp del: fun_upd_apply intro!: reg r split: option.split simp: service_ok_NewID)
qed

text \<open>
  A run of the service: connections open, frames arrive, output and events are published, and while
  a request waits the others act.
\<close>

inductive control_run :: "'b env \<Rightarrow> 'b service \<Rightarrow> 'b service \<Rightarrow> bool" for E :: "'b env" where
  idle: "control_run E s s"
| hello: "control_run E s u \<Longrightarrow> cid \<notin> set (sv_clients u) \<Longrightarrow> control_run E s (snd (serve_hello E now cid t body u))"
| frame: "control_run E s u \<Longrightarrow> cid \<in> set (sv_clients u) \<Longrightarrow> \<forall>x \<in> set ts. \<forall>v. control_run E v (t_before x v) \<Longrightarrow>
    control_run E s (snd (serve_frame E now later ts cid t body u))"
| publish: "control_run E s u \<Longrightarrow> control_run E s (PublishOutput E now sid gen seq data u)"
| announce: "control_run E s u \<Longrightarrow> control_run E s (PublishEvent E now stream e u)"
| shut: "control_run E s u \<Longrightarrow> control_run E s (Close u)"

lemma service_ok_run: "control_run E s t \<Longrightarrow> service_ok s \<Longrightarrow> service_ok t"
proof (induction rule: control_run.induct)
  case (frame s u cid ts now later t body)
  then show ?case by (intro service_ok_serve_frame) auto
next
  case (shut s u)
  then show ?case by (simp add: Close_def service_ok_def)
qed (simp_all add: service_ok_hello service_ok_PublishOutput service_ok_PublishEvent)

lemma service_ok_new: "service_ok (NewService E name endpoint token b)"
  by (simp add: service_ok_def NewService_def)

text \<open>An environment for examples: a backend that knows one session, and paths without symbolic links.\<close>

definition demo_backend :: "bytes \<Rightarrow> raw \<Rightarrow> bytes \<Rightarrow> nat \<Rightarrow> (ctl_error + goval) \<times> nat" where
  "demo_backend m p c n =
     (if m = ascii ''session.get''
      then (Inr (gomap [(''session'', gomap [(''connectionId'', GStr (ascii ''con_1'')), (''createdBy'', GStr (ascii ''ctl''))])]), Suc n)
      else (Inr (gomap []), Suc n))"

definition demo_env :: "nat env" where
  "demo_env = \<lparr>env_backend = demo_backend, env_any = (\<lambda>_. Some (JObj [])), env_text = (\<lambda>_. ascii ''{}''),
     env_parse = (\<lambda>_. Some (JObj [])), env_random = (\<lambda>n. [of_nat n]), env_symlinks = Some,
     env_timestamp = (\<lambda>_. ascii ''now''), env_pid = 1\<rparr>"

definition demo_service :: "nat service" where
  "demo_service = NewService demo_env (ascii ''default'') (ascii ''/run/c.sock'') (ascii ''secret'') 0"



section \<open>Delegation\<close>

text \<open>
  C24. What \<open>delegate\<close> leaves behind. A request that fails adds no grant: the one entry it may touch,
  under the token drawn for it, is gone. One that succeeds was sent by the owner, and adds one grant
  with the permissions, scope and expiry asked for, bound to the subject session and its connection.
\<close>

theorem delegate_leaves:
  "case delegate E now cid params s of
     (Inl e, t) \<Rightarrow> sv_grants t \<in> {sv_grants s, (sv_grants s)(fst (NewID E ''mct'' s) := None)}
   | (Inr v, t) \<Rightarrow>
       g_permissions (cl_grant (sv_client s cid)) = None \<and>
       (\<exists>rq con. decode_delegate (params_of params) = Some rq \<and> con \<noteq> [] \<and> 0 < dr_ExpiresInMS rq \<and>
          sv_grants t = (sv_grants s)(fst (NewID E ''mct'' s) \<mapsto>
            \<lparr>g_controllerID = fst (NewID E ''ctl'' (snd (NewID E ''mct'' s))),
             g_expires = now + duration_ms (dr_ExpiresInMS rq), g_permissions = Some (dr_Permissions rq),
             g_scope = dr_Scope rq, g_subjectSessionID = dr_SubjectSessionID rq, g_subjectConnectionID = con\<rparr>))"
proof -
  obtain r1 s1 where c1: "call_backend E (ascii ''session.get'')
      (mustJSON E [(''sessionId'', GStr (dr_SubjectSessionID (the (decode_delegate (params_of params)))))])
      (cl_controllerID (sv_client s cid)) s = (r1, s1)" by (metis surj_pair)
  then have s1: "sv_random s1 = sv_random s" "sv_grants s1 = sv_grants s"
    by (auto simp: call_backend_def case_prod_beta)
  have new: "fst (NewID E p s1) = fst (NewID E p s)"
    "fst (NewID E p (snd (NewID E q s1))) = fst (NewID E p (snd (NewID E q s)))" for p q
    using s1 by (simp_all add: NewID_def)
  have grants: "sv_grants (snd (call_backend E m p c u)) = sv_grants u" for m p c and u :: "'a service"
    by (simp add: call_backend_def case_prod_beta)
  show ?thesis
  proof (cases "decode_delegate (params_of params)")
    case None
    then show ?thesis by (simp add: delegate_def Let_def)
  next
    case (Some rq)
    note c1 = c1 [unfolded Some option.sel]
    show ?thesis
    proof (cases "g_permissions (cl_grant (sv_client s cid)) \<noteq> None \<or> dr_SubjectSessionID rq = [] \<or> dr_ExpiresInMS rq \<le> 0")
      case True
      then show ?thesis by (auto simp: delegate_def Let_def Some)
    next
      case False
      show ?thesis
      proof (cases r1)
        case (Inl e)
        then show ?thesis using False c1 s1 by (simp add: delegate_def Let_def Some)
      next
        case (Inr result)
        show ?thesis
        proof (cases "subject_connection result = []")
          case True
          then show ?thesis using False Inr c1 s1 by (simp add: delegate_def Let_def Some)
        next
          case con: False
          show ?thesis
            using False Inr c1 s1 con
            by (simp add: delegate_def Let_def Some case_prod_beta grants new split: sum.split)
              (intro impI exI [of _ "subject_connection result"], simp)
        qed
      qed
    qed
  qed
qed

end
