(* ===== verification/ControlDelivery.thy ===== *)
theory ControlDelivery
  imports ControlFlow
begin

text \<open>
  Requests and data end to end: repeated requests, waits, confined session creation, and the way of
  output and input between the service and its client.
\<close>

section \<open>Repeated requests\<close>

lemma owner_allowed: "g_permissions (cl_grant (sv_client s cid)) = None \<Longrightarrow> allowed E cid m p s = (True, s)"
  by (simp add: allowed_def Let_def)

lemma isMutating_methods: "isMutating m \<Longrightarrow> m \<noteq> ascii ''subscribe'' \<and> m \<noteq> ascii ''session.await''"
  by (auto simp: isMutating_def is_method_def)

lemma call_backend_client: "call_backend E m p c s = (r, t) \<Longrightarrow> sv_client t = sv_client s"
  by (auto simp: call_backend_def case_prod_beta)

lemma delegate_client: "delegate E now cid p s = (r, t) \<Longrightarrow> sv_client t = sv_client s"
proof -
  have c: "sv_client (snd (call_backend E m q d u)) = sv_client u" for m q d and u :: "'a service"
    by (simp add: call_backend_def case_prod_beta)
  have "sv_client (snd (delegate E now cid p s)) = sv_client s"
    by (simp add: delegate_def Let_def case_prod_beta c split: option.split sum.split)
  then show "delegate E now cid p s = (r, t) \<Longrightarrow> ?thesis" by simp
qed

lemma carry_out_client:
  "isMutating (rq_Method rq) \<Longrightarrow> carry_out E now ts cid rq s = (r, t) \<Longrightarrow> sv_client t = sv_client s"
  using isMutating_methods [of "rq_Method rq"]
  by (auto simp: carry_out_def Let_def split: if_splits prod.splits dest: call_backend_client delegate_client)

lemma normalize_ID:
  "normalizeSessionCloseAlias E (rq\<lparr>rq_ID := i\<rparr>) = map_option (\<lambda>r. r\<lparr>rq_ID := i\<rparr>) (normalizeSessionCloseAlias E rq)"
  by (simp add: normalizeSessionCloseAlias_def split: option.split json.split)

definition answer_of :: "'b env \<Rightarrow> bytes \<Rightarrow> ctl_error + goval \<Rightarrow> response" where
  "answer_of E i r = (case r of Inl e \<Rightarrow> failure i e | Inr v \<Rightarrow> success i (env_any E v))"

lemma owner_decide:
  assumes "g_permissions (cl_grant (sv_client s cid)) = None" and "rq_ID rq \<noteq> []" and "rq_Method rq \<noteq> []"
    and "normalizeSessionCloseAlias E rq = Some rq1"
  shows "decide E now cid rq s =
    (case cached_answer now rq1 (cl_controllerID (sv_client s cid)) (requestIdempotencyKey (rq_Params rq1)) s of
       Some r \<Rightarrow> Answer r | None \<Rightarrow> Carry_out rq1 (requestIdempotencyKey (rq_Params rq1)), s)"
  using assms by (simp add: decide_def owner_allowed Let_def split: option.split)

lemma upd_client_same [simp]:
  "sv_idem (upd_client cid f s) = sv_idem s" "sv_client (upd_client cid f s) cid = f (sv_client s cid)"
  "sv_calls (upd_client cid f s) = sv_calls s"
  by (simp_all add: upd_client_def)

lemma respond_client_same [simp]:
  "cl_controllerID (respond_client E r c) = cl_controllerID c" "cl_grant (respond_client E r c) = cl_grant c"
  by (simp_all add: respond_client_def Let_def case_prod_beta enqueue_def)


definition demo_request :: request where
  "demo_request = \<lparr>rq_ID = [0x31], rq_Method = ascii ''session.write'',
     rq_Params = Some (JObj [(ascii ''idempotencyKey'', JStr [0x6B])])\<rparr>"


text \<open>
  Two such requests whose first halves run before either has been answered are both carried out.
\<close>

lemma concurrent_repeats_both_run:
  assumes "g_permissions (cl_grant (sv_client s cid)) = None" and "decide E now cid rq s = (Carry_out rq1 key, s0)"
    and "i \<noteq> []" and "now \<le> now2"
  shows "decide E now2 cid (rq\<lparr>rq_ID := i\<rparr>) s0 = (Carry_out (rq1\<lparr>rq_ID := i\<rparr>) key, s0)"
proof -
  have ids: "rq_ID rq \<noteq> []" "rq_Method rq \<noteq> []"
    using assms(2) by (auto simp: decide_def split: if_splits)
  then obtain rq2 where n: "normalizeSessionCloseAlias E rq = Some rq2"
    using assms(2) by (auto simp: decide_def split: option.splits)
  let ?ctl = "cl_controllerID (sv_client s cid)"
  from assms(1,2) ids n have rq1: "rq2 = rq1" "key = requestIdempotencyKey (rq_Params rq1)" "s0 = s"
    and c: "cached_answer now rq1 ?ctl key s = None"
    by (auto simp: owner_decide split: option.splits)
  have "cached_answer now2 (rq1\<lparr>rq_ID := i\<rparr>) ?ctl key s = None"
    using c assms(4) by (auto simp: cached_answer_def split: if_splits option.splits)
  then show ?thesis
    using assms(1,3) ids n rq1 by (simp add: owner_decide normalize_ID)
qed

section \<open>Waiting\<close>

lemma await_loop_answers:
  "fst (await_loop wait cond deadline ts s) = Some (Inr v) \<Longrightarrow> \<exists>m. v = GMap m \<and> matched m"
  by (induction ts arbitrary: s) (auto split: sum.splits prod.splits if_splits)

lemma await_loop_owes:
  "fst (await_loop wait cond deadline ts s) = None \<Longrightarrow> t \<in> set ts \<Longrightarrow> t_now t \<le> deadline \<and> \<not> t_gone t"
  by (induction ts arbitrary: s) (auto split: sum.splits prod.splits if_splits)

text \<open>
  C27. A wait ends by its deadline, and only a condition that matched ends it with a result: an answer
  is still owed only while every turn was within the deadline with the client connected, and a result
  says that it matched.
\<close>

theorem await_ends:
  "case fst (await E now ts cid params s) of
     None \<Rightarrow> (case decode_await (params_of params) of
                None \<Rightarrow> False
              | Some rq \<Rightarrow> list_all (\<lambda>t. t_now t \<le> now + duration_ms (aw_TimeoutMS rq) \<and> \<not> t_gone t) ts)
   | Some (Inl e) \<Rightarrow> True
   | Some (Inr v) \<Rightarrow> (\<exists>m. v = GMap m \<and> go_get m ''matched'' = GBool True)"
proof (cases "fst (await E now ts cid params s)")
  case None
  then show ?thesis
    by (auto simp: await_def list_all_iff split: option.splits if_splits dest: await_loop_owes)
next
  case (Some r)
  then show ?thesis
    by (cases r) (auto simp: await_def matched_def split: option.splits if_splits dest!: await_loop_answers)
qed

section \<open>Sessions made by delegates\<close>


definition demo_delegate :: "nat service" where
  "demo_delegate = upd_client 1 (\<lambda>c. c\<lparr>cl_grant := \<lparr>g_controllerID = ascii ''ctl'', g_expires = 9,
     g_permissions = Some [ascii ''session.create''],
     g_scope = no_scope\<lparr>AllowedCommands := [ascii ''sh''], AllowedCwdRoots := [ascii ''/a'']\<rparr>,
     g_subjectSessionID = [], g_subjectConnectionID = []\<rparr>\<rparr>) demo_service"

definition demo_create :: raw where
  "demo_create = Some (JObj [(ascii ''cmd'', JArr [JStr (ascii ''sh'')]), (ascii ''cwd'', JStr (ascii ''/a/b''))])"

lemma demo_create_decoded: "decode_create demo_create = Some ([ascii ''sh''], ascii ''/a/b'', [])"
  by (simp add: decode_create_def demo_create_def members_def field_def key_simps dec_str_list_def dec_str_def)


section \<open>Output\<close>

definition output_body :: "'b env \<Rightarrow> int \<Rightarrow> bytes \<Rightarrow> 64 word \<Rightarrow> 64 word \<Rightarrow> bytes \<Rightarrow> bytes \<Rightarrow> bytes option" where
  "output_body E now sid gen seq data sub = with_header (env_text E (output_header E now sub sid gen seq data)) data"

definition push_frames :: "outbound list \<Rightarrow> controlClient \<Rightarrow> controlClient" where
  "push_frames fs c = c\<lparr>cl_send := cl_send c @ fs\<rparr>"

lemma push_frames_simps [simp]:
  "cl_send (push_frames fs c) = cl_send c @ fs" "cl_subscriptions (push_frames fs c) = cl_subscriptions c"
  "push_frames [] c = c" "push_frames gs (push_frames fs c) = push_frames (fs @ gs) c"
  by (simp_all add: push_frames_def)

lemma sendOutput_other: "i \<noteq> cid \<Longrightarrow> sv_client (sendOutput E now cid sub sid gen seq data s) i = sv_client s i"
  by (simp add: sendOutput_def Let_def case_prod_beta upd_client_def split: option.split)

lemma sendOutput_room:
  assumes "output_body E now sid gen seq data sub = Some body" and "length (cl_send (sv_client s cid)) < queue_size"
  shows "sv_client (sendOutput E now cid sub sid gen seq data s) cid =
    push_frames [\<lparr>out_typ = FrameOutput, out_body = body\<rparr>] (sv_client s cid)"
  using assms by (simp add: sendOutput_def output_body_def enqueue_def push_frames_def)

text \<open>When the queue is full, the notice of the gap is lost as well.\<close>

lemma full_queue_loses_gap:
  assumes "queue_size \<le> length (cl_send (sv_client s cid))"
  shows "sv_client (sendOutput E now cid sub sid gen seq data s) cid = sv_client s cid"
  using assms by (simp add: sendOutput_def enqueue_def Let_def case_prod_beta split: option.split)

definition wanted_frames ::
  "'b env \<Rightarrow> int \<Rightarrow> bytes \<Rightarrow> 64 word \<Rightarrow> 64 word \<Rightarrow> bytes \<Rightarrow> (bytes \<times> subscription) list \<Rightarrow> outbound option list" where
  "wanted_frames E now sid gen seq data subs =
     map (\<lambda>sub. map_option (\<lambda>b. \<lparr>out_typ = FrameOutput, out_body = b\<rparr>)
            (output_body E now sid gen seq data (sub_id (snd sub))))
       (filter (\<lambda>sub. ascii ''session.output'' \<in> set (sub_streams (snd sub)) \<and>
          (sub_sessions (snd sub) = [] \<or> sid \<in> set (sub_sessions (snd sub)))) subs)"

lemma wanted_frames_wants:
  "wanted_frames E now sid gen seq data subs =
     map (\<lambda>sub. map_option (\<lambda>b. \<lparr>out_typ = FrameOutput, out_body = b\<rparr>)
            (output_body E now sid gen seq data (sub_id (snd sub))))
       (filter (\<lambda>sub. wants_output sid (snd sub)) subs)"
  by (simp add: wanted_frames_def wants_output_def)

lemma publish_subs:
  assumes "wanted_frames E now sid gen seq data subs = map Some fs"
    and "length (cl_send (sv_client s cid)) + length fs \<le> queue_size"
  shows "sv_client (foldl (\<lambda>t sub. if wants_output sid (snd sub)
      then sendOutput E now cid (sub_id (snd sub)) sid gen seq data t else t) s subs) cid =
    push_frames fs (sv_client s cid)"
  using assms
proof (induction subs arbitrary: s fs)
  case Nil
  then show ?case by (simp add: wanted_frames_wants)
next
  case (Cons sub subs)
  show ?case
  proof (cases "wants_output sid (snd sub)")
    case True
    then obtain f gs where fs: "fs = f # gs" "wanted_frames E now sid gen seq data subs = map Some gs"
      and b: "output_body E now sid gen seq data (sub_id (snd sub)) = Some (out_body f)" "out_typ f = FrameOutput"
      using Cons.prems(1) by (cases fs) (auto simp: wanted_frames_wants)
    have f: "\<lparr>out_typ = FrameOutput, out_body = out_body f\<rparr> = f" using b(2) by (cases f) simp
    have "sv_client (sendOutput E now cid (sub_id (snd sub)) sid gen seq data s) cid = push_frames [f] (sv_client s cid)"
      using sendOutput_room [OF b(1), of s cid] Cons.prems(2) fs(1) f by simp
    then show ?thesis
      using True Cons.IH [OF fs(2), of "sendOutput E now cid (sub_id (snd sub)) sid gen seq data s"] Cons.prems(2) fs(1)
      by simp
  next
    case False
    with Cons show ?thesis by (simp add: wanted_frames_wants)
  qed
qed

lemma publish_client_other:
  assumes "i \<noteq> cid"
  shows "sv_client (publish_client E now sid gen seq data s cid) i = sv_client s i"
proof -
  have "sv_client (foldl (\<lambda>t sub. if wants_output sid (snd sub)
      then sendOutput E now cid (sub_id (snd sub)) sid gen seq data t else t) s subs) i = sv_client s i" for subs
    using assms by (induction subs arbitrary: s) (simp_all add: sendOutput_other)
  then show ?thesis by (simp add: publish_client_def)
qed

lemma publish_all_other:
  "i \<notin> set cids \<Longrightarrow> sv_client (foldl (publish_client E now sid gen seq data) s cids) i = sv_client s i"
  by (induction cids arbitrary: s) (auto simp: publish_client_other)

lemma publish_all_one:
  "distinct cids \<Longrightarrow> cid \<in> set cids \<Longrightarrow>
   \<exists>t. sv_client t cid = sv_client s cid \<and>
     sv_client (foldl (publish_client E now sid gen seq data) s cids) cid = sv_client (publish_client E now sid gen seq data t cid) cid"
proof (induction cids arbitrary: s)
  case (Cons i cids)
  show ?case
  proof (cases "i = cid")
    case True
    with Cons.prems show ?thesis by (auto simp: publish_all_other)
  next
    case False
    with Cons.prems Cons.IH [of "publish_client E now sid gen seq data s i"] show ?thesis
      by (auto simp: publish_client_other)
  qed
qed simp


definition demo_subscribed :: "nat service" where
  "demo_subscribed = (upd_client 1 (add_subscription
      \<lparr>sub_id = ascii ''sub_1'', sub_streams = [ascii ''session.output''], sub_sessions = []\<rparr>) demo_service)
      \<lparr>sv_clients := [1]\<rparr>"


text \<open>
  C22. Output round trip: the frame the service queues for a subscription, read by the client, is the
  same data under a header with the subscription, session, generation, sequence and length it was
  sent with.
\<close>

theorem output_read_back:
  assumes "output_body E now sid gen seq data sub = Some body" and "length (cl_send (sv_client s cid)) < 256"
    and "env_parse E (env_text E (output_header E now sub sid gen seq data)) = Some (output_header E now sub sid gen seq data)"
    and "length data < 2 ^ 63" and "length (cc_output c) < 256"
  shows "recv_frame E c (FrameOutput, out_body (last (cl_send (sv_client (sendOutput E now cid sub sid gen seq data s) cid)))) =
    c\<lparr>cc_output := cc_output c @ [(\<lparr>oh_SubscriptionID = sub, oh_SessionID = sid, oh_Generation = gen, oh_Sequence = seq,
        oh_Length = int (length data), oh_Timestamp = env_timestamp E now\<rparr>, data)]\<rparr>"
proof -
  have "out_body (last (cl_send (sv_client (sendOutput E now cid sub sid gen seq data s) cid))) = body"
    using sendOutput_room [OF assms(1), of s cid] assms(2) by (simp add: queue_size_def)
  moreover have "accept_input body = Some (env_text E (output_header E now sub sid gen seq data), data)"
    using assms(1) accept_with_header by (simp add: output_body_def)
  ultimately show ?thesis
    using decode_output_header_sent [OF assms(4), of E now sub sid gen seq] assms(3,5)
    by (simp add: recv_frame_def offer_def queue_size_def FrameOutput_def FrameEvent_def FrameResponse_def)
qed

definition demo_codec :: "nat env" where
  "demo_codec = demo_env\<lparr>env_parse := (\<lambda>_. Some (output_header demo_env 5 [0x73] [0x61] 1 0 [0x62]))\<rparr>"

theorem output_read_back_witness:
  "length (cc_output (recv_frame demo_codec new_client
     (FrameOutput, out_body (last (cl_send (sv_client (sendOutput demo_codec 5 1 [0x73] [0x61] 1 0 [0x62] demo_service) 1)))))) = 1"
proof -
  have b: "output_body demo_codec 5 [0x61] 1 0 [0x62] [0x73] = Some (be16 2 @ ascii ''{}'' @ [0x62])"
    by (simp add: output_body_def with_header_def demo_codec_def demo_env_def be16_def byte_of_def)
  have p: "env_parse demo_codec (env_text demo_codec (output_header demo_codec 5 [0x73] [0x61] 1 0 [0x62])) =
    Some (output_header demo_codec 5 [0x73] [0x61] 1 0 [0x62])"
    by (simp add: demo_codec_def output_header_def demo_env_def)
  have "cl_send (sv_client demo_service 1) = []" by (simp add: demo_service_def NewService_def)
  then show ?thesis
    using output_read_back [OF b _ p, of demo_service 1 new_client] by (simp add: new_client_def)
qed

section \<open>Input\<close>

definition input_keys :: "bytes list" where
  "input_keys = map ascii [''requestId'', ''sessionId'', ''generation'']"

lemma decode_input_header_sent: "decode_input_header (Some (input_header i sid gen)) = Some (i, sid, gen)"
proof -
  have d: "keys_distinct input_keys"
    by (simp add: keys_distinct_def input_keys_def upt_rec key_simps)
  let ?vs = "[JStr i, JStr sid, JInt (uint gen)]"
  have z: "input_header i sid gen = JObj (zip input_keys ?vs)"
    by (simp add: input_header_def json_obj_def input_keys_def)
  have n: "ascii ''requestId'' = input_keys ! 0" "ascii ''sessionId'' = input_keys ! 1" "ascii ''generation'' = input_keys ! 2"
    by (simp_all add: input_keys_def)
  have l: "length input_keys = 3" by (simp add: input_keys_def)
  have f: "field dec zero (input_keys ! k) (zip input_keys ?vs) = dec zero (?vs ! k)" if "k < 3" for dec k and zero :: 'x
    using that by (intro field_zip d) (simp_all add: l)
  show ?thesis
    unfolding decode_input_header_def z n by (simp add: members_def f dec_uint64_uint) (simp add: dec_str_def)
qed

text \<open>
  C23. Input round trip: the frame \<open>SendBytes\<close> makes leads the service to exactly one call of the
  backend, \<open>session.sendBytes\<close> with the session, generation and bytes given, in the name of the client.
  The grant of the client plays no part in it.
\<close>

theorem input_reaches_backend:
  assumes "SendBytes E sid gen data c = (Some (i, t, body), c1)"
    and "env_parse E (env_text E (input_header i sid gen)) = Some (input_header i sid gen)"
  shows "t = FrameInput \<and> i = call_id (cc_nextID c + 1) \<and>
    sv_calls (snd (serve_frame E now later ts cid t body s)) =
      sv_calls s @ [(ascii ''session.sendBytes'',
        mustJSON E [(''sessionId'', GStr sid), (''generation'', GUint gen), (''data'', GBytes data)],
        cl_controllerID (sv_client s cid))]"
proof -
  have t: "t = FrameInput" "i = call_id (cc_nextID c + 1)" and w: "with_header (env_text E (input_header i sid gen)) data = Some body"
    using assms(1) by (auto simp: SendBytes_def Let_def split: option.splits)
  have "sv_calls (handleBinaryInput E cid body s) = sv_calls s @ [(ascii ''session.sendBytes'',
        mustJSON E [(''sessionId'', GStr sid), (''generation'', GUint gen), (''data'', GBytes data)],
        cl_controllerID (sv_client s cid))]"
    using accept_with_header [OF w] assms(2) decode_input_header_sent [of i sid gen]
    by (simp add: handleBinaryInput_def Let_def case_prod_beta call_backend_def respond_def split: sum.split)
  then show ?thesis using t by (simp add: serve_frame_def FrameInput_def FrameRequest_def)
qed

definition demo_input :: "nat env" where
  "demo_input = demo_env\<lparr>env_parse := (\<lambda>_. Some (input_header (call_id 1) [0x61] 1))\<rparr>"

theorem input_reaches_backend_witness:
  "length (sv_calls (snd (serve_frame demo_input 5 6 [] 1 FrameInput (be16 2 @ ascii ''{}'' @ [0x62]) demo_delegate))) = 1"
proof -
  have s: "SendBytes demo_input [0x61] 1 [0x62] new_client =
    (Some (call_id 1, FrameInput, be16 2 @ ascii ''{}'' @ [0x62]), snd (begin_call new_client))"
    by (simp add: SendBytes_def with_header_def demo_input_def demo_env_def new_client_def be16_def byte_of_def)
  have p: "env_parse demo_input (env_text demo_input (input_header (call_id 1) [0x61] 1)) = Some (input_header (call_id 1) [0x61] 1)"
    by (simp add: demo_input_def)
  have "sv_calls demo_delegate = []"
    by (simp add: demo_delegate_def upd_client_def demo_service_def NewService_def)
  then show ?thesis using input_reaches_backend [OF s p, of 5 6 "[]" 1 demo_delegate] by simp
qed

end
