(* ===== verification/Agent.thy ===== *)
theory Agent
  imports GoPath Json
begin

text \<open>
  Detection of coding agents (\<open>src/pkg/agentdetect\<close>): the search of the process tree, what a screen
  tells of Copilot and Crush, the monitor that follows the processes, and the socket on which an
  agent reports its state itself.
\<close>

declare runes_of.simps(2) [simp del]

section \<open>Processes\<close>

record process =
  PID :: int
  ParentPID :: int
  Executable :: bytes
  Command :: bytes
  CommandLine :: bytes
  StartTime :: "64 word"

definition byPID :: "process list \<Rightarrow> int \<Rightarrow> process option" where
  "byPID ps pid = List.find (\<lambda>p. PID p = pid) (rev ps)"

definition children_of :: "process list \<Rightarrow> int \<Rightarrow> int list" where
  "children_of ps pid = map PID (filter (\<lambda>p. ParentPID p = pid) ps)"

text \<open>
  The search with its stack (its head is the end of the slice) and the processes seen. It ends: a
  turn either makes the stack shorter or sees a process for the first time, and processes other
  than the first come from the list.
\<close>

definition unseen :: "process list \<Rightarrow> int list \<Rightarrow> int list \<Rightarrow> int set" where
  "unseen ps stack seen = (set stack \<union> set (map PID ps)) - set seen"

lemma children_of_set: "set (children_of ps pid) \<subseteq> set (map PID ps)"
  by (auto simp: children_of_def)

function tree_search :: "process list \<Rightarrow> (process \<Rightarrow> bool) \<Rightarrow> int list \<Rightarrow> int list \<Rightarrow> bool" where
  "tree_search ps match [] seen = False"
| "tree_search ps match (pid # stack) seen =
     (if pid \<in> set seen then tree_search ps match stack seen
      else if (case byPID ps pid of Some p \<Rightarrow> match p | None \<Rightarrow> False) then True
      else tree_search ps match (rev (children_of ps pid) @ stack) (pid # seen))"
  by pat_completeness auto
termination
proof (relation "measures [\<lambda>(ps, match, stack, seen). card (unseen ps stack seen), \<lambda>(ps, match, stack, seen). length stack]", goal_cases)
  case (2 ps match pid stack seen)
  then have "unseen ps stack seen = unseen ps (pid # stack) seen" by (auto simp: unseen_def)
  then show ?case by simp
next
  case (3 ps match pid stack seen)
  have "unseen ps (rev (children_of ps pid) @ stack) (pid # seen) \<subset> unseen ps (pid # stack) seen"
    using 3 children_of_set [of ps pid] by (auto simp: unseen_def)
  moreover have "finite (unseen ps (pid # stack) seen)" by (simp add: unseen_def)
  ultimately show ?case by (simp add: psubset_card_mono)
qed simp

definition processTreeContains :: "int \<Rightarrow> process list \<Rightarrow> (process \<Rightarrow> bool) \<Rightarrow> bool" where
  "processTreeContains root ps match = tree_search ps match [root] []"

definition processExecutableName :: "(bytes \<Rightarrow> bytes) \<Rightarrow> bytes \<Rightarrow> bytes" where
  "processExecutableName lower value =
     (let v = trim_space value in
      if v = [] then [] else strings_ToLower lower (filepath_Base (trim_suffix v (ascii '' (deleted)''))))"

definition processHasName :: "(bytes \<Rightarrow> bytes) \<Rightarrow> process \<Rightarrow> bytes list \<Rightarrow> bool" where
  "processHasName lower p names =
     (let a = processExecutableName lower (Executable p); b = processExecutableName lower (Command p);
          b1 = (if b \<noteq> [] then b
                else (case strings_Fields (CommandLine p) of [] \<Rightarrow> b | f # _ \<Rightarrow> processExecutableName lower f))
      in a \<in> set names \<or> b1 \<in> set names)"

datatype provider = NoProvider | Copilot | Crush

definition isCopilotProcess :: "(bytes \<Rightarrow> bytes) \<Rightarrow> process \<Rightarrow> bool" where
  "isCopilotProcess lower p = processHasName lower p [ascii ''copilot'', ascii ''copilot.exe'']"

definition isCrushProcess :: "(bytes \<Rightarrow> bytes) \<Rightarrow> process \<Rightarrow> bool" where
  "isCrushProcess lower p = processHasName lower p [ascii ''crush'', ascii ''crush.exe'']"

definition detectProcessProvider :: "(bytes \<Rightarrow> bytes) \<Rightarrow> int \<Rightarrow> process list \<Rightarrow> provider option" where
  "detectProcessProvider lower root ps =
     (if processTreeContains root ps (isCopilotProcess lower) then Some Copilot
      else if processTreeContains root ps (isCrushProcess lower) then Some Crush else None)"

text \<open>
  One entry of \<open>/proc\<close>: its name, whether it is a directory, and what reading \<open>stat\<close>, \<open>exe\<close> and
  \<open>cmdline\<close> gives. \<open>stat_fields\<close> are the fields behind the last closing parenthesis.
\<close>

record proc_entry =
  pe_name :: bytes
  pe_dir :: bool
  pe_stat :: "bytes option"
  pe_exe :: "bytes option"
  pe_cmdline :: "bytes option"

definition trim_sp :: "bytes \<Rightarrow> bytes" where
  "trim_sp s = rev (dropWhile (\<lambda>b. b = 0x20) (rev (dropWhile (\<lambda>b. b = 0x20) s)))"

definition stat_name :: "bytes \<Rightarrow> bytes" where
  "stat_name front = (case cut 0x28 front of None \<Rightarrow> front | Some (_, y) \<Rightarrow> y)"

definition read_entry :: "proc_entry \<Rightarrow> process option" where
  "read_entry e =
     (case (atoi (pe_name e), pe_stat e) of
        (Some pid, Some stat) \<Rightarrow>
          (if \<not> pe_dir e then None
           else
             (case cut_last 0x29 stat of
                None \<Rightarrow> None
              | Some (front, rest) \<Rightarrow>
                  (if length rest \<le> 1 then None
                   else
                     (let fs = strings_Fields (tl rest) in
                      if length fs < 20 then None
                      else
                        (case atoi (fs ! 1) of
                           None \<Rightarrow> None
                         | Some ppid \<Rightarrow>
                             (let exe = (case pe_exe e of Some p \<Rightarrow> filepath_Base p | None \<Rightarrow> []);
                                  cl = (case pe_cmdline e of Some d \<Rightarrow> d | None \<Rightarrow> []) in
                              Some \<lparr>PID = pid, ParentPID = ppid,
                                    Executable = (if exe = [] then trim_sp (stat_name front) else exe),
                                    Command = (case cut 0 cl of Some (x, _) \<Rightarrow> x | None \<Rightarrow> cl),
                                    CommandLine = trim_space (map (\<lambda>b. if b = 0 then 0x20 else b) cl),
                                    StartTime = ParseUint_value (fs ! 19)\<rparr>))))))
      | _ \<Rightarrow> None)"

definition proc_snapshot :: "proc_entry list \<Rightarrow> process list" where
  "proc_snapshot es = List.map_filter read_entry es"

section \<open>Screens\<close>

datatype agent_state = Unknown | Working | Blocked | Done | Idle

definition has_text :: "bytes \<Rightarrow> string \<Rightarrow> bool" where
  "has_text s t = contains s (ascii t)"

definition last_six :: "bytes list \<Rightarrow> bytes list" where
  "last_six xs = rev (take 6 (filter (\<lambda>l. trim_space l \<noteq> []) (rev xs)))"

text \<open>The markers, bullets and the box drawing line, in UTF-8.\<close>

definition copilot_markers :: "rune list" where
  "copilot_markers = [0x25CF, 0x25C9, 0x25CE, 0x25CB]"

definition box_line :: bytes where
  "box_line = [0xE2,0x94,0x80, 0xE2,0x94,0x80, 0xE2,0x94,0x80, 0xE2,0x94,0x80]"

definition left_arrow :: bytes where "left_arrow = [0xE2, 0x86, 0x90]"

definition hasCopilotWorkingMarker :: "bytes \<Rightarrow> bool" where
  "hasCopilotWorkingMarker line = (line \<noteq> [] \<and> fst (decode_rune line) \<in> set copilot_markers)"

definition blocked_marker :: "bytes \<Rightarrow> bool" where
  "blocked_marker m =
     (has_text m ''permission'' \<or> has_text m ''approve'' \<or> has_text m ''allow'' \<or> contains m box_line)"

definition blocked_line :: "(bytes \<Rightarrow> bytes) \<Rightarrow> bytes list \<Rightarrow> nat \<Rightarrow> bool" where
  "blocked_line lower ls i =
     (let line = strings_ToLower lower (ls ! i) in
      has_text line ''enter to select'' \<and> has_text line ''esc to cancel'' \<and>
      list_ex (\<lambda>j. blocked_marker (strings_ToLower lower (ls ! j))) [i - 1..<min (length ls) (i + 2)])"

definition DetectCopilotScreen :: "(bytes \<Rightarrow> bytes) \<Rightarrow> bytes list \<Rightarrow> agent_state option" where
  "DetectCopilotScreen lower xs =
     (let ls = last_six xs;
          footer = strings_ToLower lower (join_with [0x20] (strings_Fields (join_with [0x20] ls)))
      in if list_ex (\<lambda>l. hasCopilotWorkingMarker (strings_ToLower lower (trim_space l)) \<and> has_text footer ''esc interrupt'') ls
         then Some Working
         else if list_ex (blocked_line lower ls) [0..<length ls] then Some Blocked
         else if contains footer (left_arrow @ ascii '' open sidebar'') \<and> has_text footer ''/ commands'' \<and>
                 has_text footer ''? help'' \<and> has_text footer ''tab next''
         then Some Idle else None)"

definition DetectCrushScreen :: "(bytes \<Rightarrow> bytes) \<Rightarrow> bytes list \<Rightarrow> agent_state option" where
  "DetectCrushScreen lower xs =
     (let screen = strings_ToLower lower (join_with [0x0A] xs) in
      if has_text screen ''permission required'' \<and> has_text screen ''allow for session'' \<and>
         has_text screen ''deny'' \<and> has_text screen ''enter confirm'' then Some Blocked
      else if list_ex (\<lambda>l. same_key (trim_space l) (ascii ''> Ready for instructions'')) xs then Some Idle
      else None)"

section \<open>The monitor\<close>

datatype confidence = LowConfidence | HighConfidence

datatype source = FromProcess | FromScreen | FromHook | FromNative

record status =
  st_Provider :: provider
  st_State :: agent_state
  st_Source :: source
  st_Confidence :: confidence

record target =
  tg_ID :: bytes
  tg_Generation :: "64 word"
  tg_ProcessID :: int
  tg_Local :: bool

record update =
  up_ID :: bytes
  up_Generation :: "64 word"
  up_Status :: "status option"

record monitor =
  mo_targets :: "bytes \<rightharpoonup> target"
  mo_present :: "bytes \<rightharpoonup> target \<times> provider"
  mo_rootStarts :: "bytes \<rightharpoonup> 64 word"

definition NewMonitor :: monitor where
  "NewMonitor = \<lparr>mo_targets = Map.empty, mo_present = Map.empty, mo_rootStarts = Map.empty\<rparr>"

definition sync_targets :: "target list \<Rightarrow> (bytes \<rightharpoonup> target)" where
  "sync_targets ts =
     foldl (\<lambda>m t. if tg_ID t \<noteq> [] \<and> tg_Local t \<and> 0 < tg_ProcessID t then m(tg_ID t \<mapsto> t) else m) Map.empty ts"

text \<open>A target that goes or comes back under another generation is forgotten.\<close>

definition forgotten :: "(bytes \<rightharpoonup> target) \<Rightarrow> (bytes \<rightharpoonup> target) \<Rightarrow> bytes \<Rightarrow> bool" where
  "forgotten old new i =
     (case old i of
        None \<Rightarrow> False
      | Some t \<Rightarrow> (case new i of None \<Rightarrow> True | Some u \<Rightarrow> tg_Generation u \<noteq> tg_Generation t))"

definition Sync :: "target list \<Rightarrow> monitor \<Rightarrow> monitor" where
  "Sync ts m =
     (let new = sync_targets ts in
      \<lparr>mo_targets = new,
       mo_present = (\<lambda>i. if forgotten (mo_targets m) new i then None else mo_present m i),
       mo_rootStarts = (\<lambda>i. if forgotten (mo_targets m) new i then None else mo_rootStarts m i)\<rparr>)"

text \<open>
  \<open>poll\<close> for one target: the start time of its root process is remembered when it is first seen, and
  a process with another start time does not count. A start time of 0 counts as not remembered.
\<close>

definition start_of :: "monitor \<Rightarrow> bytes \<Rightarrow> 64 word" where
  "start_of m i = (case mo_rootStarts m i of Some w \<Rightarrow> w | None \<Rightarrow> 0)"

definition poll_target :: "(bytes \<Rightarrow> bytes) \<Rightarrow> process list \<Rightarrow> target \<Rightarrow> monitor \<Rightarrow> update list \<times> monitor" where
  "poll_target lower ps t m =
     (let i = tg_ID t; root = byPID ps (tg_ProcessID t);
          m1 = (case root of
                  Some r \<Rightarrow> if start_of m i = 0 then m\<lparr>mo_rootStarts := (mo_rootStarts m)(i \<mapsto> StartTime r)\<rparr> else m
                | None \<Rightarrow> m);
          same = (case root of Some r \<Rightarrow> StartTime r = start_of m1 i | None \<Rightarrow> False);
          prov = (if same then detectProcessProvider lower (tg_ProcessID t) ps else None)
      in case (prov, mo_present m1 i) of
           (Some p, cur) \<Rightarrow>
             (if (case cur of None \<Rightarrow> True | Some (u, q) \<Rightarrow> tg_Generation u \<noteq> tg_Generation t \<or> q \<noteq> p)
              then ([\<lparr>up_ID = i, up_Generation = tg_Generation t,
                      up_Status = Some \<lparr>st_Provider = p, st_State = Unknown, st_Source = FromProcess, st_Confidence = HighConfidence\<rparr>\<rparr>],
                    m1\<lparr>mo_present := (mo_present m1)(i \<mapsto> (t, p))\<rparr>)
              else ([], m1))
         | (None, Some (u, _)) \<Rightarrow>
             (if tg_Generation u = tg_Generation t
              then ([\<lparr>up_ID = i, up_Generation = tg_Generation t, up_Status = None\<rparr>],
                    m1\<lparr>mo_present := (mo_present m1)(i := None)\<rparr>)
              else ([], m1))
         | (None, None) \<Rightarrow> ([], m1))"

text \<open>
  \<open>poll\<close> on a snapshot, over the targets it read at its start in some order.
\<close>

fun poll_targets :: "(bytes \<Rightarrow> bytes) \<Rightarrow> process list \<Rightarrow> target list \<Rightarrow> monitor \<Rightarrow> update list \<times> monitor" where
  "poll_targets lower ps [] m = ([], m)"
| "poll_targets lower ps (t # ts) m =
     (let (us, m1) = poll_target lower ps t m; (vs, m2) = poll_targets lower ps ts m1 in (us @ vs, m2))"

section \<open>Native reports\<close>

definition NativeTarget :: "bytes \<Rightarrow> 64 word \<Rightarrow> bytes" where
  "NativeTarget i gen = i @ [0x3A] @ decimal (unat gen)"

definition parseNativeTarget :: "bytes \<Rightarrow> (bytes \<times> 64 word) option" where
  "parseNativeTarget t =
     (case cut_last 0x3A t of
        None \<Rightarrow> None
      | Some (i, g) \<Rightarrow>
          (if i = [] \<or> g = [] then None
           else (case ParseUint g of None \<Rightarrow> None | Some n \<Rightarrow> if n = 0 then None else Some (i, n))))"

record native_server =
  ns_lastSeq :: "bytes \<rightharpoonup> 64 word"
  ns_released :: "bytes \<rightharpoonup> bool"

record native_request =
  nr_ID :: bytes
  nr_Method :: bytes
  nr_PaneID :: bytes
  nr_Source :: bytes
  nr_Agent :: bytes
  nr_State :: bytes
  nr_Seq :: "64 word"

definition native_state :: "bytes \<Rightarrow> agent_state option" where
  "native_state s =
     (if s = ascii ''idle'' then Some Idle else if s = ascii ''working'' then Some Working
      else if s = ascii ''blocked'' then Some Blocked else None)"

definition acceptSequence :: "bytes \<Rightarrow> 64 word \<Rightarrow> native_server \<Rightarrow> bool \<times> native_server" where
  "acceptSequence t q s =
     (if q \<le> (case ns_lastSeq s t of Some l \<Rightarrow> l | None \<Rightarrow> 0) then (False, s)
      else (True, s\<lparr>ns_lastSeq := (ns_lastSeq s)(t \<mapsto> q)\<rparr>))"

definition native_translate :: "native_request \<Rightarrow> native_server \<Rightarrow> update option \<times> native_server" where
  "native_translate r s =
     (case parseNativeTarget (nr_PaneID r) of
        None \<Rightarrow> (None, s)
      | Some (i, gen) \<Rightarrow>
          (if nr_Source r \<noteq> ascii ''crush'' \<or> nr_Agent r \<noteq> ascii ''crush'' then (None, s)
           else if nr_Method r = ascii ''pane.report_agent'' then
             (case native_state (nr_State r) of
                None \<Rightarrow> (None, s)
              | Some st \<Rightarrow>
                  (let (ok, s1) = acceptSequence (nr_PaneID r) (nr_Seq r) s in
                   if \<not> ok then (None, s1)
                   else (Some \<lparr>up_ID = i, up_Generation = gen,
                               up_Status = Some \<lparr>st_Provider = Crush, st_State = st, st_Source = FromNative, st_Confidence = HighConfidence\<rparr>\<rparr>,
                         s1\<lparr>ns_released := (ns_released s1)(nr_PaneID r \<mapsto> False)\<rparr>)))
           else if nr_Method r = ascii ''pane.release_agent'' then
             (let (ok, s1) = acceptSequence (nr_PaneID r) (nr_Seq r) s in
              if \<not> ok then (None, s1)
              else if ns_released s1 (nr_PaneID r) = Some True then (None, s1)
              else (Some \<lparr>up_ID = i, up_Generation = gen, up_Status = None\<rparr>,
                    s1\<lparr>ns_released := (ns_released s1)(nr_PaneID r \<mapsto> True)\<rparr>))
           else (None, s)))"

text \<open>
  One connection: the line up to the newline, when it fits the buffer; \<open>None\<close> is no answer.
\<close>

definition maxNativeReportSize :: nat where "maxNativeReportSize = 64 * 1024"

definition decode_native :: "raw \<Rightarrow> native_request option" where
  "decode_native v =
     (case Option.bind v members of
        None \<Rightarrow> None
      | Some fs \<Rightarrow>
          (case (str_field ''id'' fs, str_field ''method'' fs,
                 field (\<lambda>a v. map_option (\<lambda>fs. a @ fs) (members v)) [] (ascii ''params'') fs) of
             (Some i, Some m, Some ps) \<Rightarrow>
               (case (str_field ''pane_id'' ps, str_field ''source'' ps, str_field ''agent'' ps,
                      str_field ''state'' ps, uint_field ''seq'' ps) of
                  (Some p, Some sr, Some a, Some st, Some q) \<Rightarrow>
                    Some \<lparr>nr_ID = i, nr_Method = m, nr_PaneID = p, nr_Source = sr, nr_Agent = a, nr_State = st, nr_Seq = q\<rparr>
                | _ \<Rightarrow> None)
           | _ \<Rightarrow> None))"

definition native_response :: "bytes \<Rightarrow> bool \<Rightarrow> json" where
  "native_response i ok =
     (if ok then JObj [(ascii ''id'', JStr i), (ascii ''result'', JObj [(ascii ''type'', JStr (ascii ''ok''))])]
      else JObj [(ascii ''error'', JObj [(ascii ''code'', JStr (ascii ''invalid_request''))]), (ascii ''id'', JStr i)])"

definition native_handle ::
  "(bytes \<Rightarrow> raw) \<Rightarrow> bytes \<Rightarrow> native_server \<Rightarrow> json option \<times> update option \<times> native_server" where
  "native_handle parse stream s =
     (case cut 0x0A stream of
        None \<Rightarrow> (None, None, s)
      | Some (line, _) \<Rightarrow>
          (if maxNativeReportSize < length line + 1 then (None, None, s)
           else
             (case decode_native (parse (line @ [0x0A])) of
                None \<Rightarrow> (None, None, s)
              | Some r \<Rightarrow>
                  (case native_translate r s of
                     (None, s1) \<Rightarrow> (Some (native_response (nr_ID r) False), None, s1)
                   | (Some u, s1) \<Rightarrow> (Some (native_response (nr_ID r) True), Some u, s1)))))"

end
