(* ===== verification/AgentProps.thy ===== *)
theory AgentProps
  imports Agent
begin

text \<open>
  What the detection of agents guarantees: the search finds exactly the descendants, a pane's name is
  read back from its target, accepted reports are in order, and the monitor reports changes only.
\<close>

section \<open>The process tree\<close>

definition is_child :: "process list \<Rightarrow> int \<Rightarrow> int \<Rightarrow> bool" where
  "is_child ps a b \<longleftrightarrow> (\<exists>p \<in> set ps. PID p = b \<and> ParentPID p = a)"

definition matches :: "process list \<Rightarrow> (process \<Rightarrow> bool) \<Rightarrow> int \<Rightarrow> bool" where
  "matches ps match pid \<longleftrightarrow> (case byPID ps pid of Some p \<Rightarrow> match p | None \<Rightarrow> False)"

lemma children_of_iff: "b \<in> set (children_of ps a) \<longleftrightarrow> is_child ps a b"
  by (auto simp: children_of_def is_child_def)

lemma tree_search_sound:
  "tree_search ps match stack seen \<Longrightarrow> \<exists>a \<in> set stack. \<exists>b. (is_child ps)\<^sup>*\<^sup>* a b \<and> matches ps match b"
proof (induction ps match stack seen rule: tree_search.induct)
  case (2 ps match pid stack seen)
  show ?case
  proof (cases "matches ps match pid")
    case True
    then show ?thesis by auto
  next
    case no: False
    show ?thesis
    proof (cases "pid \<in> set seen")
      case True
      with 2 show ?thesis by auto
    next
      case False
      have n: "\<not> (case byPID ps pid of None \<Rightarrow> False | Some p \<Rightarrow> match p)" using no by (simp add: matches_def)
      have t: "tree_search ps match (rev (children_of ps pid) @ stack) (pid # seen)"
        using "2.prems" False n by (auto split: if_splits)
      from "2.IH"(2) [OF False n t]
      obtain a b where "a \<in> set (rev (children_of ps pid) @ stack)" "(is_child ps)\<^sup>*\<^sup>* a b" "matches ps match b"
        by blast
      then show ?thesis
        by (auto simp: children_of_iff intro: converse_rtranclp_into_rtranclp)
    qed
  qed
qed simp

lemma tree_search_closed:
  assumes "\<not> tree_search ps match stack seen"
    and "\<And>x y. x \<in> set seen \<Longrightarrow> is_child ps x y \<Longrightarrow> y \<in> set seen \<union> set stack"
    and "\<And>x. x \<in> set seen \<Longrightarrow> \<not> matches ps match x"
  shows "\<exists>S. set stack \<union> set seen \<subseteq> S \<and> (\<forall>x \<in> S. \<not> matches ps match x \<and> (\<forall>y. is_child ps x y \<longrightarrow> y \<in> S))"
  using assms
proof (induction ps match stack seen rule: tree_search.induct)
  case (1 ps match seen)
  then show ?case by (intro exI [of _ "set seen"]) auto
next
  case (2 ps match pid stack seen)
  show ?case
  proof (cases "pid \<in> set seen")
    case True
    have "\<exists>S. set stack \<union> set seen \<subseteq> S \<and> (\<forall>x \<in> S. \<not> matches ps match x \<and> (\<forall>y. is_child ps x y \<longrightarrow> y \<in> S))"
    proof (rule "2.IH"(1) [OF True])
      show "\<not> tree_search ps match stack seen" using True "2.prems"(1) by simp
      show "y \<in> set seen \<union> set stack" if "x \<in> set seen" "is_child ps x y" for x y
        using "2.prems"(2) [OF that] True by auto
    qed (rule "2.prems"(3))
    then obtain S where S: "set stack \<union> set seen \<subseteq> S"
      "\<forall>x \<in> S. \<not> matches ps match x \<and> (\<forall>y. is_child ps x y \<longrightarrow> y \<in> S)" by blast
    from S(1) True have "set (pid # stack) \<union> set seen \<subseteq> S" by auto
    with S(2) show ?thesis by blast
  next
    case False
    have no: "\<not> matches ps match pid"
      using False "2.prems"(1) by (auto simp: matches_def split: option.splits)
    have "\<exists>S. set (rev (children_of ps pid) @ stack) \<union> set (pid # seen) \<subseteq> S \<and>
        (\<forall>x \<in> S. \<not> matches ps match x \<and> (\<forall>y. is_child ps x y \<longrightarrow> y \<in> S))"
    proof (rule "2.IH"(2))
      show "pid \<notin> set seen" by (rule False)
      show "\<not> (case byPID ps pid of None \<Rightarrow> False | Some p \<Rightarrow> match p)" using no by (simp add: matches_def)
      show "\<not> tree_search ps match (rev (children_of ps pid) @ stack) (pid # seen)"
        using False "2.prems"(1) by (auto split: if_splits)
      fix x y
      assume "x \<in> set (pid # seen)" and "is_child ps x y"
      then show "y \<in> set (pid # seen) \<union> set (rev (children_of ps pid) @ stack)"
        using "2.prems"(2) [of x y] by (auto simp: children_of_iff)
    next
      fix x
      assume "x \<in> set (pid # seen)"
      then show "\<not> matches ps match x" using no "2.prems"(3) [of x] by auto
    qed
    then obtain S where S: "set (rev (children_of ps pid) @ stack) \<union> set (pid # seen) \<subseteq> S"
      "\<forall>x \<in> S. \<not> matches ps match x \<and> (\<forall>y. is_child ps x y \<longrightarrow> y \<in> S)" by blast
    from S(1) have "set (pid # stack) \<union> set seen \<subseteq> S" by auto
    with S(2) show ?thesis by blast
  qed
qed

text \<open>
  C14. The search of the process tree ends on every process table, also one with cycles, and finds
  exactly what it should: it answers yes iff the root or one of its descendants is a listed process
  that matches. Of processes listed twice the last one counts.
\<close>

theorem process_tree_search_exact:
  "processTreeContains root ps match =
   (\<exists>pid p. (is_child ps)\<^sup>*\<^sup>* root pid \<and> byPID ps pid = Some p \<and> match p)"
proof
  assume "processTreeContains root ps match"
  then obtain b where "(is_child ps)\<^sup>*\<^sup>* root b" "matches ps match b"
    using tree_search_sound [of ps match "[root]" "[]"] by (auto simp: processTreeContains_def)
  then show "\<exists>pid p. (is_child ps)\<^sup>*\<^sup>* root pid \<and> byPID ps pid = Some p \<and> match p"
    by (auto simp: matches_def split: option.splits)
next
  assume "\<exists>pid p. (is_child ps)\<^sup>*\<^sup>* root pid \<and> byPID ps pid = Some p \<and> match p"
  then obtain b where b: "(is_child ps)\<^sup>*\<^sup>* root b" "matches ps match b"
    by (auto simp: matches_def)
  show "processTreeContains root ps match"
  proof (rule ccontr)
    assume "\<not> processTreeContains root ps match"
    then obtain S where S: "root \<in> S" "\<forall>x \<in> S. \<not> matches ps match x \<and> (\<forall>y. is_child ps x y \<longrightarrow> y \<in> S)"
      using tree_search_closed [of ps match "[root]" "[]"] by (auto simp: processTreeContains_def)
    have "b \<in> S" using b(1) by (induction rule: rtranclp_induct) (use S in auto)
    with S b(2) show False by blast
  qed
qed

section \<open>Native reports\<close>

lemma cut_last_none [simp]: "c \<notin> set s \<Longrightarrow> cut_last c s = None"
  by (induction s) auto

lemma cut_last_append: "c \<notin> set y \<Longrightarrow> cut_last c (x @ c # y) = Some (x, y)"
  by (induction x) auto

text \<open>
  The name of a pane that an agent reports under is read back as the session and generation it
  was made of, for every session name, colons included; only an empty name or generation 0 is refused.
\<close>

theorem native_target_roundtrip:
  "parseNativeTarget (NativeTarget i gen) = (if i = [] \<or> gen = 0 then None else Some (i, gen))"
proof -
  have "0x3A \<notin> set (decimal (unat gen))"
    using decimal_digits [of "unat gen"] by (auto simp: list_all_iff byte_in_def word_le_nat_alt)
  then obtain d where d: "d = decimal (unat gen)" and c: "cut_last 0x3A (NativeTarget i gen) = Some (i, d)"
    by (simp add: NativeTarget_def cut_last_append)
  have "unat gen < 2 ^ 64" using unsigned_less [of gen] by simp
  then have "ParseUint d = Some gen" and "d \<noteq> []"
    by (simp_all add: d ParseUint_def digits_val_decimal)
  then show ?thesis by (simp add: parseNativeTarget_def c)
qed

text \<open>The reports of a run that are accepted, with the pane and number of each.\<close>

fun accepted :: "native_request list \<Rightarrow> native_server \<Rightarrow> (bytes \<times> 64 word) list" where
  "accepted [] s = []"
| "accepted (r # rs) s =
     (let (u, s1) = native_translate r s in
      (if u = None then [] else [(nr_PaneID r, nr_Seq r)]) @ accepted rs s1)"

definition last_seq :: "native_server \<Rightarrow> bytes \<Rightarrow> 64 word" where
  "last_seq s t = (case ns_lastSeq s t of Some l \<Rightarrow> l | None \<Rightarrow> 0)"

lemma native_translate_seq:
  assumes "native_translate r s = (u, s1)"
  shows "last_seq s t \<le> last_seq s1 t"
    and "u \<noteq> None \<Longrightarrow> last_seq s (nr_PaneID r) < nr_Seq r \<and> last_seq s1 (nr_PaneID r) = nr_Seq r"
  using assms
  by (auto simp: native_translate_def acceptSequence_def last_seq_def Let_def word_gt_0 split: option.splits prod.splits if_splits)

lemma accepted_above: "(t, q) \<in> set (accepted rs s) \<Longrightarrow> last_seq s t < q"
proof (induction rs arbitrary: s)
  case (Cons r rs)
  obtain u s1 where u: "native_translate r s = (u, s1)" by (metis surj_pair)
  show ?case
  proof (cases "u \<noteq> None \<and> t = nr_PaneID r \<and> q = nr_Seq r")
    case True
    then show ?thesis using native_translate_seq(2) [OF u] by simp
  next
    case False
    then have "(t, q) \<in> set (accepted rs s1)"
      using Cons.prems u by (auto split: if_splits)
    from Cons.IH [OF this] native_translate_seq(1) [OF u, of t] show ?thesis by simp
  qed
qed simp

text \<open>
  C33. Reports of an agent are accepted in order: whatever arrives, in whatever order, the numbers of
  the reports accepted for one pane increase strictly, so a late or repeated report changes nothing.
\<close>

theorem native_reports_in_order:
  "sorted_wrt (<) (map snd (filter (\<lambda>a. fst a = t) (accepted rs s)))"
proof (induction rs arbitrary: s)
  case (Cons r rs)
  obtain u s1 where u: "native_translate r s = (u, s1)" by (metis surj_pair)
  have "nr_Seq r < q" if "u \<noteq> None" "(nr_PaneID r, q) \<in> set (accepted rs s1)" for q
    using accepted_above [OF that(2)] native_translate_seq(2) [OF u that(1)] by simp
  then show ?case using Cons.IH [of s1] u by auto
qed simp

section \<open>The monitor\<close>

definition known :: "monitor \<Rightarrow> bytes \<Rightarrow> (64 word \<times> provider) option" where
  "known m i = map_option (\<lambda>(t, p). (tg_Generation t, p)) (mo_present m i)"

text \<open>What an update makes of what its reader knows.\<close>

definition apply_update :: "(64 word \<times> provider) option \<Rightarrow> update \<Rightarrow> (64 word \<times> provider) option" where
  "apply_update k u =
     (case up_Status u of Some st \<Rightarrow> Some (up_Generation u, st_Provider st) | None \<Rightarrow> None)"

text \<open>
  C36. The monitor reports exactly the changes: following the updates a poll publishes for a target
  leads to what the monitor now knows of it, and a poll publishes one update when that changed and
  none when it did not.
\<close>

theorem poll_reports_changes:
  "case poll_target lower ps t m of
     (us, m1) \<Rightarrow>
       known m1 (tg_ID t) = foldl apply_update (known m (tg_ID t)) us \<and>
       (known m1 (tg_ID t) = known m (tg_ID t)) = (us = []) \<and> length us \<le> 1 \<and>
       (\<forall>i. i = tg_ID t \<or> known m1 i = known m i)"
  by (auto simp: poll_target_def Let_def known_def apply_update_def split: option.splits prod.splits if_splits)

end
