(* ===== verification/AgentStatus.thy ===== *)
theory AgentStatus
  imports AgentProps ScreenText
begin

text \<open>
  What the interface knows of the agents in its sessions (\<open>src/pkg/ui/agent_status.go\<close>): updates of
  the monitor and of native reports, what the screens add, and what is shown of a connection. The
  sessions are what \<open>RuntimeSnapshot\<close> and \<open>VisibleLines\<close> say of them; times are left out.
\<close>

declare runes_of.simps(2) [simp del]

section \<open>State\<close>

record ui_session =
  us_ID :: bytes
  us_Generation :: "64 word"
  us_ProcessID :: int
  us_Local :: bool
  us_Exited :: bool
  us_Lines :: "bufferLine list"

type_synonym detected = "status \<times> 64 word"

text \<open>Sessions are known by their place in the list; \<open>viewed\<close> is the one in focus.\<close>

record agent_ui =
  au_sessions :: "ui_session list"
  au_viewed :: "nat option"
  au_statuses :: "bytes \<rightharpoonup> detected"
  au_spinner :: bool
  au_running :: bool

definition sourcePriority :: "source \<Rightarrow> nat" where
  "sourcePriority s = (case s of FromNative \<Rightarrow> 4 | FromHook \<Rightarrow> 3 | FromScreen \<Rightarrow> 2 | FromProcess \<Rightarrow> 1)"

fun find_id :: "bytes \<Rightarrow> ui_session list \<Rightarrow> nat option" where
  "find_id i [] = None"
| "find_id i (x # xs) = (if us_ID x = i then Some 0 else map_option Suc (find_id i xs))"

definition sessionByRuntimeID :: "bytes \<Rightarrow> agent_ui \<Rightarrow> nat option" where
  "sessionByRuntimeID i s = find_id i (au_sessions s)"

definition isViewedSession :: "nat \<Rightarrow> agent_ui \<Rightarrow> bool" where
  "isViewedSession k s \<longleftrightarrow> au_viewed s = Some k"

definition agentStatus :: "ui_session \<Rightarrow> agent_ui \<Rightarrow> status option" where
  "agentStatus x s =
     (case au_statuses s (us_ID x) of
        None \<Rightarrow> None
      | Some (st, gen) \<Rightarrow> if gen = us_Generation x then Some st else None)"

section \<open>What the screen tells\<close>

text \<open>Soft-wrapped rows are joined; real line breaks stay boundaries.\<close>

fun join_wrapped :: "bytes \<Rightarrow> bufferLine list \<Rightarrow> bytes list" where
  "join_wrapped acc [] = []"
| "join_wrapped acc (l # ls) =
     (if bl_SoftWrap l \<and> ls \<noteq> [] then join_wrapped (acc @ bl_Text l) ls
      else (acc @ bl_Text l) # join_wrapped [] ls)"

definition detectScreen :: "(bytes \<Rightarrow> bytes) \<Rightarrow> provider \<Rightarrow> bytes list \<Rightarrow> agent_state option" where
  "detectScreen lower p xs =
     (case p of Copilot \<Rightarrow> DetectCopilotScreen lower xs | Crush \<Rightarrow> DetectCrushScreen lower xs | NoProvider \<Rightarrow> None)"

text \<open>The flag says whether the change is announced.\<close>

definition evaluateAgentSession :: "(bytes \<Rightarrow> bytes) \<Rightarrow> nat \<Rightarrow> agent_ui \<Rightarrow> bool \<times> agent_ui" where
  "evaluateAgentSession lower k s =
     (let x = au_sessions s ! k in
      if length (au_sessions s) \<le> k then (False, s)
      else
        (case agentStatus x s of
           None \<Rightarrow> (False, s)
         | Some st \<Rightarrow>
             (if sourcePriority FromScreen < sourcePriority (st_Source st) \<and> st_State st \<noteq> Unknown then (False, s)
              else
                (case detectScreen lower (st_Provider st) (join_wrapped [] (us_Lines x)) of
                   None \<Rightarrow> (False, s)
                 | Some found \<Rightarrow>
                     (let nxt = (if found = Idle \<and> \<not> isViewedSession k s then Done else found);
                          new = \<lparr>st_Provider = st_Provider st, st_State = nxt, st_Source = FromScreen,
                                 st_Confidence = HighConfidence\<rparr>
                      in (st_State st \<noteq> nxt \<or> st_Source st \<noteq> FromScreen,
                          s\<lparr>au_statuses := (au_statuses s)(us_ID x \<mapsto> (new, us_Generation x))\<rparr>))))))"

section \<open>Updates\<close>

definition status_changed :: "detected option \<Rightarrow> status \<Rightarrow> 64 word \<Rightarrow> bool" where
  "status_changed previous nxt gen =
     (case previous of
        None \<Rightarrow> True
      | Some (st, g) \<Rightarrow> g \<noteq> gen \<or> st \<noteq> nxt)"

definition applyAgentUpdate :: "(bytes \<Rightarrow> bytes) \<Rightarrow> update \<Rightarrow> agent_ui \<Rightarrow> bool \<times> agent_ui" where
  "applyAgentUpdate lower u s =
     (case sessionByRuntimeID (up_ID u) s of
        None \<Rightarrow> (False, s)
      | Some k \<Rightarrow>
          (if us_Generation (au_sessions s ! k) \<noteq> up_Generation u then (False, s)
           else
             (case up_Status u of
                None \<Rightarrow> (au_statuses s (up_ID u) \<noteq> None, s\<lparr>au_statuses := (au_statuses s)(up_ID u := None)\<rparr>)
              | Some st \<Rightarrow>
                  (let previous = au_statuses s (up_ID u) in
                   if (case previous of None \<Rightarrow> False
                       | Some (old, g) \<Rightarrow> g = up_Generation u \<and> sourcePriority (st_Source st) < sourcePriority (st_Source old))
                   then (False, s)
                   else
                     (let finished = (st_State st = Idle \<and> \<not> isViewedSession k s \<and>
                            (case previous of None \<Rightarrow> False | Some (old, _) \<Rightarrow> st_State old = Working \<or> st_State old = Blocked));
                          nxt = (if finished then st\<lparr>st_State := Done\<rparr> else st);
                          s1 = s\<lparr>au_statuses := (au_statuses s)(up_ID u \<mapsto> (nxt, up_Generation u))\<rparr>;
                          s2 = (if st_Provider st = Copilot \<or> st_Provider st = Crush
                                then snd (evaluateAgentSession lower k s1) else s1)
                      in (status_changed previous nxt (up_Generation u), s2))))))"

definition acknowledgeFocusedAgent :: "nat \<Rightarrow> agent_ui \<Rightarrow> agent_ui" where
  "acknowledgeFocusedAgent k s =
     (let x = au_sessions s ! k in
      case au_statuses s (us_ID x) of
        None \<Rightarrow> s
      | Some (st, g) \<Rightarrow>
          (if g = us_Generation x \<and> st_State st = Done
           then s\<lparr>au_statuses := (au_statuses s)(us_ID x \<mapsto> (st\<lparr>st_State := Idle\<rparr>, g))\<rparr> else s))"

text \<open>\<open>syncAgentSessions\<close>: the targets given to the monitor and the statuses that stay.\<close>

definition sync_valid :: "ui_session list \<Rightarrow> (bytes \<rightharpoonup> 64 word)" where
  "sync_valid xs =
     foldl (\<lambda>m x. if us_ID x \<noteq> [] \<and> us_Local x \<and> 0 < us_ProcessID x then m(us_ID x \<mapsto> us_Generation x) else m) Map.empty xs"

definition syncAgentSessions :: "agent_ui \<Rightarrow> target list \<times> agent_ui" where
  "syncAgentSessions s =
     (map (\<lambda>x. \<lparr>tg_ID = us_ID x, tg_Generation = us_Generation x, tg_ProcessID = us_ProcessID x, tg_Local = us_Local x\<rparr>)
        (filter (\<lambda>x. us_ID x \<noteq> []) (au_sessions s)),
      s\<lparr>au_statuses := (\<lambda>i. case au_statuses s i of
            None \<Rightarrow> None
          | Some (st, g) \<Rightarrow> if sync_valid (au_sessions s) i = Some g then Some (st, g) else None)\<rparr>)"

section \<open>What is shown\<close>

definition statePriority :: "agent_state \<Rightarrow> nat" where
  "statePriority st = (case st of Blocked \<Rightarrow> 4 | Working \<Rightarrow> 3 | Unknown \<Rightarrow> 2 | Idle \<Rightarrow> 1 | Done \<Rightarrow> 0)"

definition shown_status :: "agent_ui \<Rightarrow> ui_session \<Rightarrow> status option" where
  "shown_status s x =
     (if us_Exited x then None
      else map_option (\<lambda>st. if st_State st = Done then st\<lparr>st_State := Idle\<rparr> else st) (agentStatus x s))"

fun summary_from :: "agent_ui \<Rightarrow> (status \<times> nat) option \<Rightarrow> ui_session list \<Rightarrow> (status \<times> nat) option" where
  "summary_from s acc [] = acc"
| "summary_from s acc (x # xs) =
     summary_from s
       (case shown_status s x of
          None \<Rightarrow> acc
        | Some st \<Rightarrow>
            (case acc of
               None \<Rightarrow> Some (st, 1)
             | Some (sel, n) \<Rightarrow>
                 Some (if statePriority (st_State sel) < statePriority (st_State st) then st else sel, Suc n))) xs"

definition connectionAgentSummary :: "agent_ui \<Rightarrow> ui_session list \<Rightarrow> (status \<times> nat) option" where
  "connectionAgentSummary s xs = summary_from s None xs"

definition agentProviderName :: "provider \<Rightarrow> bytes" where
  "agentProviderName p = (case p of Copilot \<Rightarrow> ascii ''Copilot'' | Crush \<Rightarrow> ascii ''Crush'' | NoProvider \<Rightarrow> [])"

definition state_name :: "agent_state \<Rightarrow> bytes" where
  "state_name st =
     ascii (case st of Unknown \<Rightarrow> ''unknown'' | Working \<Rightarrow> ''working'' | Blocked \<Rightarrow> ''blocked'' | Done \<Rightarrow> ''done''
            | Idle \<Rightarrow> ''idle'')"

definition agentLabel :: "status \<Rightarrow> bytes" where
  "agentLabel st =
     (if st_State st = Unknown then agentProviderName (st_Provider st)
      else state_name (st_State st) @ [0x20] @ agentProviderName (st_Provider st))"

section \<open>Which source counts\<close>

text \<open>
  What can happen to the statuses: the updates a poll publishes, a native report, a look at a screen,
  and the user looking at a session.
\<close>

datatype agent_event = Polled "process list" target monitor | Reported native_request native_server | Looked nat | Acknowledged nat

definition agent_step :: "(bytes \<Rightarrow> bytes) \<Rightarrow> agent_ui \<Rightarrow> agent_event \<Rightarrow> agent_ui" where
  "agent_step lower s e =
     (case e of
        Polled ps t m \<Rightarrow> foldl (\<lambda>s u. snd (applyAgentUpdate lower u s)) s (fst (poll_target lower ps t m))
      | Reported r sv \<Rightarrow> (case fst (native_translate r sv) of None \<Rightarrow> s | Some u \<Rightarrow> snd (applyAgentUpdate lower u s))
      | Looked k \<Rightarrow> snd (evaluateAgentSession lower k s)
      | Acknowledged k \<Rightarrow> if k < length (au_sessions s) then acknowledgeFocusedAgent k s else s)"

text \<open>Only a process may report an unknown state.\<close>

definition sound_update :: "update \<Rightarrow> bool" where
  "sound_update u \<longleftrightarrow>
     (case up_Status u of None \<Rightarrow> True | Some st \<Rightarrow> st_State st = Unknown \<longrightarrow> st_Source st = FromProcess)"

lemma poll_sound: "u \<in> set (fst (poll_target lower ps t m)) \<Longrightarrow> sound_update u"
  by (auto simp: poll_target_def Let_def sound_update_def split: option.splits prod.splits if_splits)

lemma native_sound: "fst (native_translate r sv) = Some u \<Longrightarrow> sound_update u"
  by (auto simp: native_translate_def native_state_def Let_def sound_update_def
      split: option.splits prod.splits if_splits)

text \<open>A status keeps its rank: within a generation, what replaces it comes from no lesser source.\<close>

definition ranked :: "agent_ui \<Rightarrow> bool" where
  "ranked s \<longleftrightarrow> (\<forall>i st g. au_statuses s i = Some (st, g) \<longrightarrow> st_State st = Unknown \<longrightarrow> st_Source st = FromProcess)"

definition rank_le :: "agent_ui \<Rightarrow> agent_ui \<Rightarrow> bool" where
  "rank_le s t \<longleftrightarrow>
     (\<forall>i old g new h. au_statuses s i = Some (old, g) \<longrightarrow> au_statuses t i = Some (new, h) \<longrightarrow> g = h \<longrightarrow>
        sourcePriority (st_Source old) \<le> sourcePriority (st_Source new))"

lemma screens_known: "detectScreen lower p xs \<noteq> Some Unknown"
  by (auto simp: detectScreen_def DetectCopilotScreen_def DetectCrushScreen_def Let_def split: provider.splits if_splits)

lemma evaluate_rank:
  assumes "ranked s"
  shows "ranked (snd (evaluateAgentSession lower k s)) \<and> rank_le s (snd (evaluateAgentSession lower k s))"
proof -
  let ?x = "au_sessions s ! k"
  show ?thesis
  proof (cases "snd (evaluateAgentSession lower k s) = s")
    case True
    then show ?thesis using assms by (simp add: rank_le_def)
  next
    case False
    then obtain st found nxt where st: "agentStatus ?x s = Some st"
      and pr: "sourcePriority (st_Source st) \<le> sourcePriority FromScreen \<or> st_State st = Unknown"
      and found: "detectScreen lower (st_Provider st) (join_wrapped [] (us_Lines ?x)) = Some found"
      and new: "nxt = (if found = Idle \<and> \<not> isViewedSession k s then Done else found)"
      and s1: "snd (evaluateAgentSession lower k s) = s\<lparr>au_statuses := (au_statuses s)(us_ID ?x \<mapsto>
        (\<lparr>st_Provider = st_Provider st, st_State = nxt, st_Source = FromScreen, st_Confidence = HighConfidence\<rparr>, us_Generation ?x))\<rparr>"
      by (auto simp: evaluateAgentSession_def Let_def split: if_splits option.splits)
    from st have cur: "au_statuses s (us_ID ?x) = Some (st, us_Generation ?x)"
      by (auto simp: agentStatus_def split: option.splits if_splits)
    with assms have "st_State st = Unknown \<Longrightarrow> st_Source st = FromProcess"
      unfolding ranked_def by blast
    with pr have "sourcePriority (st_Source st) \<le> sourcePriority FromScreen"
      by (cases "st_State st = Unknown") (simp_all add: sourcePriority_def)
    moreover have "nxt \<noteq> Unknown" using found new screens_known by auto
    ultimately show ?thesis
      using assms cur by (auto simp: s1 ranked_def rank_le_def)
  qed
qed

lemma rank_le_refl: "rank_le s s" by (simp add: rank_le_def)

lemma evaluate_sessions [simp]: "au_sessions (snd (evaluateAgentSession lower k s)) = au_sessions s"
  by (simp add: evaluateAgentSession_def Let_def split: option.split)

lemma evaluate_keeps:
  "au_statuses s i = Some (st, g) \<Longrightarrow> \<exists>st2. au_statuses (snd (evaluateAgentSession lower k s)) i = Some (st2, g)"
  by (auto simp: evaluateAgentSession_def agentStatus_def Let_def split: option.split)

lemma update_rank:
  assumes r: "ranked s" and u: "sound_update u"
  shows "ranked (snd (applyAgentUpdate lower u s)) \<and> rank_le s (snd (applyAgentUpdate lower u s))"
proof (cases "\<exists>k st. sessionByRuntimeID (up_ID u) s = Some k \<and> us_Generation (au_sessions s ! k) = up_Generation u \<and>
    up_Status u = Some st \<and>
    \<not> (case au_statuses s (up_ID u) of None \<Rightarrow> False
       | Some (old, g) \<Rightarrow> g = up_Generation u \<and> sourcePriority (st_Source st) < sourcePriority (st_Source old))")
  case False
  then show ?thesis
    using r by (auto simp: applyAgentUpdate_def Let_def ranked_def rank_le_def split: option.split if_splits)
next
  case True
  then obtain k st where k: "sessionByRuntimeID (up_ID u) s = Some k" "us_Generation (au_sessions s ! k) = up_Generation u"
    "up_Status u = Some st" "\<not> (case au_statuses s (up_ID u) of None \<Rightarrow> False
       | Some (old, g) \<Rightarrow> g = up_Generation u \<and> sourcePriority (st_Source st) < sourcePriority (st_Source old))" by blast
  define nxt where "nxt = (if st_State st = Idle \<and> \<not> isViewedSession k s \<and>
      (case au_statuses s (up_ID u) of None \<Rightarrow> False | Some (old, _) \<Rightarrow> st_State old = Working \<or> st_State old = Blocked)
      then st\<lparr>st_State := Done\<rparr> else st)"
  define s1 where "s1 = s\<lparr>au_statuses := (au_statuses s)(up_ID u \<mapsto> (nxt, up_Generation u))\<rparr>"
  have eq: "snd (applyAgentUpdate lower u s) =
      (if st_Provider st = Copilot \<or> st_Provider st = Crush then snd (evaluateAgentSession lower k s1) else s1)"
    using k by (simp add: applyAgentUpdate_def Let_def nxt_def s1_def)
  have src: "st_Source nxt = st_Source st" "st_State nxt = Unknown \<longleftrightarrow> st_State st = Unknown"
    by (auto simp: nxt_def)
  have "ranked s1" using r u k(3) src by (auto simp: ranked_def s1_def sound_update_def)
  moreover have le: "rank_le s s1"
    using k(4) src by (auto simp: rank_le_def s1_def split: option.splits)
  moreover have "rank_le s (snd (evaluateAgentSession lower k s1))"
    unfolding rank_le_def
  proof (intro allI impI)
    fix i old g new h
    assume a: "au_statuses s i = Some (old, g)" "au_statuses (snd (evaluateAgentSession lower k s1)) i = Some (new, h)" "g = h"
    obtain mid gm where m: "au_statuses s1 i = Some (mid, gm)" using a(1) by (cases "i = up_ID u") (simp_all add: s1_def)
    from evaluate_keeps [OF m, of lower k] a(2,3) have "gm = g" by auto
    with le a m have "sourcePriority (st_Source old) \<le> sourcePriority (st_Source mid)" by (auto simp: rank_le_def)
    also have "\<dots> \<le> sourcePriority (st_Source new)"
      using evaluate_rank [OF \<open>ranked s1\<close>, of lower k] a(2,3) m \<open>gm = g\<close> by (auto simp: rank_le_def)
    finally show "sourcePriority (st_Source old) \<le> sourcePriority (st_Source new)" .
  qed
  ultimately show ?thesis using evaluate_rank [OF \<open>ranked s1\<close>, of lower k] by (simp add: eq)
qed

lemma find_id_Some: "find_id i xs = Some k \<Longrightarrow> k < length xs \<and> us_ID (xs ! k) = i"
  by (induction xs arbitrary: k) (auto split: if_splits)

lemma rank_step:
  assumes "ranked s"
  shows "ranked (agent_step lower s e)" and "\<not> (\<exists>ps t m. e = Polled ps t m) \<Longrightarrow> rank_le s (agent_step lower s e)"
proof -
  have many: "ranked (foldl (\<lambda>s u. snd (applyAgentUpdate lower u s)) s us)" if "list_all sound_update us" for us
    using that assms by (induction us arbitrary: s) (simp_all add: update_rank)
  show "ranked (agent_step lower s e)"
  proof (cases e)
    case (Polled ps t m)
    then show ?thesis using many [of "fst (poll_target lower ps t m)"] poll_sound
      by (simp add: agent_step_def list_all_iff)
  next
    case (Acknowledged k)
    then show ?thesis using assms
      by (auto simp: agent_step_def acknowledgeFocusedAgent_def Let_def ranked_def split: option.split)
  qed (use assms native_sound update_rank evaluate_rank in \<open>auto simp: agent_step_def split: option.split\<close>)
  show "rank_le s (agent_step lower s e)" if "\<not> (\<exists>ps t m. e = Polled ps t m)"
  proof (cases e)
    case (Acknowledged k)
    then show ?thesis
      by (auto simp: agent_step_def acknowledgeFocusedAgent_def Let_def rank_le_def split: option.split)
  qed (use that assms native_sound update_rank evaluate_rank rank_le_refl in \<open>auto simp: agent_step_def split: option.split\<close>)
qed

lemma poll_one: "length (fst (poll_target lower ps t m)) \<le> 1"
  by (auto simp: poll_target_def Let_def split: option.splits prod.splits)

lemma rank_step_all: "ranked s \<Longrightarrow> rank_le s (agent_step lower s e)"
proof (cases "\<exists>ps t m. e = Polled ps t m")
  case True
  assume r: "ranked s"
  from True obtain ps t m where e: "e = Polled ps t m" by blast
  consider "fst (poll_target lower ps t m) = []" | u where "fst (poll_target lower ps t m) = [u]"
    using poll_one [of lower ps t m] by (cases "fst (poll_target lower ps t m)") auto
  then show ?thesis
  proof cases
    case 1
    then show ?thesis by (simp add: e agent_step_def rank_le_refl)
  next
    case 2
    then have "sound_update u" using poll_sound [of u lower ps t m] by simp
    with update_rank [OF r] 2 show ?thesis by (simp add: e agent_step_def)
  qed
qed (simp add: rank_step(2))


text \<open>An idle screen makes an agent done again after it was acknowledged, without any work in between.\<close>

lemma idle_screen_is_done_again:
  assumes "k < length (au_sessions s)" and "agentStatus (au_sessions s ! k) s = Some st"
    and "st_Source st = FromScreen" and "st_State st = Idle" and "\<not> isViewedSession k s"
    and "detectScreen lower (st_Provider st) (join_wrapped [] (us_Lines (au_sessions s ! k))) = Some Idle"
  shows "map_option st_State (agentStatus (au_sessions s ! k) (snd (evaluateAgentSession lower k s))) = Some Done"
  using assms by (simp add: evaluateAgentSession_def Let_def agentStatus_def)

section \<open>The summary of a connection\<close>

definition best :: "status \<Rightarrow> status list \<Rightarrow> status" where
  "best = foldl (\<lambda>sel st. if statePriority (st_State sel) < statePriority (st_State st) then st else sel)"

lemma summary_from_Some:
  "summary_from s (Some (sel, n)) xs =
   Some (best sel (List.map_filter (shown_status s) xs), n + length (List.map_filter (shown_status s) xs))"
  by (induction xs arbitrary: sel n) (auto simp: best_def map_filter_simps split: option.split)

lemma summary_exact:
  "connectionAgentSummary s xs =
   (case List.map_filter (shown_status s) xs of [] \<Rightarrow> None | st # sts \<Rightarrow> Some (best st sts, Suc (length sts)))"
  unfolding connectionAgentSummary_def
  by (induction xs) (auto simp: map_filter_simps summary_from_Some split: option.split)

lemma best_in: "best st sts \<in> set (st # sts)"
  by (induction sts arbitrary: st) (auto simp: best_def split: if_splits)

lemma best_ge: "statePriority (st_State st) \<le> statePriority (st_State (best st sts))"
proof (induction sts arbitrary: st)
  case (Cons y sts)
  show ?case
  proof (cases "statePriority (st_State st) < statePriority (st_State y)")
    case True
    with Cons [of y] show ?thesis by (simp add: best_def)
  next
    case False
    with Cons [of st] show ?thesis by (simp add: best_def)
  qed
qed (simp add: best_def)

lemma best_max: "x \<in> set sts \<Longrightarrow> statePriority (st_State x) \<le> statePriority (st_State (best st sts))"
proof (induction sts arbitrary: st)
  case (Cons y sts)
  show ?case
  proof (cases "statePriority (st_State st) < statePriority (st_State y)")
    case True
    then have "best st (y # sts) = best y sts" by (simp add: best_def)
    with Cons best_ge [of y sts] show ?thesis by (cases "x = y") auto
  next
    case False
    then have b: "best st (y # sts) = best st sts" by (simp add: best_def)
    show ?thesis
    proof (cases "x = y")
      case True
      with False have "statePriority (st_State x) \<le> statePriority (st_State st)" by simp
      also note best_ge [of st sts]
      finally show ?thesis by (simp add: b)
    next
      case x: False
      with Cons b show ?thesis by simp
    qed
  qed
qed simp

text \<open>
  What is shown of a connection: the number of its running sessions with an agent, and the status
  of one of them that is most urgent, blocked before working before unknown before idle; nothing when
  there is none.
\<close>

theorem connection_summary_exact:
  "let shown = List.map_filter (shown_status s) xs in
   case connectionAgentSummary s xs of
     None \<Rightarrow> shown = []
   | Some (st, n) \<Rightarrow> n = length shown \<and> st \<in> set shown \<and>
       Max (set (map (statePriority \<circ> st_State) shown)) = statePriority (st_State st)"
proof (cases "List.map_filter (shown_status s) xs")
  case Nil
  then show ?thesis by (simp add: summary_exact)
next
  case (Cons st sts)
  have m: "Max (set (map (statePriority \<circ> st_State) (st # sts))) = statePriority (st_State (best st sts))"
  proof (rule Max_eqI)
    show "y \<le> statePriority (st_State (best st sts))" if "y \<in> set (map (statePriority \<circ> st_State) (st # sts))" for y
      using that best_max [of _ sts st] best_ge [of st sts] by auto
    show "statePriority (st_State (best st sts)) \<in> set (map (statePriority \<circ> st_State) (st # sts))"
      unfolding set_map comp_apply [symmetric, of statePriority st_State] by (rule imageI) (rule best_in)
  qed simp
  have eq: "connectionAgentSummary s xs = Some (best st sts, Suc (length sts))"
    by (simp add: summary_exact Cons)
  show ?thesis
    unfolding Let_def eq Cons option.case prod.case by (intro conjI m best_in) simp
qed

end
