(* ===== verification/Layout.thy ===== *)
theory Layout
  imports GoStrings
begin

text \<open>
  The geometry of the terminal interface (\<open>src/pkg/ui/layout.go\<close>) and its single-line text fields
  (\<open>textedit.go\<close>), and how a command line is split (\<open>cmdline.go\<close>). Sizes are Go's ints, taken without
  overflow.
\<close>

section \<open>Rectangles\<close>

record rect =
  rX :: int
  rY :: int
  rWidth :: int
  rHeight :: int

record layoutGeometry =
  ge_Screen :: rect
  ge_ConnectionRail :: rect
  ge_ConnectionDivider :: rect
  ge_TabBar :: rect
  ge_Pane :: rect
  ge_StatusBar :: rect

definition connectionRailWidth :: int where "connectionRailWidth = 15"
definition minimumConnectionRailWidth :: int where "minimumConnectionRailWidth = 8"
definition connectionRailDividerWidth :: int where "connectionRailDividerWidth = 1"
definition minimumMainPaneWidth :: int where "minimumMainPaneWidth = 10"

lemmas layout_sizes = connectionRailWidth_def minimumConnectionRailWidth_def connectionRailDividerWidth_def
  minimumMainPaneWidth_def

datatype connectionLayout = Bottom | LeftRail

definition normalizedConnectionLayout :: "bytes \<Rightarrow> connectionLayout" where
  "normalizedConnectionLayout v = (if v = ascii ''left'' then LeftRail else Bottom)"

definition no_rect :: rect where
  "no_rect = \<lparr>rX = 0, rY = 0, rWidth = 0, rHeight = 0\<rparr>"

text \<open>The part of the interface's state the geometry depends on.\<close>

record layout_state =
  ly_width :: int
  ly_height :: int
  ly_layout :: connectionLayout
  ly_rail :: int

definition geometry :: "layout_state \<Rightarrow> layoutGeometry" where
  "geometry s =
     (let width = (if ly_width s < 1 then 1 else ly_width s);
          height = (if ly_height s < 3 then 3 else ly_height s);
          screen = \<lparr>rX = 0, rY = 0, rWidth = width, rHeight = height\<rparr>
      in if ly_layout s = LeftRail \<and>
            minimumConnectionRailWidth + connectionRailDividerWidth + minimumMainPaneWidth \<le> width
         then
           (let wanted = (if ly_rail s \<le> 0 then connectionRailWidth else ly_rail s);
                maxRail = width - connectionRailDividerWidth - minimumMainPaneWidth;
                rail = min (max wanted minimumConnectionRailWidth) maxRail;
                mainX = rail + connectionRailDividerWidth;
                mainWidth = width - mainX
            in \<lparr>ge_Screen = screen,
                ge_ConnectionRail = \<lparr>rX = 0, rY = 0, rWidth = rail, rHeight = height\<rparr>,
                ge_ConnectionDivider = \<lparr>rX = rail, rY = 0, rWidth = connectionRailDividerWidth, rHeight = height\<rparr>,
                ge_TabBar = \<lparr>rX = mainX, rY = 0, rWidth = mainWidth, rHeight = 1\<rparr>,
                ge_Pane = \<lparr>rX = mainX, rY = 1, rWidth = mainWidth, rHeight = height - 1\<rparr>,
                ge_StatusBar = no_rect\<rparr>)
         else
           \<lparr>ge_Screen = screen, ge_ConnectionRail = no_rect, ge_ConnectionDivider = no_rect,
            ge_TabBar = \<lparr>rX = 0, rY = 0, rWidth = width, rHeight = 1\<rparr>,
            ge_Pane = \<lparr>rX = 0, rY = 1, rWidth = width, rHeight = height - 2\<rparr>,
            ge_StatusBar = \<lparr>rX = 0, rY = height - 1, rWidth = width, rHeight = 1\<rparr>\<rparr>)"

text \<open>\<open>resizeConnectionRail\<close>; the flag says whether the geometry is applied anew.\<close>

definition resizeConnectionRail :: "int \<Rightarrow> layout_state \<Rightarrow> bool \<times> layout_state" where
  "resizeConnectionRail width s =
     (let maxWidth = ly_width s - connectionRailDividerWidth - minimumMainPaneWidth in
      if maxWidth < minimumConnectionRailWidth then (False, s)
      else
        (let w = min (max width minimumConnectionRailWidth) maxWidth
         in if w = ly_rail s then (False, s) else (True, s\<lparr>ly_rail := w\<rparr>)))"

definition Contains :: "rect \<Rightarrow> int \<Rightarrow> int \<Rightarrow> bool" where
  "Contains r x y \<longleftrightarrow> rX r \<le> x \<and> x < rX r + rWidth r \<and> rY r \<le> y \<and> y < rY r + rHeight r"

definition ScreenToPane :: "layoutGeometry \<Rightarrow> int \<Rightarrow> int \<Rightarrow> (int \<times> int) option" where
  "ScreenToPane g x y = (if Contains (ge_Pane g) x y then Some (x - rX (ge_Pane g), y - rY (ge_Pane g)) else None)"

definition PaneToScreen :: "layoutGeometry \<Rightarrow> int \<Rightarrow> int \<Rightarrow> int \<times> int" where
  "PaneToScreen g x y = (rX (ge_Pane g) + x, rY (ge_Pane g) + y)"

definition usingLeftRail :: "layout_state \<Rightarrow> bool" where
  "usingLeftRail s \<longleftrightarrow> 0 < rWidth (ge_ConnectionRail (geometry s))"

definition parts :: "layoutGeometry \<Rightarrow> rect list" where
  "parts g = [ge_ConnectionRail g, ge_ConnectionDivider g, ge_TabBar g, ge_Pane g, ge_StatusBar g]"

text \<open>
  C20. The parts of the screen tile it for every size, layout and rail width, also for sizes that are
  zero or negative: each cell of the screen lies in exactly one part, each cell of a part in the
  screen, and the pane is never empty. A cell of the pane is found again from its place on the screen.
\<close>

theorem geometry_tiles_screen:
  "let g = geometry s in
   length (filter (\<lambda>r. Contains r x y) (parts g)) = (if Contains (ge_Screen g) x y then 1 else 0) \<and>
   0 < rWidth (ge_Pane g) \<and> 0 < rHeight (ge_Pane g) \<and>
   (case ScreenToPane g x y of
      None \<Rightarrow> \<not> Contains (ge_Pane g) x y
    | Some (px, py) \<Rightarrow> PaneToScreen g px py = (x, y) \<and> 0 \<le> px \<and> px < rWidth (ge_Pane g) \<and> 0 \<le> py \<and> py < rHeight (ge_Pane g))"
proof (cases "ly_layout s = LeftRail \<and> 19 \<le> (if ly_width s < 1 then 1 else ly_width s)")
  case True
  define w h where "w = (if ly_width s < 1 then 1 else ly_width s)" and "h = (if ly_height s < 3 then 3 else ly_height s)"
  define rail where "rail = min (max (if ly_rail s \<le> 0 then 15 else ly_rail s) 8) (w - 1 - 10)"
  have g: "geometry s = \<lparr>ge_Screen = \<lparr>rX = 0, rY = 0, rWidth = w, rHeight = h\<rparr>,
      ge_ConnectionRail = \<lparr>rX = 0, rY = 0, rWidth = rail, rHeight = h\<rparr>,
      ge_ConnectionDivider = \<lparr>rX = rail, rY = 0, rWidth = 1, rHeight = h\<rparr>,
      ge_TabBar = \<lparr>rX = rail + 1, rY = 0, rWidth = w - (rail + 1), rHeight = 1\<rparr>,
      ge_Pane = \<lparr>rX = rail + 1, rY = 1, rWidth = w - (rail + 1), rHeight = h - 1\<rparr>, ge_StatusBar = no_rect\<rparr>"
    using True by (simp add: geometry_def Let_def layout_sizes w_def h_def rail_def)
  have "19 \<le> w" "3 \<le> h" using True by (simp_all add: w_def h_def)
  then have "8 \<le> rail" "rail \<le> w - 11" by (auto simp: rail_def)
  then show ?thesis
    using \<open>3 \<le> h\<close> by (auto simp: g Let_def parts_def Contains_def no_rect_def ScreenToPane_def PaneToScreen_def)
next
  case False
  define w h where "w = (if ly_width s < 1 then 1 else ly_width s)" and "h = (if ly_height s < 3 then 3 else ly_height s)"
  have g: "geometry s = \<lparr>ge_Screen = \<lparr>rX = 0, rY = 0, rWidth = w, rHeight = h\<rparr>,
      ge_ConnectionRail = no_rect, ge_ConnectionDivider = no_rect,
      ge_TabBar = \<lparr>rX = 0, rY = 0, rWidth = w, rHeight = 1\<rparr>,
      ge_Pane = \<lparr>rX = 0, rY = 1, rWidth = w, rHeight = h - 2\<rparr>,
      ge_StatusBar = \<lparr>rX = 0, rY = h - 1, rWidth = w, rHeight = 1\<rparr>\<rparr>"
    using False by (auto simp: geometry_def Let_def layout_sizes w_def h_def)
  have "1 \<le> w" "3 \<le> h" by (simp_all add: w_def h_def)
  then show ?thesis
    by (auto simp: g Let_def parts_def Contains_def no_rect_def ScreenToPane_def PaneToScreen_def)
qed

section \<open>Text fields\<close>

text \<open>Fields hold runes; \<open>[]rune(s)\<close> and \<open>string(r)\<close> convert.\<close>

definition clampCursor :: "rune list \<Rightarrow> int \<Rightarrow> nat" where
  "clampCursor r pos = (if pos < 0 then 0 else min (nat pos) (length r))"

definition insertAt :: "bytes \<Rightarrow> int \<Rightarrow> bytes \<Rightarrow> bytes \<times> nat" where
  "insertAt s pos t =
     (let r = runes_of s; p = clampCursor r pos; ins = runes_of t
      in (string_of (take p r @ ins @ drop p r), p + length ins))"

definition backspaceAt :: "bytes \<Rightarrow> int \<Rightarrow> bytes \<times> nat" where
  "backspaceAt s pos =
     (let r = runes_of s; p = clampCursor r pos
      in if p = 0 then (s, 0) else (string_of (take (p - 1) r @ drop p r), p - 1))"

definition deleteAt :: "bytes \<Rightarrow> int \<Rightarrow> bytes \<times> nat" where
  "deleteAt s pos =
     (let r = runes_of s; p = clampCursor r pos
      in if length r \<le> p then (s, p) else (string_of (take p r @ drop (p + 1) r), p))"

text \<open>The cursor bar is U+258F.\<close>

definition renderWithCursor :: "bytes \<Rightarrow> int \<Rightarrow> bytes" where
  "renderWithCursor s pos =
     (let r = runes_of s; p = clampCursor r pos
      in string_of (take p r) @ [0xE2, 0x96, 0x8F] @ string_of (drop p r))"

section \<open>Command lines\<close>

definition shell_bytes :: "byte list" where
  "shell_bytes = map of_char ''|&;<>()$`*?[]{}~'' @ [0x22, 0x27, 0x5C]"

definition needsShell :: "bytes \<Rightarrow> bool" where
  "needsShell line = list_ex (\<lambda>b. b \<in> set shell_bytes) line"

definition ParseCmdLine :: "bytes \<Rightarrow> bytes list" where
  "ParseCmdLine line0 =
     (let line = trim_space line0 in
      if line = [] then []
      else if needsShell line then [ascii ''bash'', ascii ''-c'', line]
      else strings_Fields line)"

text \<open>
  Splitting a command line: a line that is not handed to the shell gives words that are not empty
  and hold no byte the shell would treat specially; a line that is goes to \<open>bash -c\<close> as one
  argument, trimmed and otherwise unchanged.
\<close>

theorem command_line_words:
  "let line = trim_space s in
   if needsShell line then ParseCmdLine s = [ascii ''bash'', ascii ''-c'', line]
   else list_all (\<lambda>w. w \<noteq> [] \<and> \<not> needsShell w \<and> set w \<subseteq> set line) (ParseCmdLine s)"
proof -
  have "w \<noteq> [] \<and> set w \<subseteq> set line" if "w \<in> set (strings_Fields line)" for w line
    using that fields_nonempty fields_bytes unfolding strings_Fields_def by fastforce
  then show ?thesis
    by (fastforce simp: Let_def ParseCmdLine_def list_all_iff needsShell_def list_ex_iff)
qed

section \<open>Editing\<close>

lemma clampCursor_le: "clampCursor r p \<le> length r"
  by (simp add: clampCursor_def)

lemma clampCursor_int [simp]: "n \<le> length r \<Longrightarrow> clampCursor r (int n) = n"
  by (simp add: clampCursor_def)

lemma backspace_one:
  assumes "list_all valid_rune (xs @ y # zs)"
  shows "backspaceAt (string_of (xs @ y # zs)) (int (length xs + 1)) = (string_of (xs @ zs), length xs)"
proof -
  have "runes_of (string_of (xs @ y # zs)) = xs @ y # zs"
    using assms by (intro runes_of_string_of_valid) (simp add: list_all_iff)
  then show ?thesis using clampCursor_int [of "length xs + 1" "xs @ y # zs"] by (simp add: backspaceAt_def Let_def)
qed

lemma backspace_many:
  assumes "list_all valid_rune (xs @ ys @ zs)"
  shows "((\<lambda>(s, p). backspaceAt s (int p)) ^^ length ys) (string_of (xs @ ys @ zs), length xs + length ys) =
    (string_of (xs @ zs), length xs)"
  using assms
proof (induction ys arbitrary: zs rule: rev_induct)
  case (snoc y ys)
  have "backspaceAt (string_of ((xs @ ys) @ y # zs)) (int (length (xs @ ys) + 1)) = (string_of ((xs @ ys) @ zs), length (xs @ ys))"
    using snoc.prems by (intro backspace_one) simp
  then show ?case
    using snoc by (simp add: funpow_swap1 funpow_Suc_right del: funpow.simps)
qed simp

text \<open>
  Typing and deleting in a text field: as many backspaces as runes were inserted give back the
  text and the cursor there was before, wherever the cursor was asked to be, also outside the text.
  An ill-formed byte of the text becomes a replacement character.
\<close>

theorem backspace_undoes_insert:
  "((\<lambda>(s, p). backspaceAt s (int p)) ^^ length (runes_of t)) (insertAt s pos t) =
   (reencode s, clampCursor (runes_of s) pos)"
proof -
  let ?r = "runes_of s" and ?p = "clampCursor (runes_of s) pos"
  have "list_all valid_rune (take ?p ?r @ runes_of t @ drop ?p ?r)"
    using runes_of_valid by (fastforce simp: list_all_iff dest: in_set_takeD in_set_dropD)
  from backspace_many [OF this]
  have "((\<lambda>(s, p). backspaceAt s (int p)) ^^ length (runes_of t))
      (string_of (take ?p ?r @ runes_of t @ drop ?p ?r), ?p + length (runes_of t)) = (string_of ?r, ?p)"
    using clampCursor_le [of ?r pos] by simp
  then show ?thesis by (simp add: insertAt_def Let_def reencode_def)
qed

end
