(* ===== verification/Connections.thy ===== *)
theory Connections
  imports ManagerProps AgentStatus ControlServe Layout
begin

text \<open>
  The connections of the interface (\<open>src/pkg/ui/connections.go\<close>): the ordered list of them, the
  active one, and the manager each has once the size of the terminal is known. All managers share
  one heap of sessions and screens, so that sessions can move between connections; an operation of
  \<open>Manager\<close> runs on the heap together with the fields of one manager (\<open>on_manager\<close>). The caches of
  what is on display are left out. An operation is \<open>None\<close> where the program would dereference a nil
  manager.
\<close>

declare runes_of.simps(2) [simp del]

section \<open>State\<close>

type_synonym labels = "(bytes \<times> bytes) list"

record mgr =
  mg_sessions :: "nat list"
  mg_focused :: int
  mg_cols :: int
  mg_rows :: int
  mg_SendOutput :: bool
  mg_SendExit :: bool
  mg_sshClient :: "nat option"
  mg_agentEndpoint :: bytes

definition load :: "('e, 'cs) world \<Rightarrow> mgr \<Rightarrow> ('e, 'cs) sessionManager" where
  "load w g =
     \<lparr>w_sessions = w_sessions w, w_screens = w_screens w, w_nextSession = w_nextSession w,
      w_nextScreen = w_nextScreen w, w_runs = w_runs w, w_output = w_output w, w_exits = w_exits w,
      w_closed = w_closed w, sessions = mg_sessions g, focused = mg_focused g, mgr_cols = mg_cols g,
      mgr_rows = mg_rows g, mgr_SendOutput = mg_SendOutput g, mgr_SendExit = mg_SendExit g,
      mgr_sshClient = mg_sshClient g, mgr_agentEndpoint = mg_agentEndpoint g\<rparr>"

definition heap_of :: "('e, 'cs, 'a) world_scheme \<Rightarrow> ('e, 'cs) world" where
  "heap_of m =
     \<lparr>w_sessions = w_sessions m, w_screens = w_screens m, w_nextSession = w_nextSession m,
      w_nextScreen = w_nextScreen m, w_runs = w_runs m, w_output = w_output m, w_exits = w_exits m,
      w_closed = w_closed m\<rparr>"

definition mgr_of :: "('e, 'cs) sessionManager \<Rightarrow> mgr" where
  "mgr_of m =
     \<lparr>mg_sessions = sessions m, mg_focused = focused m, mg_cols = mgr_cols m, mg_rows = mgr_rows m,
      mg_SendOutput = mgr_SendOutput m, mg_SendExit = mgr_SendExit m, mg_sshClient = mgr_sshClient m,
      mg_agentEndpoint = mgr_agentEndpoint m\<rparr>"

lemma load_heap [simp]: "load (heap_of m) (mgr_of m) = m"
  by (simp add: load_def heap_of_def mgr_of_def)

lemma heap_load [simp]: "heap_of (load w g) = w" "mgr_of (load w g) = g"
  by (simp_all add: load_def heap_of_def mgr_of_def)

record startupSession =
  ss_Title :: bytes
  ss_Cmd :: "bytes list"
  ss_CmdLine :: bytes
  ss_Cwd :: bytes

record connection =
  cn_id :: bytes
  cn_name :: bytes
  cn_labels :: labels
  cn_createdBy :: bytes
  cn_manager :: "mgr option"
  cn_initialCfg :: "startupSession list"
  cn_outputPending :: bool
  cn_webActive :: bool
  cn_callbacksBound :: bool

record controlSessionMeta =
  cm_createdBy :: bytes
  cm_parentID :: bytes
  cm_labels :: labels
  cm_cleanup :: bytes

text \<open>What \<open>PublishEvent\<close> of the control service is called with.\<close>

record published =
  pb_stream :: bytes
  pb_event :: bytes
  pb_session :: bytes
  pb_generation :: "64 word"
  pb_data :: "(bytes \<times> goval) list"

record ('e, 'cs) ui =
  ui_world :: "('e, 'cs) world"
  ui_connections :: "connection list"
  ui_active :: int
  ui_controlSessions :: "bytes \<rightharpoonup> controlSessionMeta"
  ui_suppressed :: "(bytes \<times> 64 word) set"
  ui_statuses :: "bytes \<rightharpoonup> detected"
  ui_monitoring :: bool
  ui_serving :: bool
  ui_layout :: layout_state
  ui_serverName :: bytes
  ui_agentEndpoint :: bytes
  ui_sshClient :: "nat option"
  ui_events :: "published list"
  ui_sent :: "(nat \<times> bytes) list"

text \<open>What is outside and stays: the emulator, the width of text, regular expressions.\<close>

record ('e, 'cs) ui_env =
  ue_emulator :: "('e, 'cs) emulator"
  ue_width :: "bytes \<Rightarrow> int"
  ue_regexp :: "bytes \<Rightarrow> bytes \<Rightarrow> bool option"
  ue_shape :: "'cs \<Rightarrow> json"

definition connection_at :: "('e, 'cs) ui \<Rightarrow> nat \<Rightarrow> connection" where
  "connection_at s k = ui_connections s ! k"

definition upd_connection :: "nat \<Rightarrow> (connection \<Rightarrow> connection) \<Rightarrow> ('e, 'cs) ui \<Rightarrow> ('e, 'cs) ui" where
  "upd_connection k f s = s\<lparr>ui_connections := (ui_connections s)[k := f (ui_connections s ! k)]\<rparr>"

text \<open>A call of a manager's method through the connection in place \<open>k\<close>.\<close>

definition on_manager ::
  "nat \<Rightarrow> (('e, 'cs) sessionManager \<Rightarrow> 'a \<times> ('e, 'cs) sessionManager) \<Rightarrow> ('e, 'cs) ui \<Rightarrow> ('a \<times> ('e, 'cs) ui) option" where
  "on_manager k f s =
     (case cn_manager (connection_at s k) of
        None \<Rightarrow> None
      | Some g \<Rightarrow>
          (let (a, m) = f (load (ui_world s) g)
           in Some (a, upd_connection k (\<lambda>c. c\<lparr>cn_manager := Some (mgr_of m)\<rparr>) (s\<lparr>ui_world := heap_of m\<rparr>))))"

definition run_manager ::
  "nat \<Rightarrow> (('e, 'cs) sessionManager \<Rightarrow> ('e, 'cs) sessionManager) \<Rightarrow> ('e, 'cs) ui \<Rightarrow> ('e, 'cs) ui option" where
  "run_manager k f s = map_option snd (on_manager k (\<lambda>m. ((), f m)) s)"

definition manager_sessions :: "connection \<Rightarrow> nat list" where
  "manager_sessions c = (case cn_manager c of None \<Rightarrow> [] | Some g \<Rightarrow> mg_sessions g)"

definition all_sessions :: "('e, 'cs) ui \<Rightarrow> nat list" where
  "all_sessions s = concat (map manager_sessions (ui_connections s))"

definition session_at :: "('e, 'cs) ui \<Rightarrow> nat \<Rightarrow> session" where
  "session_at s sid = w_sessions (ui_world s) sid"

definition screen_of :: "('e, 'cs) ui \<Rightarrow> nat \<Rightarrow> ('e, 'cs) vtScreen" where
  "screen_of s sid = w_screens (ui_world s) (screen (session_at s sid))"

section \<open>Agents\<close>

text \<open>What the operations of \<open>AgentStatus\<close> see of some sessions.\<close>

definition ui_snapshot :: "('e, 'cs) ui_env \<Rightarrow> ('e, 'cs) ui \<Rightarrow> nat \<Rightarrow> ui_session" where
  "ui_snapshot E s sid =
     (let (rid, gen, pid, loc) = RuntimeSnapshot (session_at s sid)
      in \<lparr>us_ID = rid, us_Generation = gen, us_ProcessID = pid, us_Local = loc, us_Exited = exited (session_at s sid),
          us_Lines = visibleLinesLocked (ue_width E) (ue_emulator E) (screen_of s sid)\<rparr>)"

definition agent_view :: "('e, 'cs) ui_env \<Rightarrow> ('e, 'cs) ui \<Rightarrow> nat list \<Rightarrow> agent_ui" where
  "agent_view E s sids =
     \<lparr>au_sessions = map (ui_snapshot E s) sids, au_viewed = None, au_statuses = ui_statuses s,
      au_spinner = False, au_running = False\<rparr>"

text \<open>\<open>notifyMeta\<close>; the browser is told on a thread of its own, which is left out.\<close>

definition notifyMeta :: "('e, 'cs) ui_env \<Rightarrow> ('e, 'cs) ui \<Rightarrow> ('e, 'cs) ui" where
  "notifyMeta E s =
     (if ui_monitoring s
      then s\<lparr>ui_statuses := au_statuses (snd (syncAgentSessions (agent_view E s (all_sessions s))))\<rparr> else s)"

definition acknowledge_session :: "('e, 'cs) ui_env \<Rightarrow> nat \<Rightarrow> ('e, 'cs) ui \<Rightarrow> ('e, 'cs) ui" where
  "acknowledge_session E sid s =
     s\<lparr>ui_statuses := au_statuses (acknowledgeFocusedAgent 0 (agent_view E s [sid]))\<rparr>"

section \<open>The list of connections\<close>

definition new_connection :: "bytes \<Rightarrow> bytes \<Rightarrow> connection" where
  "new_connection rnd name =
     \<lparr>cn_id = ascii ''con_'' @ hex_encode rnd, cn_name = name, cn_labels = [], cn_createdBy = [],
      cn_manager = None, cn_initialCfg = [], cn_outputPending = False, cn_webActive = False,
      cn_callbacksBound = False\<rparr>"

definition default_name :: "bytes \<Rightarrow> ('e, 'cs) ui \<Rightarrow> bytes" where
  "default_name name s =
     (if name = [] then ascii ''connection-'' @ decimal (Suc (length (ui_connections s))) else name)"

text \<open>
  \<open>syncActiveConnectionFields\<close> on a list that is not empty: an index out of range becomes 0, and
  only the active connection is shown to browsers.
\<close>

definition sync_active :: "('e, 'cs) ui \<Rightarrow> ('e, 'cs) ui" where
  "sync_active s =
     (let k = (if ui_active s < 0 \<or> int (length (ui_connections s)) \<le> ui_active s then 0 else ui_active s)
      in s\<lparr>ui_active := k,
           ui_connections := map (\<lambda>(i, c). c\<lparr>cn_webActive := (int i = k)\<rparr>) (enumerate 0 (ui_connections s))\<rparr>)"

text \<open>The new connection is the last one.\<close>

definition addConnection :: "bytes \<Rightarrow> bytes \<Rightarrow> ('e, 'cs) ui \<Rightarrow> ('e, 'cs) ui" where
  "addConnection rnd name s =
     (let s1 = s\<lparr>ui_connections := ui_connections s @ [new_connection rnd (default_name name s)]\<rparr>
      in if length (ui_connections s1) = 1 then sync_active (s1\<lparr>ui_active := 0\<rparr>) else s1)"

definition activeConnection :: "bytes \<Rightarrow> ('e, 'cs) ui \<Rightarrow> nat \<times> ('e, 'cs) ui" where
  "activeConnection rnd s =
     (let s1 = (if ui_connections s = [] then addConnection rnd (ascii ''default'') s else s);
          k = (if ui_active s1 < 0 \<or> int (length (ui_connections s1)) \<le> ui_active s1 then 0 else ui_active s1)
      in (nat k, s1\<lparr>ui_active := k\<rparr>))"

definition syncActiveConnectionFields :: "bytes \<Rightarrow> ('e, 'cs) ui \<Rightarrow> ('e, 'cs) ui" where
  "syncActiveConnectionFields rnd s = sync_active (snd (activeConnection rnd s))"

text \<open>
  \<open>refreshFocused\<close>: the focused session takes the size of the pane and is acknowledged. The manager
  \<open>s.manager\<close> is that of the active connection, which \<open>syncActiveConnectionFields\<close> has set.
\<close>

definition pane_size :: "('e, 'cs) ui \<Rightarrow> int \<times> int" where
  "pane_size s = (let p = ge_Pane (geometry (ui_layout s)) in (rWidth p, rHeight p))"

definition refreshFocused :: "('e, 'cs) ui_env \<Rightarrow> ('e, 'cs) ui \<Rightarrow> ('e, 'cs) ui option" where
  "refreshFocused E s =
     (let k = nat (ui_active s) in
      Option.bind (on_manager k (\<lambda>m. (FocusedIndex m, ResizeOne (ue_emulator E) (FocusedIndex m)
          (fst (pane_size s)) (snd (pane_size s)) m)) s)
        (\<lambda>(idx, s1).
           Some (case List.find (\<lambda>sid. index (session_at s1 sid) = idx) (manager_sessions (connection_at s1 k)) of
              None \<Rightarrow> s1
            | Some sid \<Rightarrow> acknowledge_session E sid s1)))"

definition focusConnection :: "('e, 'cs) ui_env \<Rightarrow> bytes \<Rightarrow> int \<Rightarrow> ('e, 'cs) ui \<Rightarrow> ('e, 'cs) ui option" where
  "focusConnection E rnd i s =
     (let s1 = (if ui_connections s = [] then addConnection rnd (ascii ''default'') s else s);
          n = int (length (ui_connections s1));
          i1 = (if i < 0 then n - 1 else i);
          i2 = (if n \<le> i1 then 0 else i1)
      in map_option (notifyMeta E) (refreshFocused E (syncActiveConnectionFields rnd (s1\<lparr>ui_active := i2\<rparr>))))"

fun find_conn :: "(connection \<Rightarrow> bool) \<Rightarrow> connection list \<Rightarrow> nat option" where
  "find_conn P [] = None"
| "find_conn P (c # cs) = (if P c then Some 0 else map_option Suc (find_conn P cs))"

definition focusConnectionByName ::
  "('e, 'cs) ui_env \<Rightarrow> bytes \<Rightarrow> bytes \<Rightarrow> ('e, 'cs) ui \<Rightarrow> (bool \<times> ('e, 'cs) ui) option" where
  "focusConnectionByName E rnd name s =
     (case find_conn (\<lambda>c. cn_name c = name) (ui_connections s) of
        None \<Rightarrow> Some (False, s)
      | Some k \<Rightarrow> map_option (Pair True) (focusConnection E rnd (int k) s))"

definition renameConnection :: "('e, 'cs) ui_env \<Rightarrow> int \<Rightarrow> bytes \<Rightarrow> ('e, 'cs) ui \<Rightarrow> ('e, 'cs) ui" where
  "renameConnection E i name s =
     (if \<not> in_range i (ui_connections s) \<or> name = [] then s
      else notifyMeta E (upd_connection (nat i) (\<lambda>c. c\<lparr>cn_name := name\<rparr>) s))"

definition moveConnection :: "('e, 'cs) ui_env \<Rightarrow> bytes \<Rightarrow> int \<Rightarrow> int \<Rightarrow> ('e, 'cs) ui \<Rightarrow> ('e, 'cs) ui" where
  "moveConnection E rnd src dst s =
     (if \<not> in_range src (ui_connections s) \<or> \<not> in_range dst (ui_connections s) \<or> src = dst then s
      else
        (let conn = ui_connections s ! nat src;
             moved = insert_at (nat dst) conn (remove_at (nat src) (ui_connections s));
             act = (if ui_active s = src then dst
                    else if src < ui_active s \<and> ui_active s \<le> dst then ui_active s - 1
                    else if ui_active s < src \<and> dst \<le> ui_active s then ui_active s + 1
                    else ui_active s)
         in notifyMeta E (syncActiveConnectionFields rnd (s\<lparr>ui_connections := moved, ui_active := act\<rparr>))))"

definition bindConnectionCallbacks :: "nat \<Rightarrow> ('e, 'cs) ui \<Rightarrow> ('e, 'cs) ui" where
  "bindConnectionCallbacks k s =
     (if cn_manager (connection_at s k) = None \<or> cn_callbacksBound (connection_at s k) then s
      else
        (case run_manager k (\<lambda>m. SetSendExit True (SetSendOutput True m))
                (upd_connection k (\<lambda>c. c\<lparr>cn_callbacksBound := True\<rparr>) s) of
           None \<Rightarrow> s
         | Some s1 \<Rightarrow> s1))"

definition rebindConnectionCallbacks :: "('e, 'cs) ui \<Rightarrow> ('e, 'cs) ui" where
  "rebindConnectionCallbacks s = foldl (\<lambda>s k. bindConnectionCallbacks k s) s [0..<length (ui_connections s)]"

text \<open>What the callbacks do with a message of a read loop, in order.\<close>

datatype delivery = ToService outputMsg | ToClipboard bytes | ToBrowser int bytes | ToProgram bytes outputMsg

definition send_output :: "nat \<Rightarrow> outputMsg \<Rightarrow> ('e, 'cs) ui \<Rightarrow> delivery list \<times> ('e, 'cs) ui" where
  "send_output k msg s =
     (let c = connection_at s k;
          focus = (case cn_manager c of None \<Rightarrow> -1 | Some g \<Rightarrow> mg_focused g)
      in ((if ui_serving s then [ToService msg] else []) @
          (if cn_webActive c \<and> om_Index msg = focus then map ToClipboard (om_Clipboard msg) else []) @
          (if cn_webActive c then [ToBrowser (om_Index msg) (om_Data msg)] else []) @
          (if cn_outputPending c then [] else [ToProgram (cn_id c) msg]),
          upd_connection k (\<lambda>c. c\<lparr>cn_outputPending := True\<rparr>) s))"

text \<open>\<open>removeConnection\<close> closes the sessions of the connection.\<close>

definition removeConnection :: "('e, 'cs) ui_env \<Rightarrow> bytes \<Rightarrow> int \<Rightarrow> ('e, 'cs) ui \<Rightarrow> ('e, 'cs) ui" where
  "removeConnection E rnd i s =
     (if length (ui_connections s) \<le> 1 \<or> \<not> in_range i (ui_connections s) then s
      else
        (let s1 = (case run_manager (nat i) CloseAll s of None \<Rightarrow> s | Some s1 \<Rightarrow> s1);
             s2 = s1\<lparr>ui_connections := remove_at (nat i) (ui_connections s1)\<rparr>;
             n = int (length (ui_connections s2));
             a1 = (if n \<le> ui_active s2 then n - 1 else ui_active s2);
             a2 = (if a1 < 0 then 0 else a1)
         in notifyMeta E (syncActiveConnectionFields rnd (s2\<lparr>ui_active := a2\<rparr>))))"

text \<open>A new manager for the connection in place \<open>k\<close>; the heap is that of all.\<close>

definition set_manager :: "nat \<Rightarrow> int \<times> int \<Rightarrow> nat option \<Rightarrow> ('e, 'cs) ui \<Rightarrow> ('e, 'cs) ui" where
  "set_manager k sz ssh s =
     upd_connection k (\<lambda>c. c\<lparr>cn_manager :=
       Some (mgr_of (NewManagerWithSSH (fst sz) (snd sz) False False ssh :: (unit, unit) sessionManager))\<rparr>) s"

definition set_endpoint :: "nat \<Rightarrow> ('e, 'cs) ui \<Rightarrow> ('e, 'cs) ui" where
  "set_endpoint k s =
     (case run_manager k (SetAgentStateEndpoint (ui_agentEndpoint s)) s of None \<Rightarrow> s | Some s1 \<Rightarrow> s1)"

definition createConnectionWithDefaultSession ::
  "('e, 'cs) ui_env \<Rightarrow> bytes \<Rightarrow> bytes \<Rightarrow> bytes list \<Rightarrow> bytes \<Rightarrow> (nat \<times> int) option \<Rightarrow> bytes \<Rightarrow>
   ('e, 'cs) ui \<Rightarrow> ('e, 'cs) ui option" where
  "createConnectionWithDefaultSession E rnd name agentCmd agentCmdLine opened sessionRnd s =
     (let s1 = addConnection rnd name s; k = length (ui_connections s);
          s2 = bindConnectionCallbacks k (set_endpoint k (set_manager k (pane_size s1) (ui_sshClient s1) s1))
      in Option.bind (on_manager k (\<lambda>m. newWithOptions (ue_emulator E) sessionRnd agentCmd (mgr_sshClient m) [] opened m) s2)
           (\<lambda>(made, s3).
              (case made of
                 Some sid \<Rightarrow>
                   (if agentCmdLine \<noteq> []
                    then Some (s3\<lparr>ui_world := upd_session sid (\<lambda>x. SetCmdLine x agentCmdLine) (ui_world s3)\<rparr>) else Some s3)
               | None \<Rightarrow> Some s3)))"

definition initManagers :: "bytes \<Rightarrow> int \<Rightarrow> int \<Rightarrow> ('e, 'cs) ui \<Rightarrow> ('e, 'cs) ui" where
  "initManagers rnd c r s =
     (let s1 = (if ui_connections s = [] then addConnection rnd (ascii ''default'') s else s);
          s2 = foldl (\<lambda>s k. set_endpoint k
                 (if cn_manager (connection_at s k) = None then set_manager k (c, r) (ui_sshClient s) s else s))
                 s1 [0..<length (ui_connections s1)]
      in syncActiveConnectionFields rnd (rebindConnectionCallbacks s2))"

text \<open>The connections of a layout; \<open>rnds\<close> are the random bytes of their identifiers.\<close>

definition SetInitialConnections ::
  "bytes list \<Rightarrow> (bytes \<times> startupSession list) list \<Rightarrow> bytes \<Rightarrow> ('e, 'cs) ui \<Rightarrow> ('e, 'cs) ui" where
  "SetInitialConnections rnds entries active s =
     (if entries = [] then s
      else
        (let s1 = foldl (\<lambda>s (rnd, name, cfg).
                    (let s' = addConnection rnd name s
                     in upd_connection (length (ui_connections s)) (\<lambda>c. c\<lparr>cn_initialCfg := cfg\<rparr>) s'))
                    (s\<lparr>ui_connections := []\<rparr>) (zip rnds entries);
             k = (if active = [] then 0
                  else case find_conn (\<lambda>c. cn_name c = active) (ui_connections s1) of Some k \<Rightarrow> int k | None \<Rightarrow> 0)
         in syncActiveConnectionFields [] (s1\<lparr>ui_active := k\<rparr>)))"

definition AddInitialConnection :: "bytes \<Rightarrow> bytes \<Rightarrow> startupSession list \<Rightarrow> ('e, 'cs) ui \<Rightarrow> ('e, 'cs) ui" where
  "AddInitialConnection rnd name cfg s =
     (let untouched = (case ui_connections s of
            [c] \<Rightarrow> cn_name c = ascii ''default'' \<and> cn_initialCfg c = [] \<and> cn_manager c = None
          | _ \<Rightarrow> False);
          s1 = (if untouched then s\<lparr>ui_connections := []\<rparr> else s);
          s2 = addConnection rnd name s1
      in syncActiveConnectionFields rnd
           (upd_connection (length (ui_connections s1)) (\<lambda>c. c\<lparr>cn_initialCfg := cfg\<rparr>) s2))"

end
