(* ===== verification/Backend.thy ===== *)
theory Backend
  imports Connections "HOL-Library.List_Lexorder"
begin

text \<open>
  What control requests do to the interface (\<open>src/pkg/ui/control.go\<close>): connections, sessions,
  input, snapshots, replay, conditions. The update loop carries them out one at a time, so each is a
  function of the state. Results are Go values, errors are values, and a panic is \<open>None\<close>. Messages
  of errors that other libraries make are left out, and so are caches of what is on display.
\<close>

declare runes_of.simps(2) [simp del]

text \<open>
  What the outside answers in one request: random bytes, the opening of a channel, the SSH client
  (\<open>None\<close>: an error), how many bytes a channel takes of a write and whether that ends well, whether a
  close does.
\<close>

record outside =
  os_random :: bytes
  os_opened :: "(nat \<times> int) option"
  os_ssh :: "bytes list \<Rightarrow> bytes list \<Rightarrow> bool list \<Rightarrow> nat option"
  os_write :: "nat \<Rightarrow> bytes \<Rightarrow> nat \<times> bool"
  os_close :: bool

type_synonym 'u answer = "((ctl_error + goval) \<times> 'u) option"

section \<open>Parameters\<close>

definition raw_members :: "raw \<Rightarrow> (bytes \<times> json) list option" where
  "raw_members raw = (case raw of None \<Rightarrow> Some [] | Some v \<Rightarrow> members v)"

text \<open>\<open>decodeControl\<close> into a struct whose fields are decoded by \<open>dec\<close>.\<close>

definition decodeControl :: "((bytes \<times> json) list \<Rightarrow> 'p option) \<Rightarrow> raw \<Rightarrow> ctl_error + 'p" where
  "decodeControl dec raw =
     (case Option.bind (raw_members raw) dec of
        None \<Rightarrow> Inl (NewError ''invalid_argument'' ''invalid params'')
      | Some p \<Rightarrow> Inr p)"

text \<open>\<open>_ = json.Unmarshal(raw, &p)\<close>: what can be decoded is, the rest keeps its zero value.\<close>

definition some_members :: "raw \<Rightarrow> (bytes \<times> json) list" where
  "some_members raw = (case Option.bind raw members of None \<Rightarrow> [] | Some fs \<Rightarrow> fs)"

abbreviation lax_str :: "string \<Rightarrow> raw \<Rightarrow> bytes" where
  "lax_str key raw \<equiv> field_value dec_str [] (ascii key) (some_members raw)"

abbreviation lax_int :: "string \<Rightarrow> raw \<Rightarrow> int" where
  "lax_int key raw \<equiv> field_value dec_int 0 (ascii key) (some_members raw)"

abbreviation lax_bool :: "string \<Rightarrow> raw \<Rightarrow> bool" where
  "lax_bool key raw \<equiv> field_value dec_bool False (ascii key) (some_members raw)"

text \<open>A \<open>map[string]string\<close>; null as a value is the empty string.\<close>

fun dec_labels_from :: "labels \<Rightarrow> (bytes \<times> json) list \<Rightarrow> labels option" where
  "dec_labels_from m [] = Some m"
| "dec_labels_from m ((k, v) # kvs) =
     (case dec_str [] v of None \<Rightarrow> None | Some x \<Rightarrow> dec_labels_from (AList.update k x m) kvs)"

definition dec_labels :: "labels \<Rightarrow> json \<Rightarrow> labels option" where
  "dec_labels m v = (case v of JNull \<Rightarrow> Some [] | JObj kvs \<Rightarrow> dec_labels_from m kvs | _ \<Rightarrow> None)"

text \<open>When errors are ignored, a value of another type still makes an empty entry.\<close>

definition lax_labels :: "string \<Rightarrow> raw \<Rightarrow> labels" where
  "lax_labels key raw =
     field_value (\<lambda>m v. case v of
         JNull \<Rightarrow> Some []
       | JObj kvs \<Rightarrow> Some (foldl (\<lambda>m (k, v). AList.update k (case v of JStr x \<Rightarrow> x | _ \<Rightarrow> []) m) m kvs)
       | _ \<Rightarrow> None) [] (ascii key) (some_members raw)"

text \<open>A field of a struct in a struct.\<close>

definition sub_field :: "('a \<Rightarrow> json \<Rightarrow> 'a option) \<Rightarrow> 'a \<Rightarrow> string \<Rightarrow> string \<Rightarrow> (bytes \<times> json) list \<Rightarrow> 'a option" where
  "sub_field dec zero outer inner fs =
     field (\<lambda>a v. Option.bind (members v) (field dec a (ascii inner))) zero (ascii outer) fs"

definition cloneLabels :: "labels \<Rightarrow> labels" where
  "cloneLabels xs = foldl (\<lambda>out (k, v). AList.update k v out) [] xs"

definition labelsMatch :: "labels \<Rightarrow> labels \<Rightarrow> bool" where
  "labelsMatch actual wanted \<longleftrightarrow>
     list_all (\<lambda>(k, v). (case map_of actual k of Some x \<Rightarrow> x | None \<Rightarrow> []) = v) wanted"

definition keyRefPath :: "bytes \<Rightarrow> bytes" where
  "keyRefPath ref = (if ref = [] \<or> ref = ascii ''default'' then [] else ref)"

definition plainLines :: "bufferLine list \<Rightarrow> bytes list" where
  "plainLines ls = map bl_Text ls"

text \<open>\<open>key=value\<close> for every entry of a map, by ascending keys.\<close>

definition environment_of :: "labels \<Rightarrow> bytes list" where
  "environment_of m = map (\<lambda>k. k @ [0x3D] @ the (map_of m k)) (sort (map fst m))"

section \<open>Finding\<close>

definition connectionByName :: "bytes \<Rightarrow> ('e, 'cs) ui \<Rightarrow> nat option" where
  "connectionByName name s = find_conn (\<lambda>c. cn_name c = name) (ui_connections s)"

definition connectionByID :: "bytes \<Rightarrow> ('e, 'cs) ui \<Rightarrow> nat option" where
  "connectionByID i s = find_conn (\<lambda>c. cn_id c = i) (ui_connections s)"

text \<open>The first session with an identifier, and the place of its connection.\<close>

fun find_session :: "('e, 'cs) world \<Rightarrow> bytes \<Rightarrow> connection list \<Rightarrow> (nat \<times> nat) option" where
  "find_session w i [] = None"
| "find_session w i (c # cs) =
     (case List.find (\<lambda>sid. runtimeID (w_sessions w sid) = i) (manager_sessions c) of
        Some sid \<Rightarrow> Some (sid, 0)
      | None \<Rightarrow> map_option (\<lambda>(sid, k). (sid, Suc k)) (find_session w i cs))"

definition sessionRefParams :: "(bytes \<times> json) list \<Rightarrow> (bytes \<times> 64 word) option" where
  "sessionRefParams fs =
     (case (str_field ''sessionId'' fs, uint_field ''generation'' fs) of
        (Some i, Some g) \<Rightarrow> Some (i, g) | _ \<Rightarrow> None)"

definition controlSessionFromParams ::
  "raw \<Rightarrow> bool \<Rightarrow> ('e, 'cs) ui \<Rightarrow> ctl_error + nat \<times> nat \<times> 64 word" where
  "controlSessionFromParams raw check s =
     (case decodeControl sessionRefParams raw of
        Inl e \<Rightarrow> Inl e
      | Inr (i, gen) \<Rightarrow>
          (case find_session (ui_world s) i (ui_connections s) of
             None \<Rightarrow> Inl (NewError ''not_found'' ''session not found'')
           | Some (sid, k) \<Rightarrow>
               (if check \<and> generation (session_at s sid) \<noteq> gen
                then Inl (NewError ''not_found'' ''session generation not found'')
                else Inr (sid, k, gen))))"

section \<open>Descriptions\<close>

abbreviation gint :: "int \<Rightarrow> goval" where
  "gint i \<equiv> GOther (JInt i)"

abbreviation gstrs :: "bytes list \<Rightarrow> goval" where
  "gstrs xs \<equiv> GOther (JArr (map JStr xs))"

definition glabels :: "labels \<Rightarrow> goval" where
  "glabels m = GOther (JObj (map (\<lambda>(k, v). (k, JStr v)) (cloneLabels m)))"

definition controlConnection :: "connection \<Rightarrow> (bytes \<times> goval) list" where
  "controlConnection c =
     gofields [(''connectionId'', GStr (cn_id c)), (''name'', GStr (cn_name c)),
       (''sessionCount'', gint (int (length (manager_sessions c)))), (''createdBy'', GStr (cn_createdBy c)),
       (''labels'', glabels (cn_labels c))]"

definition controlConnectionList :: "('e, 'cs) ui \<Rightarrow> (bytes \<times> goval) list list" where
  "controlConnectionList s = map controlConnection (ui_connections s)"

definition provider_text :: "provider \<Rightarrow> bytes" where
  "provider_text p = ascii (case p of NoProvider \<Rightarrow> '''' | Copilot \<Rightarrow> ''copilot'' | Crush \<Rightarrow> ''crush'')"

definition source_text :: "source \<Rightarrow> bytes" where
  "source_text x = ascii (case x of FromProcess \<Rightarrow> ''process'' | FromScreen \<Rightarrow> ''screen'' | FromHook \<Rightarrow> ''hook''
     | FromNative \<Rightarrow> ''native'')"

definition confidence_text :: "confidence \<Rightarrow> bytes" where
  "confidence_text x = ascii (case x of LowConfidence \<Rightarrow> ''low'' | HighConfidence \<Rightarrow> ''high'')"

definition session_status :: "('e, 'cs) ui_env \<Rightarrow> ('e, 'cs) ui \<Rightarrow> nat \<Rightarrow> status option" where
  "session_status E s sid = agentStatus (ui_snapshot E s sid) (agent_view E s [])"

definition no_meta :: controlSessionMeta where
  "no_meta = \<lparr>cm_createdBy = [], cm_parentID = [], cm_labels = [], cm_cleanup = []\<rparr>"

definition session_meta :: "('e, 'cs) ui \<Rightarrow> nat \<Rightarrow> controlSessionMeta" where
  "session_meta s sid =
     (case ui_controlSessions s (runtimeID (session_at s sid)) of None \<Rightarrow> no_meta | Some m \<Rightarrow> m)"

definition controlSession :: "('e, 'cs) ui_env \<Rightarrow> nat \<Rightarrow> nat \<Rightarrow> ('e, 'cs) ui \<Rightarrow> (bytes \<times> goval) list" where
  "controlSession E k sid s =
     (let x = session_at s sid; (rid, gen, pid, loc) = RuntimeSnapshot x;
          (c, r) = Dimensions (screen_of s sid); meta = session_meta s sid
      in gofields [(''sessionId'', GStr rid), (''generation'', GUint gen),
           (''connectionId'', GStr (cn_id (connection_at s k))), (''index'', gint (index x)),
           (''title'', GStr (Title x)), (''state'', GStr (ascii (if exited x then ''exited'' else ''running''))),
           (''pid'', gint pid), (''backend'', GStr (ascii (if loc then ''local'' else ''ssh''))),
           (''createdBy'', GStr (cm_createdBy meta)), (''parentSessionId'', GStr (cm_parentID meta)),
           (''labels'', glabels (cm_labels meta)), (''cwd'', GStr (workDir x)), (''cmd'', gstrs (cmd x)),
           (''cols'', gint c), (''rows'', gint r), (''outputSequence'', GUint (outputSequence x))] @
         (case session_status E s sid of
            None \<Rightarrow> []
          | Some st \<Rightarrow>
              gofields [(''agent'', GMap (gofields [(''provider'', GStr (provider_text (st_Provider st))),
                (''state'', GStr (state_name (st_State st))), (''source'', GStr (source_text (st_Source st))),
                (''confidence'', GStr (confidence_text (st_Confidence st)))]))]))"

definition session_result :: "('e, 'cs) ui_env \<Rightarrow> nat \<Rightarrow> nat \<Rightarrow> ('e, 'cs) ui \<Rightarrow> goval" where
  "session_result E k sid s = GMap (gofields [(''session'', GMap (controlSession E k sid s))])"

section \<open>Events\<close>

definition publishControlEvent ::
  "string \<Rightarrow> string \<Rightarrow> bytes \<Rightarrow> 64 word \<Rightarrow> (string \<times> goval) list \<Rightarrow> ('e, 'cs) ui \<Rightarrow> ('e, 'cs) ui" where
  "publishControlEvent stream ev sid gen dat s =
     (if ui_serving s
      then s\<lparr>ui_events := ui_events s @ [\<lparr>pb_stream = ascii stream, pb_event = ascii ev, pb_session = sid,
             pb_generation = gen, pb_data = gofields dat\<rparr>]\<rparr>
      else s)"

definition publishSessionEvent ::
  "string \<Rightarrow> string \<Rightarrow> nat \<Rightarrow> (string \<times> goval) list \<Rightarrow> ('e, 'cs) ui \<Rightarrow> ('e, 'cs) ui" where
  "publishSessionEvent stream ev sid dat s =
     publishControlEvent stream ev (runtimeID (session_at s sid)) (generation (session_at s sid)) dat s"

text \<open>\<open>suppressExit\<close>; after ten seconds the entry is deleted again.\<close>

definition suppressExit :: "bytes \<Rightarrow> 64 word \<Rightarrow> ('e, 'cs) ui \<Rightarrow> ('e, 'cs) ui" where
  "suppressExit i gen s = (if i = [] then s else s\<lparr>ui_suppressed := insert (i, gen) (ui_suppressed s)\<rparr>)"

definition consumeSuppressedExit :: "exitMsg \<Rightarrow> ('e, 'cs) ui \<Rightarrow> bool \<times> ('e, 'cs) ui" where
  "consumeSuppressedExit msg s =
     (let key = (em_SessionID msg, em_Generation msg) in
      if em_SessionID msg = [] then (False, s)
      else (key \<in> ui_suppressed s, s\<lparr>ui_suppressed := ui_suppressed s - {key}\<rparr>))"

definition upd_ui_session :: "nat \<Rightarrow> (session \<Rightarrow> session) \<Rightarrow> ('e, 'cs) ui \<Rightarrow> ('e, 'cs) ui" where
  "upd_ui_session sid f s = s\<lparr>ui_world := upd_session sid f (ui_world s)\<rparr>"

text \<open>Helpers to answer.\<close>

definition fail :: "string \<Rightarrow> string \<Rightarrow> 'u \<Rightarrow> 'u answer" where
  "fail code msg s = Some (Inl (NewError code msg), s)"

definition reply :: "goval \<Rightarrow> 'u \<Rightarrow> 'u answer" where
  "reply v s = Some (Inr v, s)"

definition with_session ::
  "raw \<Rightarrow> bool \<Rightarrow> ('e, 'cs) ui \<Rightarrow> (nat \<Rightarrow> nat \<Rightarrow> 64 word \<Rightarrow> ('e, 'cs) ui answer) \<Rightarrow> ('e, 'cs) ui answer" where
  "with_session raw check s body =
     (case controlSessionFromParams raw check s of
        Inl e \<Rightarrow> Some (Inl e, s)
      | Inr (sid, k, gen) \<Rightarrow> body sid k gen)"

end
