(* ===== verification/BackendOps.thy ===== *)
theory BackendOps
  imports Backend
begin

text \<open>
  The operations behind the control requests (\<open>src/pkg/ui/control.go\<close>) and their dispatcher
  \<open>handleControlRequest\<close>.
\<close>

declare runes_of.simps(2) [simp del]

section \<open>Connections\<close>

definition dec_name_labels :: "(bytes \<times> json) list \<Rightarrow> (bytes \<times> labels) option" where
  "dec_name_labels fs =
     (case (str_field ''name'' fs, field dec_labels [] (ascii ''labels'') fs) of
        (Some n, Some l) \<Rightarrow> Some (n, l) | _ \<Rightarrow> None)"

definition controlCreateConnection ::
  "('e, 'cs) ui_env \<Rightarrow> outside \<Rightarrow> raw \<Rightarrow> bytes \<Rightarrow> ('e, 'cs) ui \<Rightarrow> ('e, 'cs) ui answer" where
  "controlCreateConnection E U raw controllerID s =
     (case decodeControl dec_name_labels raw of
        Inl e \<Rightarrow> Some (Inl e, s)
      | Inr (n, l) \<Rightarrow>
          (let name = trim_space n in
           if name = [] then fail ''invalid_argument'' ''name is required'' s
           else if connectionByName name s \<noteq> None then fail ''already_exists'' ''connection name already exists'' s
           else
             (let k = length (ui_connections s);
                  s1 = addConnection (os_random U) name s;
                  s2 = upd_connection k (\<lambda>c. c\<lparr>cn_labels := cloneLabels l, cn_createdBy := controllerID\<rparr>) s1;
                  s3 = set_endpoint k (set_manager k (pane_size s2) None s2);
                  s4 = notifyMeta E (bindConnectionCallbacks k s3);
                  c = connection_at s4 k;
                  s5 = publishControlEvent ''session.lifecycle'' ''connection.created'' [] 0
                         [(''connectionId'', GStr (cn_id c)), (''name'', GStr (cn_name c))] s4
              in reply (GMap (gofields [(''connection'', GMap (controlConnection (connection_at s5 k)))])) s5)))"

definition dec_id_name :: "(bytes \<times> json) list \<Rightarrow> (bytes \<times> bytes) option" where
  "dec_id_name fs =
     (case (str_field ''connectionId'' fs, str_field ''name'' fs) of
        (Some i, Some n) \<Rightarrow> Some (i, n) | _ \<Rightarrow> None)"

definition controlRenameConnection ::
  "('e, 'cs) ui_env \<Rightarrow> raw \<Rightarrow> ('e, 'cs) ui \<Rightarrow> ('e, 'cs) ui answer" where
  "controlRenameConnection E raw s =
     (case decodeControl dec_id_name raw of
        Inl e \<Rightarrow> Some (Inl e, s)
      | Inr (i, n) \<Rightarrow>
          (case connectionByID i s of
             None \<Rightarrow> fail ''not_found'' ''connection not found'' s
           | Some k \<Rightarrow>
               (let name = trim_space n in
                if name = [] then fail ''invalid_argument'' ''name is required'' s
                else if (case connectionByName name s of None \<Rightarrow> False | Some j \<Rightarrow> j \<noteq> k)
                then fail ''already_exists'' ''connection name already exists'' s
                else
                  (let s1 = notifyMeta E (upd_connection k (\<lambda>c. c\<lparr>cn_name := name\<rparr>) s);
                       c = connection_at s1 k;
                       s2 = publishControlEvent ''session.metadata'' ''connection.renamed'' [] 0
                              [(''connectionId'', GStr (cn_id c)), (''name'', GStr (cn_name c))] s1
                   in reply (GMap (gofields [(''connection'', GMap (controlConnection (connection_at s2 k)))])) s2))))"

text \<open>
  The loop that moves all sessions: it ends when the first manager is empty, which is shown below. A
  detached session keeps running, and the other manager takes it at its end.
\<close>

partial_function (option) move_all :: "nat \<Rightarrow> nat \<Rightarrow> ('e, 'cs) ui \<Rightarrow> ('e, 'cs) ui option" where
  "move_all k j s =
     Option.bind (on_manager k (\<lambda>m. (Len m, m)) s) (\<lambda>(n, s0).
       if n = 0 then Some s0
       else
         Option.bind (on_manager k (Detach 0) s0) (\<lambda>(detached, s1).
           Option.bind (run_manager j (Adopt detached (-1)) s1) (\<lambda>s2. move_all k j s2)))"

definition dec_removal :: "(bytes \<times> json) list \<Rightarrow> (bytes \<times> bytes \<times> bytes) option" where
  "dec_removal fs =
     (case (str_field ''connectionId'' fs, str_field ''sessionPolicy'' fs, str_field ''targetConnectionId'' fs) of
        (Some i, Some p, Some t) \<Rightarrow> Some (i, p, t) | _ \<Rightarrow> None)"

text \<open>With the policy \<open>terminate\<close>, nobody is told of the exits of the sessions.\<close>

definition forget_sessions :: "nat list \<Rightarrow> ('e, 'cs) ui \<Rightarrow> ('e, 'cs) ui" where
  "forget_sessions sids s =
     foldl (\<lambda>s sid. let (rid, gen, _, _) = RuntimeSnapshot (session_at s sid); s' = suppressExit rid gen s
                    in s'\<lparr>ui_controlSessions := (ui_controlSessions s')(rid := None)\<rparr>) s sids"

text \<open>The end of every policy: the connection in place \<open>k\<close> goes.\<close>

definition finish_removal :: "('e, 'cs) ui_env \<Rightarrow> outside \<Rightarrow> nat \<Rightarrow> ('e, 'cs) ui \<Rightarrow> ('e, 'cs) ui answer" where
  "finish_removal E U k s =
     (let cid = cn_id (connection_at s k)
      in reply (GMap (gofields [(''removed'', GBool True)]))
           (publishControlEvent ''session.lifecycle'' ''connection.removed'' [] 0 [(''connectionId'', GStr cid)]
             (removeConnection E (os_random U) (int k) s)))"

definition controlRemoveConnection ::
  "('e, 'cs) ui_env \<Rightarrow> outside \<Rightarrow> raw \<Rightarrow> ('e, 'cs) ui \<Rightarrow> ('e, 'cs) ui answer" where
  "controlRemoveConnection E U raw s =
     (case decodeControl dec_removal raw of
        Inl e \<Rightarrow> Some (Inl e, s)
      | Inr (i, policy, t) \<Rightarrow>
          (case connectionByID i s of
             None \<Rightarrow> fail ''not_found'' ''connection not found'' s
           | Some k \<Rightarrow>
               (if length (ui_connections s) \<le> 1 then fail ''failed_precondition'' ''cannot remove the final connection'' s
                else if cn_manager (connection_at s k) = None then None
                else if policy = [] \<or> policy = ascii ''reject'' then
                  (if 0 < length (manager_sessions (connection_at s k))
                   then fail ''failed_precondition'' ''connection contains sessions'' s
                   else finish_removal E U k s)
                else if policy = ascii ''terminate'' then
                  finish_removal E U k (forget_sessions (manager_sessions (connection_at s k)) s)
                else if policy = ascii ''move'' then
                  (case connectionByID t s of
                     None \<Rightarrow> fail ''invalid_argument'' ''valid targetConnectionId is required'' s
                   | Some j \<Rightarrow>
                       (if j = k then fail ''invalid_argument'' ''valid targetConnectionId is required'' s
                        else Option.bind (move_all k j s) (finish_removal E U k)))
                else fail ''invalid_argument'' ''sessionPolicy must be reject, terminate, or move'' s)))"

section \<open>Sessions\<close>

definition controlListSessions :: "('e, 'cs) ui_env \<Rightarrow> raw \<Rightarrow> ('e, 'cs) ui \<Rightarrow> goval" where
  "controlListSessions E raw s =
     (let con = lax_str ''connectionId'' raw; by = lax_str ''createdBy'' raw; ls = lax_labels ''labels'' raw
      in GMap (gofields [(''sessions'', GMaps (concat (map (\<lambda>(k, c).
            if cn_manager c = None \<or> (con \<noteq> [] \<and> con \<noteq> cn_id c) then []
            else map (\<lambda>sid. controlSession E k sid s)
                   (filter (\<lambda>sid. (by = [] \<or> cm_createdBy (session_meta s sid) = by) \<and>
                       labelsMatch (cm_labels (session_meta s sid)) ls) (manager_sessions c)))
            (enumerate 0 (ui_connections s)))))]))"

record createSessionParams =
  cp_ConnectionID :: bytes
  cp_Title :: bytes
  cp_Focus :: bool
  cp_Cmd :: "bytes list"
  cp_Cwd :: bytes
  cp_Env :: labels
  cp_Labels :: labels
  cp_Kind :: bytes
  cp_Target :: bytes
  cp_Port :: bytes
  cp_KeyRef :: bytes
  cp_VerifyHostKey :: bool
  cp_Cols :: int
  cp_Rows :: int
  cp_Cleanup :: bytes
  cp_ParentSessionID :: bytes

definition dec_createSession :: "(bytes \<times> json) list \<Rightarrow> createSessionParams option" where
  "dec_createSession fs =
     (case (str_field ''connectionId'' fs, str_field ''title'' fs, bool_field ''focus'' fs, strs_field ''cmd'' fs,
            str_field ''cwd'' fs, field dec_labels [] (ascii ''env'') fs, field dec_labels [] (ascii ''labels'') fs) of
        (Some con, Some ttl, Some foc, Some command, Some cwd, Some env, Some ls) \<Rightarrow>
          (case (sub_field dec_str [] ''backend'' ''kind'' fs, sub_field dec_str [] ''backend'' ''target'' fs,
                 sub_field dec_str [] ''backend'' ''port'' fs, sub_field dec_str [] ''backend'' ''keyRef'' fs,
                 sub_field dec_bool False ''backend'' ''verifyHostKey'' fs) of
             (Some kind, Some target, Some port, Some key, Some verify) \<Rightarrow>
               (case (sub_field dec_int 0 ''terminal'' ''cols'' fs, sub_field dec_int 0 ''terminal'' ''rows'' fs,
                      sub_field dec_str [] ''ownership'' ''cleanup'' fs,
                      sub_field dec_str [] ''ownership'' ''parentSessionId'' fs) of
                  (Some c, Some r, Some cleanup, Some parent) \<Rightarrow>
                    Some \<lparr>cp_ConnectionID = con, cp_Title = ttl, cp_Focus = foc, cp_Cmd = command, cp_Cwd = cwd,
                      cp_Env = env, cp_Labels = ls, cp_Kind = kind, cp_Target = target, cp_Port = port,
                      cp_KeyRef = key, cp_VerifyHostKey = verify, cp_Cols = c, cp_Rows = r, cp_Cleanup = cleanup,
                      cp_ParentSessionID = parent\<rparr>
                | _ \<Rightarrow> None)
           | _ \<Rightarrow> None)
      | _ \<Rightarrow> None)"

definition reserved_key :: "bytes \<Rightarrow> bool" where
  "reserved_key k \<longleftrightarrow> has_prefix k (ascii ''MULTICRUM_CONTROL_'') \<or> has_prefix k (ascii ''HERDR_'')"

text \<open>The SSH client of a session, if its backend is one; the options are strings and switches.\<close>

definition backend_client :: "outside \<Rightarrow> createSessionParams \<Rightarrow> ctl_error + nat option" where
  "backend_client U p =
     (let plain = (cp_KeyRef p = [] \<or> cp_KeyRef p = ascii ''default'') in
      if cp_Kind p = ascii ''ssh'' then
        (case os_ssh U [cp_Target p, cp_Port p, keyRefPath (cp_KeyRef p)] (cp_Cmd p)
                [plain, plain, \<not> cp_VerifyHostKey p] of
           None \<Rightarrow> Inl (NewError ''invalid_argument'' ''ssh'')
         | Some h \<Rightarrow> Inr (Some h))
      else if cp_Kind p \<noteq> [] \<and> cp_Kind p \<noteq> ascii ''local''
      then Inl (NewError ''invalid_argument'' ''backend kind must be local or ssh'')
      else Inr None)"

text \<open>What follows once the session \<open>sid\<close> runs in the connection in place \<open>k\<close>.\<close>

definition created_session ::
  "('e, 'cs) ui_env \<Rightarrow> outside \<Rightarrow> createSessionParams \<Rightarrow> bytes \<Rightarrow> nat \<Rightarrow> nat \<Rightarrow> ('e, 'cs) ui \<Rightarrow> ('e, 'cs) ui answer" where
  "created_session E U p controllerID k sid s =
     (let s1 = (if cp_Title p \<noteq> [] then upd_ui_session sid (\<lambda>x. SetTitle x (trim_space (cp_Title p))) s else s);
          resize = (if 0 < cp_Cols p \<and> 0 < cp_Rows p
                    then (\<lambda>m. ResizeOne (ue_emulator E) (index (session_at s1 sid)) (cp_Cols p) (cp_Rows p) m) else id)
      in Option.bind (run_manager k resize s1) (\<lambda>s2.
         (let cleanup = (if cp_Cleanup p = [] then ascii ''retain'' else cp_Cleanup p);
              s3 = s2\<lparr>ui_controlSessions := (ui_controlSessions s2)(runtimeID (session_at s2 sid) \<mapsto>
                      \<lparr>cm_createdBy = controllerID, cm_parentID = cp_ParentSessionID p,
                       cm_labels = cloneLabels (cp_Labels p), cm_cleanup = cleanup\<rparr>)\<rparr>
          in Option.bind
               (if cp_Focus p
                then Option.bind (run_manager k (Focus (index (session_at s3 sid)))
                       (syncActiveConnectionFields (os_random U) (s3\<lparr>ui_active := int k\<rparr>))) (refreshFocused E)
                else Some s3)
               (\<lambda>s4.
                  (let s5 = notifyMeta E s4;
                       s6 = publishSessionEvent ''session.lifecycle'' ''session.created'' sid
                              [(''connectionId'', GStr (cn_id (connection_at s5 k)))] s5;
                       s7 = publishSessionEvent ''session.lifecycle'' ''session.started'' sid [] s6
                   in reply (session_result E k sid s7) s7)))))"

definition controlCreateSession ::
  "('e, 'cs) ui_env \<Rightarrow> outside \<Rightarrow> raw \<Rightarrow> bytes \<Rightarrow> ('e, 'cs) ui \<Rightarrow> ('e, 'cs) ui answer" where
  "controlCreateSession E U raw controllerID s =
     (case decodeControl dec_createSession raw of
        Inl e \<Rightarrow> Some (Inl e, s)
      | Inr p \<Rightarrow>
          (case connectionByID (cp_ConnectionID p) s of
             None \<Rightarrow> fail ''not_found'' ''connection not found'' s
           | Some k \<Rightarrow>
               (if cn_manager (connection_at s k) = None then fail ''not_found'' ''connection not found'' s
                else if (case cp_Cmd p of [] \<Rightarrow> True | c # _ \<Rightarrow> trim_space c = [])
                then fail ''invalid_argument'' ''cmd must contain at least one argument'' s
                else if cp_Cwd p \<noteq> [] \<and> \<not> has_prefix (cp_Cwd p) [slash]
                then fail ''invalid_argument'' ''cwd must be absolute'' s
                else if list_ex reserved_key (map fst (cp_Env p))
                then fail ''permission_denied'' ''reserved environment variable'' s
                else
                  (case backend_client U p of
                     Inl e \<Rightarrow> Some (Inl e, s)
                   | Inr client \<Rightarrow>
                       Option.bind (on_manager k (NewConfigured (ue_emulator E) (os_random U) (cp_Cmd p) client (cp_Cwd p)
                              (environment_of (cp_Env p)) (os_opened U)) s)
                         (\<lambda>(made, s1).
                            (case made of
                               None \<Rightarrow> fail ''unavailable'' ''start'' s1
                             | Some sid \<Rightarrow> created_session E U p controllerID k sid s1))))))"

definition controlFocusSession ::
  "('e, 'cs) ui_env \<Rightarrow> outside \<Rightarrow> raw \<Rightarrow> ('e, 'cs) ui \<Rightarrow> ('e, 'cs) ui answer" where
  "controlFocusSession E U raw s =
     with_session raw False s (\<lambda>sid k gen.
       Option.bind (run_manager k (Focus (index (session_at s sid))) s) (\<lambda>s1.
         Option.bind (focusConnection E (os_random U) (int k) s1) (\<lambda>s2.
           reply (session_result E k sid s2) s2)))"

definition controlRenameSession ::
  "('e, 'cs) ui_env \<Rightarrow> raw \<Rightarrow> ('e, 'cs) ui \<Rightarrow> ('e, 'cs) ui answer" where
  "controlRenameSession E raw s =
     with_session raw True s (\<lambda>sid k gen.
       (let s1 = notifyMeta E (upd_ui_session sid (\<lambda>x. SetTitle x (trim_space (lax_str ''title'' raw))) s);
            s2 = publishSessionEvent ''session.metadata'' ''session.renamed'' sid
                   [(''title'', GStr (Title (session_at s1 sid)))] s1
        in reply (GMap (gofields [(''session'', GMap (controlSession E k sid s2)), (''generation'', GUint gen)])) s2))"

definition controlResizeSession ::
  "('e, 'cs) ui_env \<Rightarrow> raw \<Rightarrow> ('e, 'cs) ui \<Rightarrow> ('e, 'cs) ui answer" where
  "controlResizeSession E raw s =
     with_session raw True s (\<lambda>sid k gen.
       (let c = lax_int ''cols'' raw; r = lax_int ''rows'' raw in
        if c < 1 \<or> r < 1 then fail ''invalid_argument'' ''cols and rows must be positive'' s
        else
          Option.bind (run_manager k (ResizeOne (ue_emulator E) (index (session_at s sid)) c r) s) (\<lambda>s1.
            (let s2 = publishSessionEvent ''session.metadata'' ''session.resized'' sid
                        [(''cols'', gint c), (''rows'', gint r)] s1
             in reply (session_result E k sid s2) s2))))"

text \<open>Of \<open>clearConnectionViewports\<close> what is not a cache.\<close>

definition clearConnectionViewports :: "outside \<Rightarrow> nat \<Rightarrow> ('e, 'cs) ui \<Rightarrow> ('e, 'cs) ui" where
  "clearConnectionViewports U k s =
     (let (a, s1) = activeConnection (os_random U) s
      in if a = k then syncActiveConnectionFields (os_random U) s1 else s1)"

text \<open>A respawn takes the size of the manager, and then its old size again.\<close>

definition respawn_at ::
  "('e, 'cs) ui_env \<Rightarrow> outside \<Rightarrow> nat \<Rightarrow> nat \<Rightarrow> ('e, 'cs) ui \<Rightarrow> (bool \<times> ('e, 'cs) ui) option" where
  "respawn_at E U k sid s =
     (let (c, r) = Dimensions (screen_of s sid) in
      Option.bind (on_manager k (Respawn (ue_emulator E) (index (session_at s sid)) (os_opened U)) s) (\<lambda>(ok, s1).
        (if ok \<noteq> Some True then Some (False, s1)
         else map_option (Pair True) (run_manager k (ResizeOne (ue_emulator E) (index (session_at s1 sid)) c r) s1))))"

definition controlRespawnSession ::
  "('e, 'cs) ui_env \<Rightarrow> outside \<Rightarrow> raw \<Rightarrow> ('e, 'cs) ui \<Rightarrow> ('e, 'cs) ui answer" where
  "controlRespawnSession E U raw s =
     with_session raw True s (\<lambda>sid k gen.
       Option.bind (respawn_at E U k sid s) (\<lambda>(ok, s1).
         (if \<not> ok then fail ''unavailable'' ''respawn'' s1
          else
            (let s2 = publishSessionEvent ''session.lifecycle'' ''session.respawned'' sid [] (notifyMeta E s1)
             in reply (session_result E k sid s2) s2))))"

definition controlInject ::
  "('e, 'cs) ui_env \<Rightarrow> outside \<Rightarrow> raw \<Rightarrow> ('e, 'cs) ui \<Rightarrow> ('e, 'cs) ui answer" where
  "controlInject E U raw s =
     with_session raw False s (\<lambda>sid k gen.
       Option.bind (respawn_at E U k sid
            (upd_ui_session sid (\<lambda>x. SetEnvironment x (environment_of (lax_labels ''env'' raw))) s)) (\<lambda>(ok, s1).
         (if \<not> ok then fail ''unavailable'' ''respawn'' s1
          else
            (let s2 = publishSessionEvent ''session.lifecycle'' ''session.respawned'' sid [] (notifyMeta E s1)
             in reply (GMap (gofields [(''injected'', GBool True), (''session'', GMap (controlSession E k sid s2))])) s2))))"

text \<open>A session moves within its connection, or leaves it for another.\<close>

definition transfer_session :: "nat \<Rightarrow> nat \<Rightarrow> nat \<Rightarrow> int \<Rightarrow> ('e, 'cs) ui \<Rightarrow> ('e, 'cs) ui option" where
  "transfer_session k j sid position s =
     (if j = k then
        (case cn_manager (connection_at s k) of
           None \<Rightarrow> None
         | Some g \<Rightarrow>
             (case Move (index (session_at s sid)) position (load (ui_world s) g) of
                None \<Rightarrow> None
              | Some m \<Rightarrow> run_manager k (\<lambda>_. m) s))
      else
        Option.bind (on_manager k (Detach (index (session_at s sid))) s) (\<lambda>(detached, s1).
          run_manager j (Adopt detached position) s1))"

definition moved_session :: "('e, 'cs) ui_env \<Rightarrow> outside \<Rightarrow> nat \<Rightarrow> nat \<Rightarrow> nat \<Rightarrow> ('e, 'cs) ui \<Rightarrow> ('e, 'cs) ui answer" where
  "moved_session E U k j sid s =
     (let s1 = clearConnectionViewports U j (clearConnectionViewports U k s);
          s2 = publishSessionEvent ''session.metadata'' ''session.moved'' sid
                 [(''connectionId'', GStr (cn_id (connection_at s1 j))),
                  (''position'', gint (index (session_at s1 sid)))] (notifyMeta E s1)
      in reply (session_result E j sid s2) s2)"

definition controlMoveSession ::
  "('e, 'cs) ui_env \<Rightarrow> outside \<Rightarrow> raw \<Rightarrow> ('e, 'cs) ui \<Rightarrow> ('e, 'cs) ui answer" where
  "controlMoveSession E U raw s =
     with_session raw True s (\<lambda>sid k gen.
       (case connectionByID (lax_str ''connectionId'' raw) s of
          None \<Rightarrow> fail ''not_found'' ''target connection not found'' s
        | Some j \<Rightarrow>
            (if cn_manager (connection_at s j) = None then fail ''not_found'' ''target connection not found'' s
             else Option.bind (transfer_session k j sid (lax_int ''position'' raw) s) (moved_session E U k j sid))))"

section \<open>Input\<close>

text \<open>\<open>Write\<close> of a session: how much of the data its channel took.\<close>

definition write_session :: "outside \<Rightarrow> nat \<Rightarrow> bytes \<Rightarrow> ('e, 'cs) ui \<Rightarrow> nat option \<times> ('e, 'cs) ui" where
  "write_session U sid dat s =
     (case SessionWrite (session_at s sid) of
        None \<Rightarrow> (None, s)
      | Some h \<Rightarrow>
          (let (n, ok) = os_write U h dat
           in (if ok then Some n else None, s\<lparr>ui_sent := ui_sent s @ [(h, take n dat)]\<rparr>)))"

definition send_answer :: "outside \<Rightarrow> nat \<Rightarrow> bytes \<Rightarrow> ('e, 'cs) ui \<Rightarrow> ('e, 'cs) ui answer" where
  "send_answer U sid dat s =
     (case write_session U sid dat s of
        (None, s1) \<Rightarrow> fail ''failed_precondition'' ''write'' s1
      | (Some n, s1) \<Rightarrow> reply (GMap (gofields [(''accepted'', gint (int n))])) s1)"

definition controlSendText :: "outside \<Rightarrow> raw \<Rightarrow> ('e, 'cs) ui \<Rightarrow> ('e, 'cs) ui answer" where
  "controlSendText U raw s =
     with_session raw True s (\<lambda>sid k gen.
       send_answer U sid (lax_str ''text'' raw @ (if lax_bool ''submit'' raw then [0x0D] else [])) s)"

definition paste_start :: bytes where "paste_start = 0x1B # ascii ''[200~''"
definition paste_end :: bytes where "paste_end = 0x1B # ascii ''[201~''"

definition controlPaste :: "outside \<Rightarrow> raw \<Rightarrow> ('e, 'cs) ui \<Rightarrow> ('e, 'cs) ui answer" where
  "controlPaste U raw s =
     with_session raw True s (\<lambda>sid k gen.
       (let t = lax_str ''text'' raw
        in send_answer U sid (if bracketPaste (screen_of s sid) then paste_start @ t @ paste_end else t) s))"

text \<open>A \<open>[]byte\<close> comes as base64 text, or as an array of numbers, where what is no byte counts as 0.\<close>

definition lax_bytes :: "bytes \<Rightarrow> json \<Rightarrow> bytes option" where
  "lax_bytes a v =
     (case v of
        JStr t \<Rightarrow> std_decode t
      | JArr vs \<Rightarrow> Some (map (\<lambda>v. case v of JInt i \<Rightarrow> if 0 \<le> i \<and> i < 256 then of_int i else 0 | _ \<Rightarrow> 0) vs)
      | JNull \<Rightarrow> Some [] | _ \<Rightarrow> None)"

definition controlSendBytes :: "outside \<Rightarrow> raw \<Rightarrow> ('e, 'cs) ui \<Rightarrow> ('e, 'cs) ui answer" where
  "controlSendBytes U raw s =
     with_session raw True s (\<lambda>sid k gen.
       send_answer U sid (field_value lax_bytes [] (ascii ''data'') (some_members raw)) s)"

section \<open>Output\<close>

definition controlSnapshot ::
  "('e, 'cs) ui_env \<Rightarrow> raw \<Rightarrow> ('e, 'cs) ui \<Rightarrow> ('e, 'cs) ui answer" where
  "controlSnapshot E raw s =
     with_session raw True s (\<lambda>sid k gen.
       (let v = screen_of s sid; (c, r) = Dimensions v; cur = Cursor (ue_emulator E) v;
            fmt = lax_str ''format'' raw;
            head = (\<lambda>bounded. gofields [(''cols'', gint c), (''rows'', gint r),
              (''outputSequence'', GUint (outputSequence (session_at s sid))),
              (''cursor'', GOther (JObj [(ascii ''X'', JInt (ci_X cur)), (ascii ''Y'', JInt (ci_Y cur)),
                 (ascii ''Visible'', JBool (ci_Visible cur)), (ascii ''Shape'', ue_shape E (ci_Shape cur)),
                 (ascii ''Blink'', JBool (ci_Blink cur))])), (''bounded'', GBool bounded)])
        in if fmt = [] \<or> fmt = ascii ''raw-replay'' then
             reply (GMap (head True @ gofields [(''format'', GStr (ascii ''raw-replay'')), (''data'', GBytes (RawSnapshot v))])) s
           else if fmt = ascii ''ansi-screen'' then
             (let (t, v') = RenderScreen (ue_emulator E) v
              in reply (GMap (head False @ gofields [(''format'', GStr fmt), (''text'', GStr t)]))
                   (s\<lparr>ui_world := upd_screen (screen (session_at s sid)) (\<lambda>_. v') (ui_world s)\<rparr>))
           else if fmt = ascii ''plain-screen'' then
             reply (GMap (head False @ gofields [(''format'', GStr fmt),
               (''lines'', gstrs (plainLines (visibleLinesLocked (ue_width E) (ue_emulator E) v)))])) s
           else if fmt = ascii ''plain-buffer'' then
             reply (GMap (head True @ gofields [(''format'', GStr fmt),
               (''lines'', gstrs (plainLines (BufferLines (ue_emulator E) v)))])) s
           else fail ''invalid_argument'' ''unknown snapshot format'' s))"

definition controlReplay :: "raw \<Rightarrow> ('e, 'cs) ui \<Rightarrow> ('e, 'cs) ui answer" where
  "controlReplay raw s =
     with_session raw True s (\<lambda>sid k gen.
       (let from = field_value dec_uint64 0 (ascii ''sequence'') (some_members raw);
            dat = RawSnapshot (screen_of s sid); nxt = outputSequence (session_at s sid);
            available = nxt - of_nat (length dat)
        in if from < available then
             Some (Inl \<lparr>err_Code = ascii ''output_gap'', err_Message = ascii ''requested output is no longer retained'',
               err_Details = gofields [(''requestedSequence'', GUint from), (''availableSequence'', GUint available)]\<rparr>, s)
           else if nxt < from then fail ''invalid_argument'' ''sequence exceeds current output'' s
           else if length dat < unat (from - available) then None
           else
             reply (GMap (gofields [(''data'', GBytes (drop (unat (from - available)) dat)), (''sequence'', GUint from),
               (''generation'', GUint gen)])) s))"

section \<open>Closing\<close>

definition controlCloseSession ::
  "('e, 'cs) ui_env \<Rightarrow> outside \<Rightarrow> raw \<Rightarrow> ('e, 'cs) ui \<Rightarrow> ('e, 'cs) ui answer" where
  "controlCloseSession E U raw s =
     with_session raw True s (\<lambda>sid k gen.
       (let mode = lax_str ''mode'' raw; (rid, g, _, _) = RuntimeSnapshot (session_at s sid);
            closed = GMap (gofields [(''closed'', GBool True)]);
            s1 = (if mode = [] \<or> mode = ascii ''terminate'' \<or> mode = ascii ''remove'' then suppressExit rid g s else s)
        in if mode = ascii ''interrupt'' then
             (case write_session U sid [3] s1 of
                (None, s2) \<Rightarrow> fail ''failed_precondition'' ''write'' s2
              | (Some _, s2) \<Rightarrow> reply closed s2)
           else if mode = [] \<or> mode = ascii ''terminate'' then
             (let s2 = s1\<lparr>ui_world := SessionClose sid (ui_world s1)\<rparr> in
              if rw (session_at s sid) \<noteq> None \<and> \<not> os_close U then fail ''internal'' ''close'' s2
              else reply closed
                (publishControlEvent ''session.lifecycle'' ''session.exited'' rid g [(''controlled'', GBool True)]
                  (notifyMeta E s2)))
           else if mode = ascii ''remove'' then
             Option.bind (on_manager k (Remove (index (session_at s1 sid))) s1) (\<lambda>(removed, s2).
               (if \<not> removed then fail ''not_found'' ''session not found'' s2
                else
                  (let (a, s3) = activeConnection (os_random U) (clearConnectionViewports U k
                          (s2\<lparr>ui_controlSessions := (ui_controlSessions s2)(rid := None)\<rparr>)) in
                   Option.bind
                     (if a = k \<and> manager_sessions (connection_at s3 k) \<noteq> [] then refreshFocused E s3 else Some s3)
                     (\<lambda>s4. reply closed
                        (publishControlEvent ''session.lifecycle'' ''session.removed'' rid g [] (notifyMeta E s4))))))
           else fail ''invalid_argument'' ''mode must be interrupt, terminate, or remove'' s1))"

section \<open>Conditions\<close>

record condition =
  co_AgentState :: "bytes list"
  co_Exit :: bool
  co_OutputRegex :: bytes
  co_ScreenRegex :: bytes
  co_SequenceAtLeast :: "64 word option"
  co_Any :: "json list"
  co_All :: "json list"

definition dec_uint64_ptr :: "64 word option \<Rightarrow> json \<Rightarrow> 64 word option option" where
  "dec_uint64_ptr a v =
     (if v = JNull then Some None else map_option Some (dec_uint64 (case a of None \<Rightarrow> 0 | Some x \<Rightarrow> x) v))"

definition decode_match :: "json \<Rightarrow> condition option" where
  "decode_match v =
     (case members v of
        None \<Rightarrow> None
      | Some fs \<Rightarrow>
          (case (strs_field ''agentState'' fs, bool_field ''exit'' fs, str_field ''outputRegex'' fs,
                 str_field ''screenRegex'' fs, field dec_uint64_ptr None (ascii ''sequenceAtLeast'') fs,
                 field dec_raws [] (ascii ''any'') fs, field dec_raws [] (ascii ''all'') fs) of
             (Some st, Some ex, Some ore, Some sre, Some sq, Some xs, Some ys) \<Rightarrow>
               Some \<lparr>co_AgentState = st, co_Exit = ex, co_OutputRegex = ore, co_ScreenRegex = sre,
                 co_SequenceAtLeast = sq, co_Any = xs, co_All = ys\<rparr>
           | _ \<Rightarrow> None))"

type_synonym match = "bool \<times> bytes \<times> bytes"

definition no_match :: match where
  "no_match = (False, [], [])"

definition matched_by :: "string \<Rightarrow> bytes \<Rightarrow> match" where
  "matched_by reason st = (True, ascii reason, st)"

definition join_newlines :: "bytes list \<Rightarrow> bytes" where
  "join_newlines xs = join_with [0x0A] xs"

text \<open>The conditions on the session itself, in the order they are tried.\<close>

definition match_session :: "('e, 'cs) ui_env \<Rightarrow> ('e, 'cs) ui \<Rightarrow> nat \<Rightarrow> condition \<Rightarrow> match" where
  "match_session E s sid c =
     (let x = session_at s sid; v = screen_of s sid;
          agent = Option.bind (session_status E s sid) (\<lambda>st. List.find (\<lambda>w. state_name (st_State st) = w) (co_AgentState c))
      in if co_Exit c \<and> exited x then matched_by ''exit'' []
         else if agent \<noteq> None then matched_by ''agentState'' (the agent)
         else if (case co_SequenceAtLeast c of None \<Rightarrow> False | Some n \<Rightarrow> n \<le> outputSequence x) then matched_by ''sequenceAtLeast'' []
         else if co_OutputRegex c \<noteq> [] \<and> ue_regexp E (co_OutputRegex c) (RawSnapshot v) = Some True
         then matched_by ''outputRegex'' []
         else if co_ScreenRegex c \<noteq> [] \<and> ue_regexp E (co_ScreenRegex c)
                   (join_newlines (plainLines (visibleLinesLocked (ue_width E) (ue_emulator E) v))) = Some True
         then matched_by ''screenRegex'' []
         else no_match)"

lemma decode_match_size:
  assumes "decode_match v = Some c"
  shows "2 * size_list size (co_Any c) < Suc (2 * size v)" and "2 * size_list size (co_All c) < Suc (2 * size v)"
proof -
  obtain fs where fs: "members v = Some fs" and x: "field dec_raws [] (ascii ''any'') fs = Some (co_Any c)"
    and y: "field dec_raws [] (ascii ''all'') fs = Some (co_All c)"
    using assms by (auto simp: decode_match_def split: option.splits)
  have "zs = [] \<or> size_list size zs < size v" if "field dec_raws [] key fs = Some zs" for key zs
    using field_raws_size [OF that] members_size [OF fs] that by auto
  from this [OF x] this [OF y]
  show "2 * size_list size (co_Any c) < Suc (2 * size v)" and "2 * size_list size (co_All c) < Suc (2 * size v)" by auto
qed

function matchCondition :: "('e, 'cs) ui_env \<Rightarrow> ('e, 'cs) ui \<Rightarrow> nat \<Rightarrow> json \<Rightarrow> match"
  and match_any :: "('e, 'cs) ui_env \<Rightarrow> ('e, 'cs) ui \<Rightarrow> nat \<Rightarrow> json list \<Rightarrow> match"
  and match_all :: "('e, 'cs) ui_env \<Rightarrow> ('e, 'cs) ui \<Rightarrow> nat \<Rightarrow> json list \<Rightarrow> bool"
where
  "matchCondition E s sid v =
     (case decode_match v of
        None \<Rightarrow> no_match
      | Some c \<Rightarrow>
          (let r = match_any E s sid (co_Any c) in
           if fst r then r
           else if co_All c \<noteq> [] then (if match_all E s sid (co_All c) then matched_by ''all'' [] else no_match)
           else match_session E s sid c))"
| "match_any E s sid [] = no_match"
| "match_any E s sid (v # vs) =
     (let r = matchCondition E s sid v in if fst r then r else match_any E s sid vs)"
| "match_all E s sid [] = True"
| "match_all E s sid (v # vs) = (if fst (matchCondition E s sid v) then match_all E s sid vs else False)"
  by pat_completeness auto
termination
  by (relation "measure (\<lambda>x. case x of Inl (E, s, sid, v) \<Rightarrow> Suc (2 * size v)
       | Inr (Inl (E, s, sid, vs)) \<Rightarrow> 2 * size_list size vs | Inr (Inr (E, s, sid, vs)) \<Rightarrow> 2 * size_list size vs)")
    (auto dest: decode_match_size)

declare matchCondition.simps [simp del]

definition controlAwaitCheck ::
  "('e, 'cs) ui_env \<Rightarrow> raw \<Rightarrow> ('e, 'cs) ui \<Rightarrow> ('e, 'cs) ui answer" where
  "controlAwaitCheck E raw s =
     with_session raw True s (\<lambda>sid k gen.
       (let (ok, reason, st) =
              (case field_value dec_raw None (ascii ''condition'') (some_members raw) of
                 None \<Rightarrow> no_match
               | Some v \<Rightarrow> matchCondition E s sid v)
        in reply (GMap (gofields [(''matched'', GBool ok), (''reason'', GStr reason),
             (''outputSequence'', GUint (outputSequence (session_at s sid)))] @
             (if st \<noteq> [] then gofields [(''agentState'', GStr st)] else []))) s))"

section \<open>The dispatcher\<close>

definition server_description :: "('e, 'cs) ui \<Rightarrow> goval" where
  "server_description s =
     GMap (gofields [(''serverName'', GStr (ui_serverName s)), (''capabilities'', gstrs Capabilities),
       (''limits'', GOther (JObj [(ascii ''maxFrameBytes'', JInt (2 ^ 20)), (ascii ''maxSessions'', JInt 32),
          (ascii ''replayBytesPerSession'', JInt (256 * 1024))]))])"

definition handleControlRequest ::
  "('e, 'cs) ui_env \<Rightarrow> outside \<Rightarrow> bytes \<Rightarrow> raw \<Rightarrow> bytes \<Rightarrow> ('e, 'cs) ui \<Rightarrow> ('e, 'cs) ui answer" where
  "handleControlRequest E U meth raw controllerID s =
     (if meth = ascii ''server.get'' then reply (server_description s) s
      else if meth = ascii ''connection.list'' then
        reply (GMap (gofields [(''connections'', GMaps (controlConnectionList s))])) s
      else if meth = ascii ''connection.create'' then controlCreateConnection E U raw controllerID s
      else if meth = ascii ''connection.rename'' then controlRenameConnection E raw s
      else if meth = ascii ''connection.remove'' then controlRemoveConnection E U raw s
      else if meth = ascii ''session.list'' then reply (controlListSessions E raw s) s
      else if meth = ascii ''session.get'' then
        with_session raw False s (\<lambda>sid k gen. reply (session_result E k sid s) s)
      else if meth = ascii ''session.create'' then controlCreateSession E U raw controllerID s
      else if meth = ascii ''session.focus'' then controlFocusSession E U raw s
      else if meth = ascii ''session.rename'' then controlRenameSession E raw s
      else if meth = ascii ''session.move'' then controlMoveSession E U raw s
      else if meth = ascii ''session.resize'' then controlResizeSession E raw s
      else if meth = ascii ''session.respawn'' then controlRespawnSession E U raw s
      else if meth = ascii ''session.close'' then controlCloseSession E U raw s
      else if meth = ascii ''session.sendText'' then controlSendText U raw s
      else if meth = ascii ''session.paste'' then controlPaste U raw s
      else if meth = ascii ''session.sendBytes'' then controlSendBytes U raw s
      else if meth = ascii ''session.snapshot'' then controlSnapshot E raw s
      else if meth = ascii ''session.replay'' then controlReplay raw s
      else if meth = ascii ''session.awaitCheck'' then controlAwaitCheck E raw s
      else if meth = ascii ''capability.inject'' then controlInject E U raw s
      else fail ''not_found'' ''unknown method'' s)"

end
