(* ===== verification/BackendInv.thy ===== *)
theory BackendInv
  imports BackendOps
begin

text \<open>
  The state of the interface under control requests: an operation on one manager leaves the
  sessions of the others alone (the contract \<open>local_operation\<close>, which all operations of the manager
  that the requests use fulfil), so every request keeps every manager's invariant and each session
  in one connection.
\<close>

section \<open>Operations on one manager\<close>

text \<open>
  What a step on one manager may do: it keeps the invariant, takes in only new sessions, and leaves
  sessions of others and all identifiers as they were.
\<close>

definition local_step :: "('e, 'cs) sessionManager \<Rightarrow> ('e, 'cs) sessionManager \<Rightarrow> bool" where
  "local_step m m' \<longleftrightarrow>
     mgr_inv m' \<and> set (sessions m') \<subseteq> set (sessions m) \<union> {x. w_nextSession m \<le> x} \<and>
     w_nextSession m \<le> w_nextSession m' \<and>
     (\<forall>x. x \<notin> set (sessions m) \<longrightarrow> x < w_nextSession m \<longrightarrow> w_sessions m' x = w_sessions m x) \<and>
     (\<forall>x < w_nextSession m. runtimeID (w_sessions m' x) = runtimeID (w_sessions m x))"

lemma local_stepI:
  assumes "mgr_inv m'" and "set (sessions m') \<subseteq> set (sessions m) \<union> {x. w_nextSession m \<le> x}"
    and "w_nextSession m \<le> w_nextSession m'"
    and "\<And>x. x \<notin> set (sessions m) \<Longrightarrow> x < w_nextSession m \<Longrightarrow> w_sessions m' x = w_sessions m x"
    and "\<And>x. x < w_nextSession m \<Longrightarrow> runtimeID (w_sessions m' x) = runtimeID (w_sessions m x)"
  shows "local_step m m'"
  using assms by (simp add: local_step_def)

lemma local_step_refl: "mgr_inv m \<Longrightarrow> local_step m m"
  by (simp add: local_step_def)

lemma local_step_trans:
  assumes "local_step m1 m2" and "local_step m2 m3"
  shows "local_step m1 m3"
proof (rule local_stepI)
  show "mgr_inv m3" and "w_nextSession m1 \<le> w_nextSession m3"
    using assms by (auto simp: local_step_def)
  show "set (sessions m3) \<subseteq> set (sessions m1) \<union> {x. w_nextSession m1 \<le> x}"
    using assms unfolding local_step_def by fastforce
  fix x
  assume x: "x < w_nextSession m1"
  then have x2: "x < w_nextSession m2" using assms(1) by (simp add: local_step_def)
  show "runtimeID (w_sessions m3 x) = runtimeID (w_sessions m1 x)"
    using assms x x2 by (simp add: local_step_def)
  assume n: "x \<notin> set (sessions m1)"
  then have "x \<notin> set (sessions m2)" using assms(1) x unfolding local_step_def by fastforce
  with assms n x x2 show "w_sessions m3 x = w_sessions m1 x" by (simp add: local_step_def)
qed

locale local_operation =
  fixes f :: "('e, 'cs) sessionManager \<Rightarrow> ('e, 'cs) sessionManager"
  assumes local: "mgr_inv m \<Longrightarrow> local_step m (f m)"

section \<open>The invariant\<close>

definition ui_ok :: "('e, 'cs) ui \<Rightarrow> bool" where
  "ui_ok s \<longleftrightarrow>
     in_range (ui_active s) (ui_connections s) \<and> distinct (all_sessions s) \<and>
     list_all (\<lambda>c. case cn_manager c of None \<Rightarrow> False | Some g \<Rightarrow> mgr_inv (load (ui_world s) g)) (ui_connections s)"

lemma load_simps [simp]:
  "sessions (load w g) = mg_sessions g" "focused (load w g) = mg_focused g"
  "w_nextSession (load w g) = w_nextSession w" "w_sessions (load w g) = w_sessions w"
  "w_screens (load w g) = w_screens w"
  by (simp_all add: load_def)

lemma heap_simps [simp]:
  "w_nextSession (heap_of m) = w_nextSession m" "w_sessions (heap_of m) = w_sessions m"
  "w_screens (heap_of m) = w_screens m"
  "mg_sessions (mgr_of m) = sessions m" "mg_focused (mgr_of m) = focused m"
  by (simp_all add: heap_of_def mgr_of_def)

lemma load_heap_other: "load (heap_of m) g = load (heap_of m) g"
  by simp

text \<open>All sessions but those of the connection in place \<open>k\<close>.\<close>

definition other_sessions :: "nat \<Rightarrow> ('e, 'cs) ui \<Rightarrow> nat list" where
  "other_sessions k s =
     concat (map manager_sessions (take k (ui_connections s))) @
     concat (map manager_sessions (drop (Suc k) (ui_connections s)))"

definition put_manager :: "nat \<Rightarrow> ('e, 'cs) sessionManager \<Rightarrow> ('e, 'cs) ui \<Rightarrow> ('e, 'cs) ui" where
  "put_manager k m s = upd_connection k (\<lambda>c. c\<lparr>cn_manager := Some (mgr_of m)\<rparr>) (s\<lparr>ui_world := heap_of m\<rparr>)"

lemma mset_all_sessions:
  assumes "k < length (ui_connections s)"
  shows "mset (all_sessions s) = mset (manager_sessions (connection_at s k)) + mset (other_sessions k s)"
proof -
  have "ui_connections s = take k (ui_connections s) @ connection_at s k # drop (Suc k) (ui_connections s)"
    using id_take_nth_drop [OF assms] by (simp add: connection_at_def)
  then have "all_sessions s = concat (map manager_sessions (take k (ui_connections s))) @
      manager_sessions (connection_at s k) @ concat (map manager_sessions (drop (Suc k) (ui_connections s)))"
    unfolding all_sessions_def by (metis concat.simps(2) concat_append list.simps(9) map_append)
  then show ?thesis by (simp add: other_sessions_def)
qed

lemma distinct_mset_eq: "mset xs = mset ys \<Longrightarrow> distinct xs = distinct ys"
  by (rule mset_eq_imp_distinct_iff)

lemma distinct_all_sessions:
  assumes "k < length (ui_connections s)"
  shows "distinct (all_sessions s) \<longleftrightarrow>
    distinct (manager_sessions (connection_at s k)) \<and> distinct (other_sessions k s) \<and>
    set (manager_sessions (connection_at s k)) \<inter> set (other_sessions k s) = {}"
  using distinct_mset_eq [of "all_sessions s" "manager_sessions (connection_at s k) @ other_sessions k s"]
    mset_all_sessions [OF assms] by simp

lemma set_all_sessions:
  assumes "k < length (ui_connections s)"
  shows "set (all_sessions s) = set (manager_sessions (connection_at s k)) \<union> set (other_sessions k s)"
  using arg_cong [OF mset_all_sessions [OF assms], of set_mset] by simp

lemma put_manager_simps [simp]:
  "length (ui_connections (put_manager k m s)) = length (ui_connections s)"
  "ui_active (put_manager k m s) = ui_active s" "ui_world (put_manager k m s) = heap_of m"
  "ui_controlSessions (put_manager k m s) = ui_controlSessions s"
  "ui_suppressed (put_manager k m s) = ui_suppressed s" "ui_statuses (put_manager k m s) = ui_statuses s"
  "ui_events (put_manager k m s) = ui_events s" "ui_sent (put_manager k m s) = ui_sent s"
  "ui_serving (put_manager k m s) = ui_serving s" "ui_layout (put_manager k m s) = ui_layout s"
  "k < length (ui_connections s) \<Longrightarrow> connection_at (put_manager k m s) k = (connection_at s k)\<lparr>cn_manager := Some (mgr_of m)\<rparr>"
  "j \<noteq> k \<Longrightarrow> connection_at (put_manager k m s) j = connection_at s j"
  "other_sessions k (put_manager k m s) = other_sessions k s"
  by (simp_all add: put_manager_def upd_connection_def connection_at_def other_sessions_def)

lemma mem_other_sessions:
  assumes "j < length (ui_connections s)" and "j \<noteq> k" and "x \<in> set (manager_sessions (connection_at s j))"
  shows "x \<in> set (other_sessions k s)"
proof (cases "j < k")
  case True
  then have "connection_at s j \<in> set (take k (ui_connections s))"
    using assms(1) by (auto simp: connection_at_def in_set_conv_nth intro: exI [of _ j])
  with assms(3) show ?thesis by (auto simp: other_sessions_def)
next
  case False
  with assms(2) have "drop (Suc k) (ui_connections s) ! (j - Suc k) = connection_at s j"
    and "j - Suc k < length (drop (Suc k) (ui_connections s))"
    using assms(1) by (auto simp: connection_at_def)
  then have "connection_at s j \<in> set (drop (Suc k) (ui_connections s))" by (metis nth_mem)
  with assms(3) show ?thesis by (auto simp: other_sessions_def)
qed

lemma ui_ok_iff:
  "ui_ok s \<longleftrightarrow> in_range (ui_active s) (ui_connections s) \<and> distinct (all_sessions s) \<and>
     (\<forall>k < length (ui_connections s). \<exists>g. cn_manager (connection_at s k) = Some g \<and> mgr_inv (load (ui_world s) g))"
  unfolding ui_ok_def list_all_length connection_at_def
  by (fastforce split: option.splits)

lemma ui_ok_manager:
  assumes "ui_ok s" and "k < length (ui_connections s)"
  obtains g where "cn_manager (connection_at s k) = Some g" and "mgr_inv (load (ui_world s) g)"
    and "manager_sessions (connection_at s k) = mg_sessions g"
  using assms by (auto simp: ui_ok_iff manager_sessions_def)

lemma session_allocated:
  assumes "ui_ok s" and "k < length (ui_connections s)" and "x \<in> set (manager_sessions (connection_at s k))"
  shows "x < w_nextSession (ui_world s)"
proof -
  obtain g where "mgr_inv (load (ui_world s) g)" "manager_sessions (connection_at s k) = mg_sessions g"
    by (rule ui_ok_manager [OF assms(1,2)])
  with assms(3) show ?thesis by (auto simp: mgr_inv_def placed_def)
qed

lemma all_sessions_allocated:
  assumes "ui_ok s" and "x \<in> set (all_sessions s)"
  shows "x < w_nextSession (ui_world s)"
proof -
  from assms(2) obtain c where "c \<in> set (ui_connections s)" "x \<in> set (manager_sessions c)"
    by (auto simp: all_sessions_def)
  then obtain k where "k < length (ui_connections s)" "x \<in> set (manager_sessions (connection_at s k))"
    by (auto simp: in_set_conv_nth [of c] connection_at_def)
  with assms(1) show ?thesis by (rule session_allocated)
qed

text \<open>
  A manager changes and the rest stays: this is all it takes for the state to stay sound. Sessions it
  takes in must not be held elsewhere.
\<close>

lemma put_manager_ok:
  assumes ok: "ui_ok s" and k: "k < length (ui_connections s)" and inv: "mgr_inv m"
    and fresh: "set (sessions m) \<inter> set (other_sessions k s) = {}"
    and mono: "w_nextSession (ui_world s) \<le> w_nextSession m"
    and same: "\<And>x. x \<in> set (other_sessions k s) \<Longrightarrow> index (w_sessions m x) = index (w_sessions (ui_world s) x)"
  shows "ui_ok (put_manager k m s)"
  unfolding ui_ok_iff
proof (intro conjI allI impI)
  show "in_range (ui_active (put_manager k m s)) (ui_connections (put_manager k m s))"
    using ok by (simp add: ui_ok_iff in_range_def)
  have "manager_sessions (connection_at (put_manager k m s) k) = sessions m"
    using k by (simp add: manager_sessions_def)
  moreover have "distinct (other_sessions k s)" using ok k distinct_all_sessions [OF k] by (simp add: ui_ok_iff)
  moreover have "distinct (sessions m)" using inv by (simp add: mgr_inv_def placed_def)
  ultimately show "distinct (all_sessions (put_manager k m s))"
    using distinct_all_sessions [of k "put_manager k m s"] k fresh by simp
  fix j
  assume "j < length (ui_connections (put_manager k m s))"
  then have j: "j < length (ui_connections s)" by simp
  show "\<exists>g. cn_manager (connection_at (put_manager k m s) j) = Some g \<and> mgr_inv (load (ui_world (put_manager k m s)) g)"
  proof (cases "j = k")
    case True
    with inv k show ?thesis by simp
  next
    case False
    obtain g where g: "cn_manager (connection_at s j) = Some g" "mgr_inv (load (ui_world s) g)"
      "manager_sessions (connection_at s j) = mg_sessions g" by (rule ui_ok_manager [OF ok j])
    have "mgr_inv (load (heap_of m) g)"
    proof (rule mgr_inv_cong [OF g(2)])
      show "w_nextSession (load (ui_world s) g) \<le> w_nextSession (load (heap_of m) g)" using mono by simp
      fix x
      assume "x \<in> set (sessions (load (ui_world s) g))"
      then have "x \<in> set (other_sessions k s)" using mem_other_sessions [OF j False] g(3) by simp
      then show "index (w_sessions (load (heap_of m) g) x) = index (w_sessions (load (ui_world s) g) x)"
        using same by simp
    qed simp_all
    with g(1) False show ?thesis by simp
  qed
qed

lemma other_sessions_fresh:
  assumes "ui_ok s" and "k < length (ui_connections s)" and "x \<in> set (other_sessions k s)"
  shows "x \<notin> set (manager_sessions (connection_at s k))" and "x < w_nextSession (ui_world s)"
proof -
  show "x \<notin> set (manager_sessions (connection_at s k))"
    using assms distinct_all_sessions [OF assms(2)] by (auto simp: ui_ok_iff)
  show "x < w_nextSession (ui_world s)"
    using all_sessions_allocated [OF assms(1)] set_all_sessions [OF assms(2)] assms(3) by auto
qed

lemma put_manager_local_ok:
  assumes ok: "ui_ok s" and k: "k < length (ui_connections s)" and g: "cn_manager (connection_at s k) = Some g"
    and step: "local_step (load (ui_world s) g) m"
  shows "ui_ok (put_manager k m s)"
proof (rule put_manager_ok [OF ok k])
  note fresh = other_sessions_fresh [OF ok k]
  have sess: "manager_sessions (connection_at s k) = mg_sessions g" using g by (simp add: manager_sessions_def)
  show "mgr_inv m" and "w_nextSession (ui_world s) \<le> w_nextSession m" using step by (simp_all add: local_step_def)
  show "set (sessions m) \<inter> set (other_sessions k s) = {}"
    using step fresh unfolding local_step_def sess by fastforce
  show "index (w_sessions m x) = index (w_sessions (ui_world s) x)" if "x \<in> set (other_sessions k s)" for x
    using step fresh [OF that] unfolding local_step_def sess by simp
qed

lemma run_manager_Some:
  "cn_manager (connection_at s k) = Some g \<Longrightarrow>
   run_manager k f s = Some (put_manager k (f (load (ui_world s) g)) s)"
  by (simp add: run_manager_def on_manager_def put_manager_def)

lemma on_manager_Some:
  "cn_manager (connection_at s k) = Some g \<Longrightarrow>
   on_manager k f s = Some (fst (f (load (ui_world s) g)), put_manager k (snd (f (load (ui_world s) g))) s)"
  by (simp add: on_manager_def put_manager_def case_prod_beta)

context local_operation
begin

lemma run_ok:
  assumes "ui_ok s" and "k < length (ui_connections s)"
  shows "\<exists>g. run_manager k f s = Some (put_manager k (f (load (ui_world s) g)) s) \<and>
    local_step (load (ui_world s) g) (f (load (ui_world s) g)) \<and> ui_ok (put_manager k (f (load (ui_world s) g)) s)"
proof -
  obtain g where g: "cn_manager (connection_at s k) = Some g" "mgr_inv (load (ui_world s) g)"
    by (rule ui_ok_manager [OF assms])
  with local [OF g(2)] put_manager_local_ok [OF assms g(1)] run_manager_Some [OF g(1)] show ?thesis by blast
qed

end

section \<open>The operations of the manager\<close>

lemma mgr_inv_range:
  assumes "mgr_inv m" and "x \<notin> set (sessions m)" and "in_range i (sessions m)"
  shows "x \<noteq> sessions m ! nat i"
  using assms by (auto simp: in_range_def)

lemma reindexed_other: "x \<notin> set (sessions m) \<Longrightarrow> w_sessions (reindex m) x = w_sessions m x"
  by (simp add: reindex_def reindex_other)

lemma reindexed_runtimeID: "runtimeID (w_sessions (reindex m) x) = runtimeID (w_sessions m x)"
  by (simp add: reindex_def reindex_keeps)

lemma removed_other:
  assumes "x \<notin> set (sessions m)"
  shows "w_sessions (reindex (m\<lparr>sessions := remove_at i (sessions m)\<rparr>)) x = w_sessions m x"
  using assms set_remove_at_subset [of i "sessions m"] by (subst reindexed_other) auto

lemma SessionClose_other: "x \<noteq> i \<Longrightarrow> w_sessions (SessionClose i m) x = w_sessions m x"
  by (simp add: SessionClose_def Let_def upd_session_def)

lemma Start_other:
  "x \<noteq> i \<Longrightarrow> w_sessions (snd (Start i opened m)) x = w_sessions m x"
  "runtimeID (w_sessions (snd (Start i opened m)) x) = runtimeID (w_sessions m x)"
  by (auto simp: Start_def start_locked_def upd_session_def upd_screen_def Let_def split: option.split)

lemma Respawn_other:
  "x \<noteq> i \<Longrightarrow> w_sessions (snd (SessionRespawn E i c r opened m)) x = w_sessions m x"
  "runtimeID (w_sessions (snd (SessionRespawn E i c r opened m)) x) = runtimeID (w_sessions m x)"
  by (simp_all add: SessionRespawn_def Let_def Start_other mgr_frame respawn_locked_def upd_session_def)

lemma Focus_local: "mgr_inv m \<Longrightarrow> local_step m (Focus i m)"
  by (rule local_stepI [OF Focus_inv]) (simp_all add: Focus_def mgr_frame)

lemma Detach_local: "mgr_inv m \<Longrightarrow> local_step m (snd (Detach i m))"
  using set_remove_at_subset [of "nat i" "sessions m"]
  by (intro local_stepI Detach_inv)
    (auto simp: Detach_def Let_def mgr_frame removed_other reindexed_runtimeID)

lemma Remove_local: "mgr_inv m \<Longrightarrow> local_step m (snd (Remove i m))"
  using set_remove_at_subset [of "nat i" "sessions m"]
  by (intro local_stepI Remove_inv)
    (auto simp: Remove_def Let_def mgr_frame removed_other reindexed_runtimeID SessionClose_other mgr_inv_range)

lemma ResizeOne_local: "mgr_inv m \<Longrightarrow> local_step m (ResizeOne E i c r m)"
  by (rule local_stepI [OF ResizeOne_inv]) (simp_all add: ResizeOne_def mgr_frame split: option.split)

lemma Respawn_local: "mgr_inv m \<Longrightarrow> local_step m (snd (Respawn E i opened m))"
  by (rule local_stepI [OF Respawn_inv])
    (auto simp: Respawn_def mgr_frame case_prod_beta Respawn_other mgr_inv_range)

lemma upd_session_local:
  assumes "mgr_inv m" and "sid \<in> set (sessions m)" and "\<And>x. index (f x) = index x" and "\<And>x. runtimeID (f x) = runtimeID x"
  shows "local_step m (upd_session sid f m)"
proof (rule local_stepI)
  show "mgr_inv (upd_session sid f m)"
    using assms by (auto intro!: mgr_inv_cong [OF assms(1)] simp: mgr_frame)
qed (use assms in \<open>auto simp: mgr_frame\<close>)

lemma foldl_local:
  assumes "mgr_inv m" and "\<And>m x. mgr_inv m \<Longrightarrow> x \<in> set xs \<Longrightarrow> local_step m (f m x)"
  shows "local_step m (foldl f m xs)"
  using assms
proof (induction xs arbitrary: m)
  case (Cons x xs)
  have 1: "local_step m (f m x)" using Cons.prems by simp
  then have "mgr_inv (f m x)" by (simp add: local_step_def)
  then have "local_step (f m x) (foldl f (f m x) xs)" using Cons by simp
  with 1 show ?case using local_step_trans by fastforce
qed (simp add: local_step_refl)

text \<open>Settings of all sessions: the list stays, and each is updated.\<close>

lemma settings_local:
  assumes inv: "mgr_inv m" and same: "sessions m0 = sessions m" "focused m0 = focused m"
      "w_nextSession m0 = w_nextSession m" "w_sessions m0 = w_sessions m"
    and f: "\<And>x. index (f x) = index x" "\<And>x. runtimeID (f x) = runtimeID x"
  shows "local_step m (foldl (\<lambda>m sid. upd_session sid f m) m0 (sessions m))"
proof -
  have h: "w_sessions (foldl (\<lambda>m sid. upd_session sid f m) m1 xs) x = w_sessions m1 x" if "x \<notin> set xs"
    for x xs and m1 :: "('a, 'b) sessionManager"
    using that by (induction xs arbitrary: m1) (auto simp: mgr_frame)
  have i: "index (w_sessions (foldl (\<lambda>m sid. upd_session sid f m) m1 xs) x) = index (w_sessions m1 x)"
    "runtimeID (w_sessions (foldl (\<lambda>m sid. upd_session sid f m) m1 xs) x) = runtimeID (w_sessions m1 x)"
    for x xs and m1 :: "('a, 'b) sessionManager"
    by (induction xs arbitrary: m1) (auto simp: mgr_frame f)
  have k: "sessions (foldl (\<lambda>m sid. upd_session sid f m) m1 xs) = sessions m1"
    "focused (foldl (\<lambda>m sid. upd_session sid f m) m1 xs) = focused m1"
    "w_nextSession (foldl (\<lambda>m sid. upd_session sid f m) m1 xs) = w_nextSession m1"
    for xs and m1 :: "('a, 'b) sessionManager"
    by (induction xs arbitrary: m1) (auto simp: mgr_frame)
  show ?thesis
    by (rule local_stepI, rule mgr_inv_cong [OF inv]) (simp_all add: h i k same)
qed

lemma settings_steps:
  assumes "mgr_inv m"
  shows "local_step m (SetSendOutput fn m)" "local_step m (SetSendExit fn m)" "local_step m (SetAgentStateEndpoint ep m)"
  unfolding SetSendOutput_def SetSendExit_def SetAgentStateEndpoint_def
  by (rule settings_local [OF assms]; simp add: setSendOutput_def setSendExit_def)+

lemma Move_local:
  assumes "mgr_inv m"
  shows "\<exists>m'. Move src dst m = Some m' \<and> local_step m m' \<and> mset (sessions m') = mset (sessions m)"
proof -
  obtain m' where m': "Move src dst m = Some m'" "mgr_inv m'" using Move_inv [OF assms] by blast
  have frame: "w_nextSession m' = w_nextSession m"
    "\<And>x. x \<notin> set (sessions m') \<Longrightarrow> w_sessions m' x = w_sessions m x"
    "\<And>x. runtimeID (w_sessions m' x) = runtimeID (w_sessions m x)"
    using m'(1) by (auto simp: Move_def Let_def mgr_frame reindexed_other reindexed_runtimeID split: if_splits)
  have ms: "mset (sessions m') = mset (sessions m)"
  proof (cases "m' = m")
    case False
    then have c: "\<not> (int (length (sessions m)) \<le> 1 \<or> src < 0 \<or> int (length (sessions m)) \<le> src)"
      using m'(1) by (auto simp: Move_def Let_def)
    define d where "d = (if int (length (sessions m)) \<le> (if dst < 0 then 0 else dst) then int (length (sessions m)) - 1
        else if dst < 0 then 0 else dst)"
    have d: "0 \<le> d" "d < int (length (sessions m))" using c by (auto simp: d_def)
    have "sessions m' = move_list (nat src) (nat d) (sessions m)"
      using m'(1) c False by (auto simp: Move_def Let_def mgr_frame move_list_def d_def split: if_splits)
    moreover have "nat src < length (sessions m)" "nat d < length (sessions m)" using c d by linarith+
    ultimately show ?thesis by (simp add: move_list_facts)
  qed simp
  have "local_step m m'"
    using m'(2) frame mset_eq_setD [OF ms] by (intro local_stepI) auto
  with m' ms show ?thesis by blast
qed

lemma CloseAll_local:
  assumes "mgr_inv m"
  shows "local_step m (CloseAll m)"
proof -
  have o: "w_sessions (foldl (\<lambda>m sid. SessionClose sid m) m1 xs) x = w_sessions m1 x" if "x \<notin> set xs"
    for x xs and m1 :: "('a, 'b) sessionManager"
    using that by (induction xs arbitrary: m1) (auto simp: SessionClose_other)
  have i: "runtimeID (w_sessions (foldl (\<lambda>m sid. SessionClose sid m) m1 xs) x) = runtimeID (w_sessions m1 x)"
    "sessions (foldl (\<lambda>m sid. SessionClose sid m) m1 xs) = sessions m1"
    "w_nextSession (foldl (\<lambda>m sid. SessionClose sid m) m1 xs) = w_nextSession m1"
    for x xs and m1 :: "('a, 'b) sessionManager"
    by (induction xs arbitrary: m1) (auto simp: mgr_frame)
  show ?thesis
    by (rule local_stepI [OF CloseAll_inv]) (simp_all add: CloseAll_def o i mgr_frame)
qed

lemma NewConfigured_local:
  assumes "mgr_inv m"
  shows "local_step m (snd (NewConfigured E rnd command ssh d env opened m))"
proof (rule local_stepI)
  let ?m' = "snd (NewConfigured E rnd command ssh d env opened m)"
  show "mgr_inv ?m'" by (rule NewConfigured_facts [OF assms])
  show "set (sessions ?m') \<subseteq> set (sessions m) \<union> {x. w_nextSession m \<le> x}"
    by (simp add: NewConfigured_facts(2) [OF assms])
  define m1 where "m1 = snd (NewConfigured_begin E rnd command ssh d env m)"
  define m2 where "m2 = snd (Start (w_nextSession m) opened m1)"
  have eq: "NewConfigured_begin E rnd command ssh d env m = (w_nextSession m, m1)"
    unfolding m1_def by (rule prod_eqI) (simp_all add: conf_begin_frame(1))
  have new: "?m' = (if opened \<noteq> None then m2 else NewConfigured_failed (w_nextSession m) m2)"
    by (simp add: NewConfigured_def eq m2_def case_prod_beta Start_frame(5))
  have m1: "sessions m1 = sessions m @ [w_nextSession m]" "w_nextSession m1 = Suc (w_nextSession m)"
    by (simp_all add: m1_def mgr_frame)
  have o1: "w_sessions m1 x = w_sessions m x" if "x < w_nextSession m" for x
    using that by (simp add: m1_def NewConfigured_begin_def Let_def case_prod_beta mgr_frame)
  have m2: "sessions m2 = sessions m @ [w_nextSession m]" "w_nextSession m2 = Suc (w_nextSession m)"
    by (simp_all add: m2_def m1 mgr_frame)
  have o2: "w_sessions m2 x = w_sessions m x" if "x < w_nextSession m" for x
    using that by (simp add: m2_def o1 Start_other)
  have absent: "w_nextSession m \<notin> set (sessions m)" using assms by (auto simp: mgr_inv_def placed_def)
  have f: "w_nextSession (NewConfigured_failed sid m2) = w_nextSession m2"
    "runtimeID (w_sessions (NewConfigured_failed sid m2) x) = runtimeID (w_sessions m2 x)" for sid x
    by (simp_all add: NewConfigured_failed_def mgr_frame reindexed_runtimeID)
  show "w_nextSession m \<le> w_nextSession ?m'" by (simp add: new f m2)
  fix x
  assume x: "x < w_nextSession m"
  show "runtimeID (w_sessions ?m' x) = runtimeID (w_sessions m x)" using x by (simp add: new f o2)
  assume "x \<notin> set (sessions m)"
  then have "x \<notin> set (remove1 (w_nextSession m) (sessions m2))"
    using absent by (simp add: m2 remove1_append)
  then show "w_sessions ?m' x = w_sessions m x"
    using x by (simp add: new NewConfigured_failed_def SessionClose_other mgr_frame reindexed_other o2)
qed

interpretation focus_op: local_operation "Focus i" for i
  by unfold_locales (rule Focus_local)

interpretation detach_op: local_operation "\<lambda>m. snd (Detach i m)" for i
  by unfold_locales (rule Detach_local)

interpretation remove_op: local_operation "\<lambda>m. snd (Remove i m)" for i
  by unfold_locales (rule Remove_local)

interpretation resize_op: local_operation "ResizeOne E i c r" for E i c r
  by unfold_locales (rule ResizeOne_local)

interpretation respawn_op: local_operation "\<lambda>m. snd (Respawn E i opened m)" for E i opened
  by unfold_locales (rule Respawn_local)

interpretation close_op: local_operation CloseAll
  by unfold_locales (rule CloseAll_local)

interpretation configured_op: local_operation "\<lambda>m. snd (NewConfigured E rnd command ssh d env opened m)"
  for E rnd command ssh d env opened
  by unfold_locales (rule NewConfigured_local)

interpretation endpoint_op: local_operation "SetAgentStateEndpoint ep" for ep
  by unfold_locales (rule settings_steps)

lemma callbacks_local: "mgr_inv m \<Longrightarrow> local_step m (SetSendExit fn (SetSendOutput fn m))"
proof -
  assume m: "mgr_inv m"
  have 1: "local_step m (SetSendOutput fn m)" using m by (rule settings_steps)
  then have "mgr_inv (SetSendOutput fn m)" by (simp add: local_step_def)
  with 1 show ?thesis using settings_steps(2) local_step_trans by blast
qed

interpretation callbacks_op: local_operation "\<lambda>m. SetSendExit fn (SetSendOutput fn m)" for fn
  by unfold_locales (rule callbacks_local)

end
