(* ===== verification/BackendMoves.thy ===== *)
theory BackendMoves
  imports BackendInv
begin

text \<open>
  Steps of requests that keep the invariant: changes beside the managers, focus, and moving sessions
  between connections.
\<close>

section \<open>Changes beside the managers\<close>

lemma ui_ok_cong:
  assumes ok: "ui_ok s" and cs: "map cn_manager (ui_connections s') = map cn_manager (ui_connections s)"
    and act: "in_range (ui_active s') (ui_connections s)"
    and mono: "w_nextSession (ui_world s) \<le> w_nextSession (ui_world s')"
    and same: "\<And>x. index (session_at s' x) = index (session_at s x)"
  shows "ui_ok s'"
proof -
  have len: "length (ui_connections s') = length (ui_connections s)" using cs by (metis length_map)
  have mgr: "cn_manager (connection_at s' k) = cn_manager (connection_at s k)" if "k < length (ui_connections s)" for k
    using cs that len by (metis connection_at_def nth_map)
  have "map manager_sessions (ui_connections s') = map manager_sessions (ui_connections s)"
  proof -
    have "map manager_sessions xs = map (\<lambda>m. case m of None \<Rightarrow> [] | Some g \<Rightarrow> mg_sessions g) (map cn_manager xs)" for xs
      by (simp add: manager_sessions_def)
    with cs show ?thesis by metis
  qed
  then have all: "all_sessions s' = all_sessions s" by (simp add: all_sessions_def)
  have "\<exists>g. cn_manager (connection_at s' k) = Some g \<and> mgr_inv (load (ui_world s') g)" if k: "k < length (ui_connections s')" for k
  proof -
    from k len have k': "k < length (ui_connections s)" by simp
    obtain g where g: "cn_manager (connection_at s k) = Some g" "mgr_inv (load (ui_world s) g)"
      by (rule ui_ok_manager [OF ok k'])
    have "mgr_inv (load (ui_world s') g)"
      by (rule mgr_inv_cong [OF g(2)]) (use mono same in \<open>simp_all add: session_at_def\<close>)
    with g(1) mgr [OF k'] show ?thesis by simp
  qed
  with ok act len all show ?thesis by (auto simp: ui_ok_iff in_range_def)
qed

text \<open>A state that differs only in what the invariant does not look at.\<close>

definition same_managers :: "('e, 'cs) ui \<Rightarrow> ('e, 'cs) ui \<Rightarrow> bool" where
  "same_managers s s' \<longleftrightarrow>
     map cn_manager (ui_connections s') = map cn_manager (ui_connections s) \<and> ui_active s' = ui_active s \<and>
     w_nextSession (ui_world s) \<le> w_nextSession (ui_world s') \<and>
     (\<forall>x. index (session_at s' x) = index (session_at s x))"

lemma same_managers_ok: "ui_ok s \<Longrightarrow> same_managers s s' \<Longrightarrow> ui_ok s'"
  by (rule ui_ok_cong) (auto simp: same_managers_def ui_ok_iff)

named_theorems core \<open>operations that leave managers and indexes alone\<close>

lemma same_managers_refl [core]: "same_managers s s"
  by (simp add: same_managers_def)

lemma same_managers_trans: "same_managers s s1 \<Longrightarrow> same_managers s1 s2 \<Longrightarrow> same_managers s s2"
  by (auto simp: same_managers_def)

lemma upd_connection_core [core]:
  "(\<And>c. cn_manager (f c) = cn_manager c) \<Longrightarrow> same_managers s (upd_connection k f s)"
  by (auto simp: same_managers_def upd_connection_def session_at_def map_update intro: list_update_beyond)
    (metis length_map list_update_beyond list_update_id not_le nth_map)

lemma notifyMeta_core [core]: "same_managers s (notifyMeta E s)"
  by (simp add: same_managers_def notifyMeta_def session_at_def)

lemma publish_core [core]: "same_managers s (publishControlEvent st ev i g d s)"
  by (simp add: same_managers_def publishControlEvent_def session_at_def)

lemma publishSession_core [core]: "same_managers s (publishSessionEvent st ev sid d s)"
  by (simp add: publishSessionEvent_def publish_core)

lemma suppress_core [core]: "same_managers s (suppressExit i g s)"
  by (simp add: same_managers_def suppressExit_def session_at_def)

lemma acknowledge_core [core]: "same_managers s (acknowledge_session E sid s)"
  by (simp add: same_managers_def acknowledge_session_def session_at_def)

lemma meta_core [core]: "same_managers s (s\<lparr>ui_controlSessions := m\<rparr>)"
  by (simp add: same_managers_def session_at_def)

lemma sent_core [core]: "same_managers s (s\<lparr>ui_sent := m\<rparr>)"
  by (simp add: same_managers_def session_at_def)

lemma upd_ui_session_core [core]:
  "(\<And>x. index (f x) = index x) \<Longrightarrow> same_managers s (upd_ui_session sid f s)"
  by (simp add: same_managers_def upd_ui_session_def upd_session_def session_at_def)

lemma screen_core [core]: "same_managers s (s\<lparr>ui_world := upd_screen k f (ui_world s)\<rparr>)"
  by (simp add: same_managers_def upd_screen_def session_at_def)

lemma close_core [core]: "same_managers s (s\<lparr>ui_world := SessionClose sid (ui_world s)\<rparr>)"
  by (simp add: same_managers_def SessionClose_def Let_def upd_session_def session_at_def)

lemma write_core [core]: "same_managers s (snd (write_session U sid d s))"
  by (simp add: same_managers_def write_session_def session_at_def case_prod_beta split: option.split)

lemma ok_active: "ui_ok s \<Longrightarrow> activeConnection rnd s = (nat (ui_active s), s)"
  by (cases "ui_connections s") (auto simp: activeConnection_def ui_ok_iff in_range_def Let_def)

lemma sync_active_core [core]: "ui_ok s \<Longrightarrow> same_managers s (sync_active s)"
proof -
  assume "ui_ok s"
  then have "in_range (ui_active s) (ui_connections s)" by (simp add: ui_ok_iff)
  moreover have "map (\<lambda>x. cn_manager (case x of (i, c) \<Rightarrow> c\<lparr>cn_webActive := b i\<rparr>)) (enumerate n cs) = map cn_manager cs"
    for b n and cs :: "connection list"
    by (induction cs arbitrary: n) simp_all
  ultimately show ?thesis
    by (auto simp: same_managers_def sync_active_def session_at_def Let_def in_range_def comp_def)
qed

lemma syncActive_ok: "ui_ok s \<Longrightarrow> ui_ok (syncActiveConnectionFields rnd s)"
  by (simp add: syncActiveConnectionFields_def ok_active same_managers_ok sync_active_core)

lemma set_active_ok:
  assumes "ui_ok s" and "in_range k (ui_connections s)"
  shows "ui_ok (s\<lparr>ui_active := k\<rparr>)"
  by (rule ui_ok_cong [OF assms(1)]) (use assms(2) in \<open>simp_all add: session_at_def\<close>)

lemma clear_ok: "ui_ok s \<Longrightarrow> ui_ok (clearConnectionViewports U k s)"
  by (simp add: clearConnectionViewports_def ok_active syncActive_ok)

section \<open>Answers\<close>

definition good :: "('e, 'cs) ui option \<Rightarrow> bool" where
  "good a \<longleftrightarrow> (case a of None \<Rightarrow> False | Some s \<Rightarrow> ui_ok s)"

definition answered :: "('e, 'cs) ui answer \<Rightarrow> bool" where
  "answered a \<longleftrightarrow> (case a of None \<Rightarrow> False | Some (r, s) \<Rightarrow> ui_ok s)"

named_theorems answers \<open>requests are answered\<close>

lemma answered_fail [answers]: "ui_ok s \<Longrightarrow> answered (fail code msg s)"
  by (simp add: answered_def fail_def)

lemma answered_reply [answers]: "ui_ok s \<Longrightarrow> answered (reply v s)"
  by (simp add: answered_def reply_def)

lemma answered_Inl [answers]: "ui_ok s \<Longrightarrow> answered (Some (Inl e, s))"
  by (simp add: answered_def)

lemma good_Some [simp]: "good (Some s) \<longleftrightarrow> ui_ok s"
  by (simp add: good_def)

lemma answered_bind: "good a \<Longrightarrow> (\<And>s. ui_ok s \<Longrightarrow> answered (f s)) \<Longrightarrow> answered (Option.bind a f)"
  by (cases a) (simp_all add: good_def)

lemma good_bind: "good a \<Longrightarrow> (\<And>s. ui_ok s \<Longrightarrow> good (f s)) \<Longrightarrow> good (Option.bind a f)"
  by (cases a) (simp_all add: good_def)

lemma find_session_Some:
  "find_session w i cs = Some (sid, k) \<Longrightarrow>
   k < length cs \<and> sid \<in> set (manager_sessions (cs ! k)) \<and> runtimeID (w_sessions w sid) = i"
proof (induction cs arbitrary: k)
  case (Cons c cs)
  then show ?case
    by (auto simp: find_Some_iff split: option.splits)
qed simp

lemma session_from_params:
  assumes "controlSessionFromParams raw check s = Inr (sid, k, gen)"
  shows "k < length (ui_connections s)" and "sid \<in> set (manager_sessions (connection_at s k))"
    and "check \<Longrightarrow> generation (session_at s sid) = gen"
  using assms
  by (auto simp: controlSessionFromParams_def connection_at_def dest!: find_session_Some
      split: sum.splits option.splits prod.splits if_splits)

lemma answered_with_session:
  assumes "ui_ok s" and "\<And>sid k gen. k < length (ui_connections s) \<Longrightarrow> sid \<in> set (manager_sessions (connection_at s k)) \<Longrightarrow>
    (check \<Longrightarrow> generation (session_at s sid) = gen) \<Longrightarrow> answered (body sid k gen)"
  shows "answered (with_session raw check s body)"
proof (cases "controlSessionFromParams raw check s")
  case (Inr x)
  obtain sid k gen where x: "x = (sid, k, gen)" by (cases x)
  have "answered (body sid k gen)"
    by (rule assms(2)) (use session_from_params [OF Inr [unfolded x]] in auto)
  then show ?thesis by (simp add: with_session_def Inr x)
qed (use assms(1) in \<open>simp add: with_session_def answered_def\<close>)

lemma find_conn_Some: "find_conn P cs = Some k \<Longrightarrow> k < length cs \<and> P (cs ! k)"
  by (induction cs arbitrary: k) (auto split: if_splits)

lemma find_conn_None: "find_conn P cs = None \<longleftrightarrow> list_all (\<lambda>c. \<not> P c) cs"
  by (induction cs) auto

lemma connectionByID_Some:
  "connectionByID i s = Some k \<Longrightarrow> k < length (ui_connections s) \<and> cn_id (connection_at s k) = i"
  using find_conn_Some [of "\<lambda>c. cn_id c = i" "ui_connections s" k] by (simp add: connectionByID_def connection_at_def)

context local_operation
begin

lemma run_good:
  assumes "ui_ok s" and "k < length (ui_connections s)"
  shows "good (run_manager k f s)"
  using run_ok [OF assms] by auto

lemma run_length:
  "run_manager k f s = Some s' \<Longrightarrow> length (ui_connections s') = length (ui_connections s)"
  by (cases "cn_manager (connection_at s k)") (auto simp: run_manager_def on_manager_def upd_connection_def)

end

text \<open>Calls that also return a value.\<close>

lemma on_manager_run:
  "map_option snd (on_manager k f s) = run_manager k (\<lambda>m. snd (f m)) s"
  by (simp add: run_manager_def on_manager_def case_prod_beta split: option.split)

lemma bind_on_manager:
  assumes "good (run_manager k (\<lambda>m. snd (f m)) s)" and "\<And>a s'. ui_ok s' \<Longrightarrow> answered (body (a, s'))"
  shows "answered (Option.bind (on_manager k f s) body)"
  using assms by (cases "on_manager k f s") (auto simp: on_manager_run [symmetric] good_def)

lemma length_on_manager:
  "on_manager k f s = Some (a, s') \<Longrightarrow> length (ui_connections s') = length (ui_connections s)"
  by (auto simp: on_manager_def upd_connection_def case_prod_beta split: option.splits)

lemma length_run_manager:
  "run_manager k f s = Some s' \<Longrightarrow> length (ui_connections s') = length (ui_connections s)"
  by (auto simp: run_manager_def dest: length_on_manager)

section \<open>Focus\<close>

lemma refresh_good:
  assumes "ui_ok s"
  shows "good (refreshFocused E s)"
proof -
  let ?k = "nat (ui_active s)"
  let ?f = "\<lambda>m. ResizeOne (ue_emulator E) (FocusedIndex m) (fst (pane_size s)) (snd (pane_size s)) m"
  have k: "?k < length (ui_connections s)" using assms by (auto simp: ui_ok_iff in_range_def)
  obtain g where g: "cn_manager (connection_at s ?k) = Some g" "mgr_inv (load (ui_world s) g)"
    by (rule ui_ok_manager [OF assms k])
  have "ui_ok (put_manager ?k (?f (load (ui_world s) g)) s)"
    by (rule put_manager_local_ok [OF assms k g(1)]) (rule ResizeOne_local [OF g(2)])
  then show ?thesis
    by (simp add: refreshFocused_def Let_def on_manager_Some [OF g(1)] same_managers_ok acknowledge_core split: option.split)
qed

lemma focusConnection_good:
  assumes "ui_ok s"
  shows "good (focusConnection E rnd i s)"
proof -
  have ne: "ui_connections s \<noteq> []" using assms by (auto simp: ui_ok_iff in_range_def)
  define k where "k = (let n = int (length (ui_connections s)); i1 = (if i < 0 then n - 1 else i) in if n \<le> i1 then 0 else i1)"
  have "in_range k (ui_connections s)" using ne by (auto simp: k_def in_range_def Let_def)
  from refresh_good [OF syncActive_ok [OF set_active_ok [OF assms this]]]
  have g: "good (refreshFocused E (syncActiveConnectionFields rnd (s\<lparr>ui_active := k\<rparr>)))" .
  have "focusConnection E rnd i s = map_option (notifyMeta E) (refreshFocused E (syncActiveConnectionFields rnd (s\<lparr>ui_active := k\<rparr>)))"
    using ne by (simp add: focusConnection_def k_def Let_def)
  with g show ?thesis by (auto simp: good_def same_managers_ok notifyMeta_core split: option.splits)
qed

section \<open>Adopting\<close>

text \<open>
  The sessions run on: nothing of them changes but their place and whom they tell, no channel is
  closed and no read loop is touched.
\<close>

definition process_of :: "session \<Rightarrow> session" where
  "process_of x = x\<lparr>index := 0, SendOutput := False, SendExit := False\<rparr>"

definition same_world :: "('e, 'cs, 'a) world_scheme \<Rightarrow> ('e, 'cs, 'b) world_scheme \<Rightarrow> bool" where
  "same_world w w' \<longleftrightarrow> process_of \<circ> w_sessions w' = process_of \<circ> w_sessions w \<and> w_closed w' = w_closed w \<and> w_runs w' = w_runs w"

definition same_processes :: "('e, 'cs) ui \<Rightarrow> ('e, 'cs) ui \<Rightarrow> bool" where
  "same_processes s s' \<longleftrightarrow> same_world (ui_world s) (ui_world s')"

lemma same_world_refl [simp]: "same_world w w"
  by (simp add: same_world_def)

lemma same_processes_refl [simp]: "same_processes s s"
  by (simp add: same_processes_def same_world_def)

lemma same_processes_trans: "same_processes s s1 \<Longrightarrow> same_processes s1 s2 \<Longrightarrow> same_processes s s2"
  by (simp add: same_processes_def same_world_def)

lemma reindex_process: "process_of (reindex_from i sids h x) = process_of (h x)"
  by (induction i sids h rule: reindex_from.induct) (auto simp: setIndex_def process_of_def fun_upd_def split: if_splits)

lemma reindex_world: "same_world m (reindex m)"
  by (simp add: same_world_def reindex_def fun_eq_iff reindex_process)

lemma same_world_runtimeID: "same_world w w' \<Longrightarrow> runtimeID (w_sessions w' x) = runtimeID (w_sessions w x)"
  by (cases "w_sessions w x"; cases "w_sessions w' x") (auto simp: same_world_def process_of_def fun_eq_iff dest: spec [of _ x])

lemma same_processes_runtimeID: "same_processes s s' \<Longrightarrow> runtimeID (session_at s' x) = runtimeID (session_at s x)"
  by (simp add: same_processes_def session_at_def same_world_runtimeID)

lemma Adopt_frame:
  "sessions (Adopt (Some sid) pos m) =
     insert_at (nat (if pos < 0 \<or> int (length (sessions m)) < pos then int (length (sessions m)) else pos)) sid (sessions m)"
  "w_nextSession (Adopt (Some sid) pos m) = w_nextSession m" "focused (Adopt (Some sid) pos m) = focused m"
  "runtimeID (w_sessions (Adopt (Some sid) pos m) x) = runtimeID (w_sessions m x)"
  "x \<noteq> sid \<Longrightarrow> x \<notin> set (sessions m) \<Longrightarrow> w_sessions (Adopt (Some sid) pos m) x = w_sessions m x"
proof -
  show "x \<noteq> sid \<Longrightarrow> x \<notin> set (sessions m) \<Longrightarrow> w_sessions (Adopt (Some sid) pos m) x = w_sessions m x"
    by (simp add: Adopt_def Let_def mgr_frame reindex_def reindex_other)
qed (simp_all add: Adopt_def Let_def mgr_frame reindexed_runtimeID)

text \<open>Another state in which only the connection in place \<open>k\<close> and the heap differ.\<close>

definition differs_at :: "nat \<Rightarrow> ('e, 'cs) ui \<Rightarrow> ('e, 'cs) ui \<Rightarrow> bool" where
  "differs_at k s s' \<longleftrightarrow>
     length (ui_connections s') = length (ui_connections s) \<and>
     (\<forall>i. i \<noteq> k \<longrightarrow> connection_at s' i = connection_at s i) \<and>
     (k < length (ui_connections s) \<longrightarrow>
        (connection_at s' k)\<lparr>cn_manager := None\<rparr> = (connection_at s k)\<lparr>cn_manager := None\<rparr>) \<and>
     s'\<lparr>ui_connections := [], ui_world := ui_world s\<rparr> = s\<lparr>ui_connections := []\<rparr>"

lemma put_manager_differs: "differs_at k s (put_manager k m s)"
  by (simp add: differs_at_def put_manager_def upd_connection_def connection_at_def)

lemma reply_world: "same_world w m \<Longrightarrow> same_world w (updateTerminalRepliesLocked m)"
  by (simp add: same_world_def updateTerminalRepliesLocked_def)

lemma Adopt_world: "same_world m (Adopt (Some sid) pos m)"
proof -
  have "same_world m (reindex (n\<lparr>sessions := xs\<rparr>))" if "same_world m n" for n :: "('a, 'b) sessionManager" and xs
    using that reindex_world [of "n\<lparr>sessions := xs\<rparr>"] by (simp add: same_world_def)
  moreover have "same_world m (upd_session sid (\<lambda>s. s\<lparr>SendOutput := b, SendExit := c\<rparr>) m)" for b c
    by (simp add: same_world_def upd_session_def fun_eq_iff process_of_def)
  ultimately show ?thesis by (simp add: Adopt_def Let_def reply_world)
qed

lemma Detach_world: "same_world m (snd (Detach i m))"
proof -
  have "same_world m (reindex (m\<lparr>sessions := xs\<rparr>))" for xs
    using reindex_world [of "m\<lparr>sessions := xs\<rparr>"] by (simp add: same_world_def)
  then have "same_world m (clamp_focus (reindex (m\<lparr>sessions := xs\<rparr>)))" for xs
    by (simp add: same_world_def clamp_focus_def)
  then show ?thesis by (simp add: Detach_def Let_def reply_world)
qed

lemma Move_world: "Move src dst m = Some m' \<Longrightarrow> same_world m m'"
proof -
  have "same_world m (reindex (m\<lparr>sessions := xs\<rparr>))" for xs
    using reindex_world [of "m\<lparr>sessions := xs\<rparr>"] by (simp add: same_world_def)
  then have "same_world m ((reindex (m\<lparr>sessions := xs\<rparr>))\<lparr>focused := f\<rparr>)" for xs f
    by (simp add: same_world_def)
  then show "Move src dst m = Some m' \<Longrightarrow> same_world m m'"
    by (auto simp: Move_def Let_def reply_world split: if_splits)
qed

lemma put_manager_processes: "same_world (load (ui_world s) g) m \<Longrightarrow> same_processes s (put_manager k m s)"
  by (simp add: same_processes_def same_world_def heap_of_def load_def)

lemma adopt_run:
  assumes ok: "ui_ok s" and j: "j < length (ui_connections s)" and new: "sid \<notin> set (all_sessions s)"
    and alloc: "sid < w_nextSession (ui_world s)"
  obtains s' where "run_manager j (Adopt (Some sid) pos) s = Some s'" and "ui_ok s'" and "differs_at j s s'"
    and "manager_sessions (connection_at s' j) =
      insert_at (nat (if pos < 0 \<or> int (length (manager_sessions (connection_at s j))) < pos
                      then int (length (manager_sessions (connection_at s j))) else pos)) sid (manager_sessions (connection_at s j))"
    and "same_processes s s'"
proof -
  obtain g where g: "cn_manager (connection_at s j) = Some g" "mgr_inv (load (ui_world s) g)"
    "manager_sessions (connection_at s j) = mg_sessions g" by (rule ui_ok_manager [OF ok j])
  let ?m = "Adopt (Some sid) pos (load (ui_world s) g)"
  have sid: "sid \<notin> set (mg_sessions g)" "sid \<notin> set (other_sessions j s)"
    using new set_all_sessions [OF j] g(3) by auto
  have ok': "ui_ok (put_manager j ?m s)"
  proof (rule put_manager_ok [OF ok j])
    show "mgr_inv ?m" using g(2) sid alloc by (intro Adopt_inv) simp_all
    have "set (sessions ?m) = insert sid (set (mg_sessions g))" by (simp add: Adopt_frame)
    then show "set (sessions ?m) \<inter> set (other_sessions j s) = {}"
      using sid other_sessions_fresh(1) [OF ok j] g(3) by auto
    show "w_nextSession (ui_world s) \<le> w_nextSession ?m" by (simp add: Adopt_frame)
    fix x
    assume "x \<in> set (other_sessions j s)"
    then have "x \<noteq> sid" "x \<notin> set (mg_sessions g)" using sid other_sessions_fresh(1) [OF ok j] g(3) by auto
    then show "index (w_sessions ?m x) = index (w_sessions (ui_world s) x)" by (simp add: Adopt_frame)
  qed
  have proc: "same_processes s (put_manager j ?m s)" by (rule put_manager_processes [OF Adopt_world])
  have "manager_sessions (connection_at (put_manager j ?m s) j) = sessions ?m"
    using j by (simp add: manager_sessions_def)
  then show ?thesis
    by (intro that [OF run_manager_Some [OF g(1)] ok' put_manager_differs _ proc]) (simp add: Adopt_frame g(3))
qed

text \<open>A session goes from one manager to another.\<close>

lemma session_index:
  assumes ok: "ui_ok s" and k: "k < length (ui_connections s)" and sid: "sid \<in> set (manager_sessions (connection_at s k))"
  shows "in_range (index (session_at s sid)) (manager_sessions (connection_at s k)) \<and>
    manager_sessions (connection_at s k) ! nat (index (session_at s sid)) = sid"
proof -
  obtain g where g: "mgr_inv (load (ui_world s) g)" "manager_sessions (connection_at s k) = mg_sessions g"
    by (rule ui_ok_manager [OF ok k])
  obtain i where "i < length (mg_sessions g)" "mg_sessions g ! i = sid"
    using sid g(2) by (auto simp: in_set_conv_nth)
  with g show ?thesis by (auto simp: mgr_inv_def placed_def session_at_def in_range_def)
qed

lemma Detach_frame:
  assumes "in_range i (sessions m)"
  shows "fst (Detach i m) = Some (sessions m ! nat i)" "sessions (snd (Detach i m)) = remove_at (nat i) (sessions m)"
    "w_nextSession (snd (Detach i m)) = w_nextSession m"
  using assms by (simp_all add: Detach_def Let_def mgr_frame)

lemma detach_run:
  assumes ok: "ui_ok s" and k: "k < length (ui_connections s)" and i: "in_range i (manager_sessions (connection_at s k))"
  obtains s' where "on_manager k (Detach i) s = Some (Some (manager_sessions (connection_at s k) ! nat i), s')"
    and "ui_ok s'" and "differs_at k s s'"
    and "manager_sessions (connection_at s' k) = remove_at (nat i) (manager_sessions (connection_at s k))"
    and "manager_sessions (connection_at s k) ! nat i \<notin> set (all_sessions s')"
    and "manager_sessions (connection_at s k) ! nat i < w_nextSession (ui_world s')"
    and "same_processes s s'"
proof -
  obtain g where g: "cn_manager (connection_at s k) = Some g" "mgr_inv (load (ui_world s) g)"
    "manager_sessions (connection_at s k) = mg_sessions g" by (rule ui_ok_manager [OF ok k])
  let ?m = "load (ui_world s) g" and ?sid = "mg_sessions g ! nat i"
  let ?s' = "put_manager k (snd (Detach i ?m)) s"
  have ir: "in_range i (sessions ?m)" using i g(3) by simp
  have n: "nat i < length (mg_sessions g)" using ir by (auto simp: in_range_def)
  have ok': "ui_ok ?s'" by (rule put_manager_local_ok [OF ok k g(1)]) (rule Detach_local [OF g(2)])
  have ms: "manager_sessions (connection_at ?s' k) = remove_at (nat i) (mg_sessions g)"
    using k Detach_frame(2) [OF ir] by (simp add: manager_sessions_def)
  have mem: "?sid \<in> set (manager_sessions (connection_at s k))" using n g(3) by simp
  have k': "k < length (ui_connections ?s')" using k by simp
  have "distinct (mg_sessions g)" using g(2) by (simp add: mgr_inv_def placed_def)
  then have "?sid \<notin> set (remove_at (nat i) (mg_sessions g))" using n by (simp add: set_remove_at)
  moreover have "?sid \<notin> set (other_sessions k s)" using mem other_sessions_fresh(1) [OF ok k] by blast
  ultimately have gone: "?sid \<notin> set (all_sessions ?s')" by (simp add: set_all_sessions [OF k'] ms)
  have al: "?sid < w_nextSession (ui_world ?s')"
    using session_allocated [OF ok k mem] Detach_frame(3) [OF ir] by simp
  have "on_manager k (Detach i) s = Some (Some ?sid, ?s')"
    using on_manager_Some [OF g(1), of "Detach i"] Detach_frame(1) [OF ir] by simp
  then show ?thesis
    by (intro that [OF _ ok' put_manager_differs _ _ _ put_manager_processes [OF Detach_world]])
      (use ms gone al g(3) in simp_all)
qed

text \<open>All sessions of one connection go to the end of another, in order.\<close>

lemma put_manager_same:
  assumes "cn_manager (connection_at s k) = Some g"
  shows "put_manager k (load (ui_world s) g) s = s"
proof -
  have "(connection_at s k)\<lparr>cn_manager := Some g\<rparr> = connection_at s k" using assms by (cases "connection_at s k") simp
  then show ?thesis by (simp add: put_manager_def upd_connection_def connection_at_def)
qed

lemma len_manager:
  assumes "ui_ok s" and "k < length (ui_connections s)"
  shows "on_manager k (\<lambda>m. (Len m, m)) s = Some (length (manager_sessions (connection_at s k)), s)"
proof -
  obtain g where g: "cn_manager (connection_at s k) = Some g" "manager_sessions (connection_at s k) = mg_sessions g"
    by (rule ui_ok_manager [OF assms])
  then show ?thesis by (simp add: on_manager_Some Len_def put_manager_same)
qed

lemma differs_at_id: "differs_at k s s' \<Longrightarrow> i < length (ui_connections s) \<Longrightarrow> cn_id (connection_at s' i) = cn_id (connection_at s i)"
  by (cases "i = k"; cases "connection_at s k"; cases "connection_at s' k") (auto simp: differs_at_def)

lemma insert_at_end: "insert_at (length xs) x xs = xs @ [x]"
  by (simp add: insert_at_def)

lemma move_all_moves:
  assumes "ui_ok s" and "k < length (ui_connections s)" and "j < length (ui_connections s)" and "k \<noteq> j"
  shows "\<exists>s'. move_all k j s = Some s' \<and> ui_ok s' \<and> length (ui_connections s') = length (ui_connections s) \<and>
    manager_sessions (connection_at s' k) = [] \<and>
    manager_sessions (connection_at s' j) = manager_sessions (connection_at s j) @ manager_sessions (connection_at s k) \<and>
    (\<forall>i. i \<noteq> k \<longrightarrow> i \<noteq> j \<longrightarrow> connection_at s' i = connection_at s i) \<and>
    (\<forall>i < length (ui_connections s). cn_id (connection_at s' i) = cn_id (connection_at s i)) \<and>
    same_processes s s'"
  using assms
proof (induction "manager_sessions (connection_at s k)" arbitrary: s)
  case Nil
  then have "move_all k j s = Some s" by (subst move_all.simps) (simp add: len_manager)
  with Nil show ?case by simp
next
  case (Cons x xs)
  have L: "manager_sessions (connection_at s k) = x # xs" using Cons.hyps(2) by simp
  have "in_range 0 (manager_sessions (connection_at s k))" by (simp add: L in_range_def)
  from detach_run [OF Cons.prems(1,2) this] obtain s1 where d: "on_manager k (Detach 0) s = Some (Some x, s1)"
      "ui_ok s1" "differs_at k s s1" "manager_sessions (connection_at s1 k) = xs" "x \<notin> set (all_sessions s1)"
      "x < w_nextSession (ui_world s1)" "same_processes s s1"
    by (auto simp: L remove_at_def)
  have l1: "length (ui_connections s1) = length (ui_connections s)" and c1: "connection_at s1 i = connection_at s i" if "i \<noteq> k" for i
    using d(3) that by (simp_all add: differs_at_def)
  have l1: "length (ui_connections s1) = length (ui_connections s)" using d(3) by (simp add: differs_at_def)
  from adopt_run [of s1 j x "- 1"] d(2,5,6) Cons.prems(3) l1 obtain s2 where a:
      "run_manager j (Adopt (Some x) (-1)) s1 = Some s2" "ui_ok s2" "differs_at j s1 s2"
      "manager_sessions (connection_at s2 j) = insert_at (length (manager_sessions (connection_at s1 j))) x (manager_sessions (connection_at s1 j))"
      "same_processes s1 s2"
    by auto
  have l2: "length (ui_connections s2) = length (ui_connections s)" and c2: "connection_at s2 i = connection_at s1 i" if "i \<noteq> j" for i
    using a(3) l1 that by (simp_all add: differs_at_def)
  have l2: "length (ui_connections s2) = length (ui_connections s)" using a(3) l1 by (simp add: differs_at_def)
  have k2: "manager_sessions (connection_at s2 k) = xs" using c2 [OF Cons.prems(4)] d(4) by simp
  have j2: "manager_sessions (connection_at s2 j) = manager_sessions (connection_at s j) @ [x]"
    using a(4) c1 [of j] Cons.prems(4) by (simp add: insert_at_end)
  have ids: "cn_id (connection_at s2 i) = cn_id (connection_at s i)" if "i < length (ui_connections s)" for i
    using differs_at_id [OF a(3), of i] differs_at_id [OF d(3), of i] that l1 by simp
  have unfold: "move_all k j s = move_all k j s2"
    by (subst move_all.simps) (simp add: len_manager [OF Cons.prems(1,2)] L d(1) a(1))
  from Cons.hyps(1) [of s2] a(2) k2 Cons.prems(2-4) l2 obtain s' where
    "move_all k j s2 = Some s'" "ui_ok s'" "length (ui_connections s') = length (ui_connections s2)"
    "manager_sessions (connection_at s' k) = []"
    "manager_sessions (connection_at s' j) = manager_sessions (connection_at s2 j) @ manager_sessions (connection_at s2 k)"
    "\<forall>i. i \<noteq> k \<longrightarrow> i \<noteq> j \<longrightarrow> connection_at s' i = connection_at s2 i"
    "\<forall>i < length (ui_connections s2). cn_id (connection_at s' i) = cn_id (connection_at s2 i)"
    "same_processes s2 s'" by auto
  with unfold k2 j2 l2 c1 c2 ids same_processes_trans [OF d(7) a(5)] L same_processes_trans show ?case by auto
qed

end
