(* ===== verification/BackendProps.thy ===== *)
theory BackendProps
  imports BackendMoves
begin

text \<open>
  What control requests guarantee (\<open>src/pkg/ui/control.go\<close>): none of them panics, each keeps every
  session in one connection.
\<close>

declare runes_of.simps(2) [simp del]

lemma answered_if: "answered a \<Longrightarrow> answered b \<Longrightarrow> answered (if P then a else b)"
  by simp

section \<open>Removing a connection\<close>

lemma all_sessions_remove_at:
  assumes "k < length (ui_connections s)"
  shows "all_sessions (s\<lparr>ui_connections := remove_at k (ui_connections s), ui_active := a\<rparr>) = other_sessions k s"
  by (simp add: all_sessions_def other_sessions_def remove_at_def)

lemma drop_connection_ok:
  assumes ok: "ui_ok s" and k: "k < length (ui_connections s)" and a: "in_range a (remove_at k (ui_connections s))"
  shows "ui_ok (s\<lparr>ui_connections := remove_at k (ui_connections s), ui_active := a\<rparr>)"
  unfolding ui_ok_def
proof (intro conjI)
  show "distinct (all_sessions (s\<lparr>ui_connections := remove_at k (ui_connections s), ui_active := a\<rparr>))"
    using ok distinct_all_sessions [OF k] by (simp add: all_sessions_remove_at [OF k] ui_ok_iff)
  show "list_all (\<lambda>c. case cn_manager c of None \<Rightarrow> False
      | Some g \<Rightarrow> mgr_inv (load (ui_world (s\<lparr>ui_connections := remove_at k (ui_connections s), ui_active := a\<rparr>)) g))
    (ui_connections (s\<lparr>ui_connections := remove_at k (ui_connections s), ui_active := a\<rparr>))"
    using ok set_remove_at_subset [of k "ui_connections s"] by (fastforce simp: ui_ok_def list_all_iff split: option.splits)
qed (use a in simp)

lemma removeConnection_ok:
  assumes "ui_ok s"
  shows "ui_ok (removeConnection E rnd i s)"
proof (cases "length (ui_connections s) \<le> 1 \<or> \<not> in_range i (ui_connections s)")
  case False
  then have k: "nat i < length (ui_connections s)" by (auto simp: in_range_def)
  obtain g where run: "run_manager (nat i) CloseAll s = Some (put_manager (nat i) (CloseAll (load (ui_world s) g)) s)"
    and ok: "ui_ok (put_manager (nat i) (CloseAll (load (ui_world s) g)) s)"
    using close_op.run_ok [OF assms k] by blast
  define s1 where "s1 = put_manager (nat i) (CloseAll (load (ui_world s) g)) s"
  have l: "length (ui_connections s1) = length (ui_connections s)" by (simp add: s1_def)
  define cs where "cs = remove_at (nat i) (ui_connections s1)"
  have lc: "length cs = length (ui_connections s) - 1" using k l by (simp add: cs_def)
  define a where "a = (let a1 = (if int (length cs) \<le> ui_active s1 then int (length cs) - 1 else ui_active s1)
    in if a1 < 0 then 0 else a1)"
  have "in_range a cs" using False lc by (auto simp: a_def in_range_def Let_def)
  then have "ui_ok (s1\<lparr>ui_connections := cs, ui_active := a\<rparr>)"
    using ok k l by (auto simp: s1_def cs_def intro: drop_connection_ok)
  from syncActive_ok [OF this] have "ui_ok (notifyMeta E (syncActiveConnectionFields rnd (s1\<lparr>ui_connections := cs, ui_active := a\<rparr>)))"
    using notifyMeta_core same_managers_ok by blast
  moreover have "removeConnection E rnd i s = notifyMeta E (syncActiveConnectionFields rnd (s1\<lparr>ui_connections := cs, ui_active := a\<rparr>))"
    using False by (simp add: removeConnection_def Let_def run s1_def [symmetric] cs_def [symmetric] a_def)
  ultimately show ?thesis by simp
qed (use assms in \<open>simp add: removeConnection_def\<close>)

section \<open>Creating a connection\<close>

lemma fresh_manager_inv: "mgr_inv (load w (mgr_of (NewManagerWithSSH c r out ex ssh)))"
  by (simp add: mgr_inv_def placed_def focus_ok_def NewManagerWithSSH_def)

lemma add_connection_ok:
  assumes ok: "ui_ok s" and c: "cn_manager c = Some (mgr_of (NewManagerWithSSH cl r out ex ssh :: (unit, unit) sessionManager))"
  shows "ui_ok (s\<lparr>ui_connections := ui_connections s @ [c]\<rparr>)"
proof -
  have "mgr_inv (load (ui_world s) (mgr_of (NewManagerWithSSH cl r out ex ssh :: (unit, unit) sessionManager)))"
    by (simp add: mgr_inv_def placed_def focus_ok_def NewManagerWithSSH_def)
  moreover have "manager_sessions c = []" by (simp add: manager_sessions_def c NewManagerWithSSH_def)
  ultimately show ?thesis
    using ok c by (auto simp: ui_ok_def in_range_def all_sessions_def list_all_iff split: option.splits)
qed

text \<open>What a new connection is when its manager has been made and bound.\<close>

lemma set_endpoint_ok:
  assumes "ui_ok s" and "k < length (ui_connections s)"
  shows "ui_ok (set_endpoint k s)" and "differs_at k s (set_endpoint k s)"
proof -
  obtain g where "run_manager k (SetAgentStateEndpoint (ui_agentEndpoint s)) s =
      Some (put_manager k (SetAgentStateEndpoint (ui_agentEndpoint s) (load (ui_world s) g)) s)"
    "ui_ok (put_manager k (SetAgentStateEndpoint (ui_agentEndpoint s) (load (ui_world s) g)) s)"
    using endpoint_op.run_ok [OF assms] by blast
  then show "ui_ok (set_endpoint k s)" and "differs_at k s (set_endpoint k s)"
    by (simp_all add: set_endpoint_def put_manager_differs)
qed

lemma bind_ok:
  assumes "ui_ok s" and "k < length (ui_connections s)"
  shows "ui_ok (bindConnectionCallbacks k s)"
proof -
  let ?s = "upd_connection k (\<lambda>c. c\<lparr>cn_callbacksBound := True\<rparr>) s"
  have "ui_ok ?s" by (rule same_managers_ok [OF assms(1)]) (rule upd_connection_core, simp)
  moreover have "k < length (ui_connections ?s)" using assms(2) by (simp add: upd_connection_def)
  ultimately show ?thesis
    using assms(1) callbacks_op.run_good [of ?s k True] by (auto simp: bindConnectionCallbacks_def good_def split: option.split)
qed

lemma addConnection_append:
  assumes "ui_ok s"
  shows "addConnection rnd name s = s\<lparr>ui_connections := ui_connections s @ [new_connection rnd (default_name name s)]\<rparr>"
  using assms by (auto simp: addConnection_def Let_def ui_ok_iff in_range_def)

lemma createConnection_answered:
  assumes ok: "ui_ok s"
  shows "answered (controlCreateConnection E U raw ctl s)"
proof -
  have made: "ui_ok (bindConnectionCallbacks (length (ui_connections s)) (set_endpoint (length (ui_connections s))
      (set_manager (length (ui_connections s)) sz ssh (upd_connection (length (ui_connections s))
        (\<lambda>c. c\<lparr>cn_labels := l, cn_createdBy := ctl\<rparr>) (addConnection rnd name s)))))" (is "ui_ok (bindConnectionCallbacks ?k (set_endpoint ?k ?s))")
    for sz ssh l rnd name
  proof -
    have "?s = s\<lparr>ui_connections := ui_connections s @ [(new_connection rnd (default_name name s))\<lparr>cn_labels := l,
        cn_createdBy := ctl, cn_manager := Some (mgr_of (NewManagerWithSSH (fst sz) (snd sz) False False ssh :: (unit, unit) sessionManager))\<rparr>]\<rparr>"
      by (simp add: set_manager_def upd_connection_def addConnection_append [OF ok] nth_append)
    then have "ui_ok ?s" and l: "?k < length (ui_connections ?s)" using ok by (auto intro!: add_connection_ok)
    from set_endpoint_ok [OF this] l show ?thesis by (intro bind_ok) (auto simp: differs_at_def)
  qed
  show ?thesis
    unfolding controlCreateConnection_def Let_def
    by (auto split: sum.split prod.split intro!: answers same_managers_ok [OF _ publish_core] same_managers_ok [OF _ notifyMeta_core] made ok)
qed

section \<open>The other requests\<close>

lemma renameConnection_answered: "ui_ok s \<Longrightarrow> answered (controlRenameConnection E raw s)"
  unfolding controlRenameConnection_def Let_def
  by (auto split: sum.split prod.split option.split
      intro!: answers same_managers_ok [OF _ publish_core] same_managers_ok [OF _ notifyMeta_core] same_managers_ok [OF _ upd_connection_core])

lemma foldl_ok: "ui_ok s \<Longrightarrow> (\<And>s x. ui_ok s \<Longrightarrow> ui_ok (f s x)) \<Longrightarrow> ui_ok (foldl f s xs)"
  by (induction xs arbitrary: s) auto

lemma forget_core: "same_managers s (forget_sessions sids s)"
proof (induction sids arbitrary: s)
  case Nil
  show ?case by (simp add: forget_sessions_def core)
next
  case (Cons sid sids)
  obtain i g x y where r: "RuntimeSnapshot (session_at s sid) = (i, g, x, y)" by (cases "RuntimeSnapshot (session_at s sid)")
  let ?s = "(suppressExit i g s)\<lparr>ui_controlSessions := (ui_controlSessions (suppressExit i g s))(i := None)\<rparr>"
  have "same_managers s ?s" using suppress_core meta_core by (rule same_managers_trans)
  moreover have "forget_sessions (sid # sids) s = forget_sessions sids ?s" by (simp add: forget_sessions_def r Let_def)
  ultimately show ?case using Cons.IH [of ?s] same_managers_trans by simp blast
qed

lemma finish_removal_answered: "ui_ok s \<Longrightarrow> answered (finish_removal E U k s)"
  unfolding finish_removal_def Let_def
  by (intro answers same_managers_ok [OF _ publish_core] removeConnection_ok)

lemma move_all_good:
  assumes "ui_ok s" and "k < length (ui_connections s)" and "j < length (ui_connections s)" and "j \<noteq> k"
  shows "good (move_all k j s)"
  using move_all_moves [OF assms(1-3)] assms(4) by (auto simp: good_def)

lemma removeConnection_answered:
  assumes ok: "ui_ok s"
  shows "answered (controlRemoveConnection E U raw s)"
proof -
  have mgr: "cn_manager (connection_at s k) \<noteq> None" if "k < length (ui_connections s)" for k
    using ok that by (auto simp: ui_ok_iff)
  show ?thesis
    unfolding controlRemoveConnection_def
    by (auto split: sum.split option.split dest!: connectionByID_Some dest: mgr
        intro!: answers ok finish_removal_answered same_managers_ok [OF ok forget_core] answered_bind move_all_good)
qed

lemma session_answers:
  assumes ok: "ui_ok s"
  shows "answered (controlRenameSession E raw s)" "answered (controlSendText U raw s)" "answered (controlPaste U raw s)"
    "answered (controlSendBytes U raw s)" "answered (controlSnapshot E raw s)" "answered (controlAwaitCheck E raw s)"
proof -
  show "answered (controlRenameSession E raw s)"
    unfolding controlRenameSession_def Let_def
    by (auto intro!: answered_with_session [OF ok] answers same_managers_ok [OF _ publishSession_core]
        same_managers_ok [OF _ notifyMeta_core] same_managers_ok [OF ok upd_ui_session_core] simp: SetTitle_def)
  have send: "answered (send_answer U sid d s)" for sid d
    using same_managers_ok [OF ok write_core, of U sid d]
    by (auto simp: send_answer_def split: prod.split option.split intro!: answers)
  show "answered (controlSendText U raw s)" "answered (controlPaste U raw s)" "answered (controlSendBytes U raw s)"
    unfolding controlSendText_def controlPaste_def controlSendBytes_def Let_def
    by (auto intro!: answered_with_session [OF ok] send)
  show "answered (controlAwaitCheck E raw s)"
    unfolding controlAwaitCheck_def Let_def
    by (auto intro!: answered_with_session [OF ok] answers ok split: prod.split)
  show "answered (controlSnapshot E raw s)"
    unfolding controlSnapshot_def Let_def
    by (auto intro!: answered_with_session [OF ok] answers ok same_managers_ok [OF ok screen_core] split: prod.split)
qed

lemma resize_answered:
  assumes ok: "ui_ok s"
  shows "answered (controlResizeSession E raw s)"
  unfolding controlResizeSession_def Let_def
  by (auto intro!: answered_with_session [OF ok] answers ok answered_bind resize_op.run_good
      same_managers_ok [OF _ publishSession_core])

lemma respawn_at_ok:
  assumes ok: "ui_ok s" and k: "k < length (ui_connections s)"
  shows "case respawn_at E U k sid s of None \<Rightarrow> False | Some (b, s') \<Rightarrow> ui_ok s'"
proof -
  obtain g where g: "cn_manager (connection_at s k) = Some g" "mgr_inv (load (ui_world s) g)"
    by (rule ui_ok_manager [OF ok k])
  let ?r = "Respawn (ue_emulator E) (index (session_at s sid)) (os_opened U) (load (ui_world s) g)"
  have ok1: "ui_ok (put_manager k (snd ?r) s)"
    by (rule put_manager_local_ok [OF ok k g(1)]) (rule Respawn_local [OF g(2)])
  obtain c r where d: "Dimensions (screen_of s sid) = (c, r)" by (cases "Dimensions (screen_of s sid)")
  have "good (run_manager k (ResizeOne (ue_emulator E) (index (session_at (put_manager k (snd ?r) s) sid)) c r) (put_manager k (snd ?r) s))"
    by (rule resize_op.run_good [OF ok1]) (use k in simp)
  then obtain s2 where "run_manager k (ResizeOne (ue_emulator E) (index (session_at (put_manager k (snd ?r) s) sid)) c r)
      (put_manager k (snd ?r) s) = Some s2" "ui_ok s2" by (auto simp: good_def split: option.splits)
  with ok1 show ?thesis by (simp add: respawn_at_def d on_manager_Some [OF g(1)])
qed

lemma respawn_answered:
  assumes ok: "ui_ok s"
  shows "answered (controlRespawnSession E U raw s)" "answered (controlInject E U raw s)"
proof -
  have bind: "answered (Option.bind (respawn_at E U k sid s1) (\<lambda>(b, s2). if \<not> b then fail x y s2
      else reply (v s2) (publishSessionEvent st ev sid d (notifyMeta E s2))))"
    if "ui_ok s1" "k < length (ui_connections s1)" for k sid x y v st ev d and s1 :: "('a, 'b) ui"
    using respawn_at_ok [OF that, of E U sid]
    by (auto split: option.splits prod.splits intro!: answers same_managers_ok [OF _ publishSession_core] same_managers_ok [OF _ notifyMeta_core])
  show "answered (controlRespawnSession E U raw s)"
    unfolding controlRespawnSession_def Let_def
    by (rule answered_with_session [OF ok]) (rule bind [OF ok])
  show "answered (controlInject E U raw s)"
    unfolding controlInject_def Let_def
    by (rule answered_with_session [OF ok], rule bind)
      (auto simp: SetEnvironment_def upd_ui_session_def intro: same_managers_ok [OF ok upd_ui_session_core, unfolded upd_ui_session_def])
qed

lemma focus_answered:
  assumes ok: "ui_ok s"
  shows "answered (controlFocusSession E U raw s)"
  unfolding controlFocusSession_def
  by (auto intro!: answered_with_session [OF ok] answered_bind focus_op.run_good ok focusConnection_good answers)

section \<open>Sessions that come, move and go\<close>

lemma created_answered:
  assumes ok: "ui_ok s" and k: "k < length (ui_connections s)"
  shows "answered (created_session E U p ctl k sid s)"
proof -
  define s1 where "s1 = (if cp_Title p \<noteq> [] then upd_ui_session sid (\<lambda>x. SetTitle x (trim_space (cp_Title p))) s else s)"
  define f where "f = (if 0 < cp_Cols p \<and> 0 < cp_Rows p
    then (\<lambda>m. ResizeOne (ue_emulator E) (index (session_at s1 sid)) (cp_Cols p) (cp_Rows p) m) else id)"
  have ok1: "ui_ok s1" using ok same_managers_ok [OF ok upd_ui_session_core] by (simp add: s1_def SetTitle_def)
  have k1: "k < length (ui_connections s1)" using k by (simp add: s1_def upd_ui_session_def)
  have "local_operation (f :: ('a, 'b) sessionManager \<Rightarrow> _)"
    by unfold_locales (simp add: f_def ResizeOne_local local_step_refl)
  from local_operation.run_good [OF this ok1 k1] obtain s2 where r: "run_manager k f s1 = Some s2" and ok2: "ui_ok s2"
    by (auto simp: good_def split: option.splits)
  have k2: "k < length (ui_connections s2)" using length_run_manager [OF r] k1 by simp
  have fin: "answered (reply v (publishSessionEvent a b c d (publishSessionEvent e g h i (notifyMeta E s4))))"
    if "ui_ok s4" for v a b c d e g h i and s4 :: "('a, 'b) ui"
    using that by (intro answers same_managers_ok [OF _ publishSession_core] same_managers_ok [OF _ notifyMeta_core])
  have foc: "good (Option.bind (run_manager k (Focus i) (syncActiveConnectionFields rnd (s3\<lparr>ui_active := int k\<rparr>))) (refreshFocused E))"
    if s3: "ui_ok s3" "k < length (ui_connections s3)" for i rnd and s3 :: "('a, 'b) ui"
  proof (intro good_bind focus_op.run_good refresh_good syncActive_ok set_active_ok)
    have a: "ui_ok (s3\<lparr>ui_active := int k\<rparr>)" using s3 by (intro set_active_ok) (auto simp: in_range_def)
    show "k < length (ui_connections (syncActiveConnectionFields rnd (s3\<lparr>ui_active := int k\<rparr>)))"
      using s3(2) by (simp add: syncActiveConnectionFields_def ok_active [OF a] sync_active_def Let_def)
  qed (use s3 in \<open>auto simp: in_range_def\<close>)
  have ok3: "ui_ok (s2\<lparr>ui_controlSessions := m\<rparr>)" for m by (rule same_managers_ok [OF ok2 meta_core])
  show ?thesis
    unfolding created_session_def Let_def s1_def [symmetric] f_def [symmetric] r Option.bind.simps
    by (rule answered_bind) (use ok3 foc k2 fin in \<open>simp_all split: if_split\<close>)
qed

lemma createSession_answered:
  assumes ok: "ui_ok s"
  shows "answered (controlCreateSession E U raw ctl s)"
proof -
  have make: "answered (Option.bind (on_manager k (NewConfigured (ue_emulator E) rnd c cl d env opened) s)
      (\<lambda>(made, s1). case made of None \<Rightarrow> fail x y s1 | Some sid \<Rightarrow> created_session E U p ctl k sid s1))"
    if k: "k < length (ui_connections s)" for k rnd c cl d env opened x y p
  proof -
    obtain g where "cn_manager (connection_at s k) = Some g" by (rule ui_ok_manager [OF ok k])
    then obtain a s1 where on: "on_manager k (NewConfigured (ue_emulator E) rnd c cl d env opened) s = Some (a, s1)"
      by (simp add: on_manager_Some)
    have "good (run_manager k (\<lambda>m. snd (NewConfigured (ue_emulator E) rnd c cl d env opened m)) s)"
      by (rule configured_op.run_good [OF ok k])
    then have "ui_ok s1" by (simp add: on_manager_run [symmetric] on)
    moreover have "k < length (ui_connections s1)" using length_on_manager [OF on] k by simp
    ultimately show ?thesis by (auto simp: on intro!: answers created_answered split: option.split)
  qed
  show ?thesis
    unfolding controlCreateSession_def
    by (auto split: sum.split option.split list.split dest!: connectionByID_Some intro!: answers ok make)
qed

text \<open>What a transfer does to the two connections.\<close>

lemma transfer_within:
  assumes ok: "ui_ok s" and k: "k < length (ui_connections s)"
  shows "\<exists>s'. transfer_session k k sid pos s = Some s' \<and> ui_ok s' \<and> differs_at k s s' \<and>
    mset (manager_sessions (connection_at s' k)) = mset (manager_sessions (connection_at s k)) \<and>
    same_processes s s'"
proof -
  obtain g where g: "cn_manager (connection_at s k) = Some g" "mgr_inv (load (ui_world s) g)"
    "manager_sessions (connection_at s k) = mg_sessions g" by (rule ui_ok_manager [OF ok k])
  obtain m where m: "Move (index (session_at s sid)) pos (load (ui_world s) g) = Some m"
    "local_step (load (ui_world s) g) m" "mset (sessions m) = mset (sessions (load (ui_world s) g))"
    using Move_local [OF g(2)] by blast
  have t: "transfer_session k k sid pos s = Some (put_manager k m s)"
    by (simp add: transfer_session_def g(1) m(1) run_manager_Some)
  have "mset (manager_sessions (connection_at (put_manager k m s) k)) = mset (mg_sessions g)"
    using m(3) k by (simp add: manager_sessions_def)
  moreover have "same_processes s (put_manager k m s)" using Move_world [OF m(1)] by (rule put_manager_processes)
  ultimately show ?thesis
    using t put_manager_local_ok [OF ok k g(1) m(2)] put_manager_differs g(3) by metis
qed

lemma transfer_across:
  assumes ok: "ui_ok s" and k: "k < length (ui_connections s)" and sid: "sid \<in> set (manager_sessions (connection_at s k))"
    and j: "j < length (ui_connections s)" and "j \<noteq> k"
  shows "\<exists>s'. transfer_session k j sid pos s = Some s' \<and> ui_ok s' \<and>
    length (ui_connections s') = length (ui_connections s) \<and>
    manager_sessions (connection_at s' k) = remove1 sid (manager_sessions (connection_at s k)) \<and>
    manager_sessions (connection_at s' j) =
      (let xs = manager_sessions (connection_at s j); n = int (length xs)
       in insert_at (nat (if pos < 0 \<or> n < pos then n else pos)) sid xs) \<and>
    (\<forall>i. i \<noteq> k \<longrightarrow> i \<noteq> j \<longrightarrow> connection_at s' i = connection_at s i) \<and>
    same_processes s s'"
proof -
  note idx = session_index [OF ok k sid]
  have "distinct (manager_sessions (connection_at s k))" using ok distinct_all_sessions [OF k] by (simp add: ui_ok_iff)
  then have rm: "remove_at (nat (index (session_at s sid))) (manager_sessions (connection_at s k)) =
      remove1 sid (manager_sessions (connection_at s k))"
    using idx remove1_nth [of "manager_sessions (connection_at s k)" "nat (index (session_at s sid))"]
    by (auto simp: in_range_def)
  from detach_run [OF ok k idx [THEN conjunct1]] obtain s1 where d:
    "on_manager k (Detach (index (session_at s sid))) s = Some (Some sid, s1)" "ui_ok s1" "differs_at k s s1"
    "manager_sessions (connection_at s1 k) = remove1 sid (manager_sessions (connection_at s k))"
    "sid \<notin> set (all_sessions s1)" "sid < w_nextSession (ui_world s1)"
    "same_processes s s1"
    using idx by (metis rm)
  have j1: "j < length (ui_connections s1)" and c1: "\<And>i. i \<noteq> k \<Longrightarrow> connection_at s1 i = connection_at s i"
    and l1: "length (ui_connections s1) = length (ui_connections s)"
    using d(3) j by (simp_all add: differs_at_def)
  from adopt_run [OF d(2) j1 d(5,6), of pos] obtain s2 where a: "run_manager j (Adopt (Some sid) pos) s1 = Some s2"
    "ui_ok s2" "differs_at j s1 s2" "manager_sessions (connection_at s2 j) =
      insert_at (nat (if pos < 0 \<or> int (length (manager_sessions (connection_at s1 j))) < pos
        then int (length (manager_sessions (connection_at s1 j))) else pos)) sid (manager_sessions (connection_at s1 j))"
    "same_processes s1 s2" by blast
  have t: "transfer_session k j sid pos s = Some s2" using assms(5) by (simp add: transfer_session_def d(1) a(1))
  have c2: "\<And>i. i \<noteq> j \<Longrightarrow> connection_at s2 i = connection_at s1 i" and l2: "length (ui_connections s2) = length (ui_connections s1)"
    using a(3) by (simp_all add: differs_at_def)
  show ?thesis
    by (intro exI [of _ s2] conjI) (use t a(2,4) same_processes_trans [OF d(7) a(5)] d(4) c1 c2 l1 l2 assms(5) in \<open>simp_all add: Let_def\<close>)
qed

lemma moveSession_answered:
  assumes ok: "ui_ok s"
  shows "answered (controlMoveSession E U raw s)"
proof -
  have fin: "answered (moved_session E U k j sid s2)" if "ui_ok s2" for j k sid and s2 :: "('a, 'b) ui"
    unfolding moved_session_def Let_def
    by (intro answers same_managers_ok [OF _ publishSession_core] same_managers_ok [OF _ notifyMeta_core] clear_ok that)
  have go: "good (transfer_session k j sid pos s)"
    if "k < length (ui_connections s)" "sid \<in> set (manager_sessions (connection_at s k))" "j < length (ui_connections s)"
    for k j sid pos
    using transfer_within [OF ok that(1), of sid pos] transfer_across [OF ok that, of pos]
    by (cases "j = k") (auto simp: good_def)
  show ?thesis
    unfolding controlMoveSession_def
    by (auto intro!: answered_with_session [OF ok] answers ok answered_bind go fin split: option.split dest: connectionByID_Some)
qed

lemma closeSession_answered:
  assumes ok: "ui_ok s"
  shows "answered (controlCloseSession E U raw s)"
proof -
  have fin: "answered (reply v (publishControlEvent a b c d e (notifyMeta E s1)))"
    if "ui_ok s1" for v a b c d e and s1 :: "('a, 'b) ui"
    using that by (intro answers same_managers_ok [OF _ publish_core] same_managers_ok [OF _ notifyMeta_core])
  have rest: "answered (if \<not> removed then fail x y s2
      else case activeConnection rnd (clearConnectionViewports U k (s2\<lparr>ui_controlSessions := m\<rparr>)) of
        (a, s3) \<Rightarrow> Option.bind (if a = k \<and> manager_sessions (connection_at s3 k) \<noteq> [] then refreshFocused E s3 else Some s3)
          (\<lambda>s4. reply v (publishControlEvent b c d e f (notifyMeta E s4))))"
    if "ui_ok s2" for removed x y m k rnd v b c d e f and s2 :: "('a, 'b) ui"
  proof -
    have "ui_ok (clearConnectionViewports U k (s2\<lparr>ui_controlSessions := m\<rparr>))"
      by (rule clear_ok) (rule same_managers_ok [OF that meta_core])
    then show ?thesis
      by (auto simp: ok_active intro!: answers that answered_bind refresh_good fin)
  qed
  show ?thesis
    unfolding controlCloseSession_def
  proof (rule answered_with_session [OF ok], goal_cases)
    case (1 sid k gen)
    obtain i g x y where r: "RuntimeSnapshot (session_at s sid) = (i, g, x, y)" by (cases "RuntimeSnapshot (session_at s sid)")
    define s1 where "s1 = suppressExit i g s"
    have ok1: "ui_ok s1" unfolding s1_def by (rule same_managers_ok [OF ok suppress_core])
    have k1: "k < length (ui_connections s1)" using 1(1) by (simp add: s1_def suppressExit_def)
    have w: "ui_ok (snd (write_session U sid d s))" for d by (rule same_managers_ok [OF ok write_core])
    have c: "ui_ok (s1\<lparr>ui_world := SessionClose sid (ui_world s1)\<rparr>)" by (rule same_managers_ok [OF ok1 close_core])
    have rm: "good (run_manager k (\<lambda>m. snd (Remove j m)) s1)" for j by (rule remove_op.run_good [OF ok1 k1])
    show ?case
      unfolding r Let_def prod.case s1_def [symmetric]
      using w [of "[3]"]
      by (auto split: prod.split option.split intro!: answers ok fin c bind_on_manager rm rest)
  qed
qed

lemma replay_offset:
  fixes n q a :: "64 word"
  assumes "a \<le> q" and "q \<le> n" and a: "a = n - of_nat len"
  shows "unat (q - a) \<le> len"
proof -
  have "unat (q - a) = unat q - unat a" "unat (n - a) = unat n - unat a"
    using assms(1,2) by (simp_all add: unat_sub order_trans [OF assms(1,2)])
  then have "unat (q - a) \<le> unat (n - a)"
    using assms(2) by (simp add: word_le_nat_alt)
  also have "n - a = of_nat len" by (simp add: a)
  also have "unat (of_nat len :: 64 word) \<le> len" by (simp add: unat_of_nat)
  finally show ?thesis .
qed

lemma replay_no_panic:
  fixes n q :: "64 word"
  shows "n - of_nat len \<le> q \<Longrightarrow> q \<le> n \<Longrightarrow> len < unat (q - (n - of_nat len)) \<Longrightarrow> False"
  using replay_offset [OF _ _ refl, of n len q] by simp

lemma replay_answered:
  assumes ok: "ui_ok s"
  shows "answered (controlReplay raw s)"
  unfolding controlReplay_def Let_def
  by (auto intro!: answered_with_session [OF ok] answers ok simp: not_less dest: replay_no_panic)

lemma request_answered:
  assumes "ui_ok s"
  shows "answered (handleControlRequest E U meth raw ctl s)"
proof -
  note reqs = createConnection_answered [OF assms] renameConnection_answered [OF assms] removeConnection_answered [OF assms]
    createSession_answered [OF assms] focus_answered [OF assms] session_answers [OF assms] moveSession_answered [OF assms]
    resize_answered [OF assms] respawn_answered [OF assms] closeSession_answered [OF assms] replay_answered [OF assms]
  have get: "answered (with_session raw b s (\<lambda>sid k gen. reply (v sid k gen) s))" for b v
    by (intro answered_with_session answers assms)
  show ?thesis
    unfolding handleControlRequest_def
    by (intro answered_if reqs get answered_reply answered_fail assms)
qed

end
