(* ===== verification/BackendRuns.thy ===== *)
theory BackendRuns
  imports BackendProps
begin

text \<open>
  The life of the interface's state: control requests, what the user does to the connections, the
  read loops and the updates of agents, in any order. The properties of the requests
  (\<open>src/pkg/ui/control.go\<close>, \<open>connections.go\<close>) over all states so reached.
\<close>

declare runes_of.simps(2) [simp del]

section \<open>The user's operations\<close>

text \<open>The part of \<open>applyGeometry\<close> that is not on display: every manager takes the size of the pane.\<close>

definition resize_all :: "('e, 'cs) ui_env \<Rightarrow> ('e, 'cs) ui \<Rightarrow> ('e, 'cs) ui" where
  "resize_all E s =
     foldl (\<lambda>s k. case run_manager k (ResizeAll (ue_emulator E) (fst (pane_size s)) (snd (pane_size s))) s of
                    None \<Rightarrow> s | Some s1 \<Rightarrow> s1) s [0..<length (ui_connections s)]"

lemma ResizeAll_local:
  assumes "mgr_inv m"
  shows "local_step m (ResizeAll E c r m)"
proof -
  have k: "sessions (foldl (\<lambda>m sid. snd (SessionResize E sid c r m)) m1 xs) = sessions m1"
    "w_nextSession (foldl (\<lambda>m sid. snd (SessionResize E sid c r m)) m1 xs) = w_nextSession m1"
    "w_sessions (foldl (\<lambda>m sid. snd (SessionResize E sid c r m)) m1 xs) = w_sessions m1"
    for xs and m1 :: "('a, 'b) sessionManager"
    by (induction xs arbitrary: m1) (auto simp: mgr_frame)
  show ?thesis
    by (rule local_stepI [OF ResizeAll_inv [OF assms]]) (simp_all add: ResizeAll_def k)
qed

interpretation resize_all_op: local_operation "ResizeAll E c r" for E c r
  by unfold_locales (rule ResizeAll_local)

lemma resize_all_ok: "ui_ok s \<Longrightarrow> ui_ok (resize_all E s)"
proof -
  have "ui_ok (foldl (\<lambda>s k. case run_manager k (ResizeAll (ue_emulator E) (fst (pane_size s)) (snd (pane_size s))) s of
      None \<Rightarrow> s | Some s1 \<Rightarrow> s1) s xs)" if "ui_ok s" "list_all (\<lambda>k. k < length (ui_connections s)) xs" for s xs
    using that
  proof (induction xs arbitrary: s)
    case (Cons k xs)
    from Cons.prems obtain s1 where "run_manager k (ResizeAll (ue_emulator E) (fst (pane_size s)) (snd (pane_size s))) s = Some s1"
      "ui_ok s1" using resize_all_op.run_good [of s k "ue_emulator E" "fst (pane_size s)" "snd (pane_size s)"]
      by (auto simp: good_def split: option.splits)
    with Cons show ?case using length_run_manager [of k _ s s1] by simp
  qed simp
  then show "ui_ok s \<Longrightarrow> ui_ok (resize_all E s)" by (simp add: resize_all_def list_all_iff)
qed

lemma moveConnection_ok:
  assumes ok: "ui_ok s"
  shows "ui_ok (moveConnection E rnd src dst s)"
proof (cases "\<not> in_range src (ui_connections s) \<or> \<not> in_range dst (ui_connections s) \<or> src = dst")
  case False
  then have r: "nat src < length (ui_connections s)" "nat dst < length (ui_connections s)"
    by (auto simp: in_range_def)
  define cs where "cs = insert_at (nat dst) (ui_connections s ! nat src) (remove_at (nat src) (ui_connections s))"
  define act where "act = (if ui_active s = src then dst
      else if src < ui_active s \<and> ui_active s \<le> dst then ui_active s - 1
      else if ui_active s < src \<and> dst \<le> ui_active s then ui_active s + 1 else ui_active s)"
  have ms: "mset cs = mset (ui_connections s)" and len: "length cs = length (ui_connections s)"
    using move_list_facts(1,2) [OF r] by (simp_all add: cs_def move_list_def)
  have act: "in_range act cs" using ok False len by (auto simp: act_def ui_ok_iff in_range_def)
  have "mset (concat (map manager_sessions xs)) = sum_mset (image_mset (mset \<circ> manager_sessions) (mset xs))" for xs
    by (induction xs) simp_all
  then have "mset (all_sessions (s\<lparr>ui_connections := cs, ui_active := act\<rparr>)) = mset (all_sessions s)"
    using ms by (simp add: all_sessions_def)
  then have "distinct (all_sessions (s\<lparr>ui_connections := cs, ui_active := act\<rparr>))"
    using ok distinct_mset_eq by (auto simp: ui_ok_def)
  moreover have "set cs = set (ui_connections s)" using ms by (rule mset_eq_setD)
  ultimately have "ui_ok (s\<lparr>ui_connections := cs, ui_active := act\<rparr>)"
    using ok act by (auto simp: ui_ok_def list_all_iff split: option.splits)
  from syncActive_ok [OF this] show ?thesis
    using False same_managers_ok [OF _ notifyMeta_core]
    by (auto simp: moveConnection_def Let_def cs_def [symmetric] act_def [symmetric])
qed (use ok in \<open>auto simp: moveConnection_def\<close>)

lemma renameConnection_ok:
  assumes "ui_ok s"
  shows "ui_ok (renameConnection E i name s)"
proof -
  have "ui_ok (upd_connection (nat i) (\<lambda>c. c\<lparr>cn_name := name\<rparr>) s)"
    by (rule same_managers_ok [OF assms upd_connection_core]) simp
  from same_managers_ok [OF this notifyMeta_core] assms show ?thesis by (simp add: renameConnection_def)
qed

section \<open>The start\<close>

text \<open>Managers that have no sessions yet.\<close>

definition blank :: "connection \<Rightarrow> bool" where
  "blank c \<longleftrightarrow> (case cn_manager c of None \<Rightarrow> False | Some g \<Rightarrow> mg_sessions g = [] \<and> mg_focused g = 0)"

lemma blank_ok:
  assumes "list_all blank (ui_connections s)" and "in_range (ui_active s) (ui_connections s)"
  shows "ui_ok s"
proof -
  have "mgr_inv (load w g)" if "mg_sessions g = []" "mg_focused g = 0" for w :: "('a, 'b) world" and g
    using that by (simp add: mgr_inv_def placed_def focus_ok_def)
  moreover have "manager_sessions c = []" if "blank c" for c
    using that by (simp add: blank_def manager_sessions_def split: option.splits)
  then have "all_sessions s = []"
    using assms(1) by (auto simp: all_sessions_def list_all_iff)
  ultimately show ?thesis
    using assms by (auto simp: ui_ok_def list_all_iff blank_def split: option.splits)
qed

lemma blank_set_endpoint:
  assumes "blank (connection_at s k)"
  shows "blank (connection_at (set_endpoint k s) k) \<or> length (ui_connections s) \<le> k"
    "ui_connections (set_endpoint k s) = (ui_connections s)[k := connection_at (set_endpoint k s) k] \<or> length (ui_connections s) \<le> k"
    "ui_active (set_endpoint k s) = ui_active s"
proof -
  obtain g where g: "cn_manager (connection_at s k) = Some g" "mg_sessions g = []" "mg_focused g = 0"
    using assms by (auto simp: blank_def split: option.splits)
  have e: "set_endpoint k s = put_manager k (SetAgentStateEndpoint (ui_agentEndpoint s) (load (ui_world s) g)) s"
    by (simp add: set_endpoint_def run_manager_Some [OF g(1)])
  show "ui_active (set_endpoint k s) = ui_active s" by (simp add: e)
  show "blank (connection_at (set_endpoint k s) k) \<or> length (ui_connections s) \<le> k"
    by (cases "k < length (ui_connections s)")
      (simp_all add: e blank_def SetAgentStateEndpoint_def g not_less)
  show "ui_connections (set_endpoint k s) = (ui_connections s)[k := connection_at (set_endpoint k s) k] \<or> length (ui_connections s) \<le> k"
    by (cases "k < length (ui_connections s)")
      (simp_all add: e put_manager_def upd_connection_def connection_at_def not_less)
qed

lemma bind_blank:
  assumes "list_all blank (ui_connections s)" and "k < length (ui_connections s)"
  shows "list_all blank (ui_connections (bindConnectionCallbacks k s))"
    "ui_active (bindConnectionCallbacks k s) = ui_active s"
    "length (ui_connections (bindConnectionCallbacks k s)) = length (ui_connections s)"
proof -
  let ?s = "upd_connection k (\<lambda>c. c\<lparr>cn_callbacksBound := True\<rparr>) s"
  obtain g where g: "cn_manager (connection_at s k) = Some g" "mg_sessions g = []" "mg_focused g = 0"
    using assms by (auto simp: blank_def list_all_length connection_at_def split: option.splits)
  have g': "cn_manager (connection_at ?s k) = Some g"
    using g(1) assms(2) by (simp add: upd_connection_def connection_at_def)
  have b: "bindConnectionCallbacks k s = (if cn_callbacksBound (connection_at s k) then s
      else put_manager k (SetSendExit True (SetSendOutput True (load (ui_world s) g))) ?s)"
    using g(1) run_manager_Some [OF g'] by (simp add: bindConnectionCallbacks_def upd_connection_def)
  show "ui_active (bindConnectionCallbacks k s) = ui_active s"
    "length (ui_connections (bindConnectionCallbacks k s)) = length (ui_connections s)"
    by (simp_all add: b upd_connection_def)
  have "list_all blank ((ui_connections s)[k := c])" if "blank c" for c
    using assms(1) that by (auto simp: list_all_iff dest!: set_update_subset_insert [THEN subsetD])
  then show "list_all blank (ui_connections (bindConnectionCallbacks k s))"
    using assms(1) g(2,3)
    by (simp add: b put_manager_def upd_connection_def blank_def SetSendExit_def SetSendOutput_def mgr_frame)
qed

text \<open>\<open>initManagers\<close> gives every connection a manager.\<close>

lemma init_step:
  assumes new: "list_all (\<lambda>c. cn_manager c = None) (ui_connections s)" and n: "n \<le> length (ui_connections s)"
  shows "let t = foldl (\<lambda>s k. set_endpoint k (if cn_manager (connection_at s k) = None then set_manager k sz (ui_sshClient s) s else s))
                  s [0..<n]
    in length (ui_connections t) = length (ui_connections s) \<and> ui_active t = ui_active s \<and>
       (\<forall>k < length (ui_connections s). if k < n then blank (connection_at t k) else connection_at t k = connection_at s k)"
  using n
proof (induction n)
  case (Suc n)
  define t where "t = foldl (\<lambda>s k. set_endpoint k (if cn_manager (connection_at s k) = None then set_manager k sz (ui_sshClient s) s else s))
                  s [0..<n]"
  have t: "length (ui_connections t) = length (ui_connections s)" "ui_active t = ui_active s"
    "\<And>k. k < length (ui_connections s) \<Longrightarrow> if k < n then blank (connection_at t k) else connection_at t k = connection_at s k"
    using Suc by (auto simp: Let_def t_def)
  have nn: "n < length (ui_connections s)" using Suc.prems by simp
  then have none: "cn_manager (connection_at t n) = None"
    using t(3) [OF nn] new by (simp add: list_all_length connection_at_def)
  define u where "u = set_manager n sz (ui_sshClient t) t"
  have u: "length (ui_connections u) = length (ui_connections s)" "ui_active u = ui_active s"
    "\<And>k. k \<noteq> n \<Longrightarrow> connection_at u k = connection_at t k" "blank (connection_at u n)"
    using nn t(1,2) by (simp_all add: u_def set_manager_def upd_connection_def connection_at_def blank_def
        NewManagerWithSSH_def mgr_of_def)
  note e = blank_set_endpoint [OF u(4)]
  have step: "foldl (\<lambda>s k. set_endpoint k (if cn_manager (connection_at s k) = None then set_manager k sz (ui_sshClient s) s else s))
      s [0..<Suc n] = set_endpoint n u"
    by (simp add: t_def [symmetric] none u_def)
  have conns: "ui_connections (set_endpoint n u) = (ui_connections u)[n := connection_at (set_endpoint n u) n]"
    and bl: "blank (connection_at (set_endpoint n u) n)"
    using e(1,2) nn u(1) by auto
  have other: "connection_at (set_endpoint n u) k = connection_at u k" if "k \<noteq> n" for k
    using arg_cong [OF conns, of "\<lambda>cs. cs ! k"] that by (simp add: connection_at_def)
  have "if k < Suc n then blank (connection_at (set_endpoint n u) k) else connection_at (set_endpoint n u) k = connection_at s k"
    if "k < length (ui_connections s)" for k
    using t(3) [OF that] other [of k] u(3) [of k] bl by (cases "k = n") (auto simp: less_Suc_eq)
  moreover have "length (ui_connections (set_endpoint n u)) = length (ui_connections s)"
    using arg_cong [OF conns, of length] u(1) by simp
  ultimately show ?case
    unfolding step Let_def using e(3) u(2) by auto
qed simp

lemma initManagers_ok:
  assumes new: "list_all (\<lambda>c. cn_manager c = None) (ui_connections s)"
    and act: "ui_connections s = [] \<or> in_range (ui_active s) (ui_connections s)"
  shows "ui_ok (initManagers rnd c r s)"
proof -
  define s1 where "s1 = (if ui_connections s = [] then addConnection rnd (ascii ''default'') s else s)"
  have s1: "list_all (\<lambda>c. cn_manager c = None) (ui_connections s1)" "in_range (ui_active s1) (ui_connections s1)"
    using new act by (auto simp: s1_def addConnection_def sync_active_def Let_def new_connection_def in_range_def)
  let ?n = "length (ui_connections s1)"
  define t where "t = foldl (\<lambda>s k. set_endpoint k (if cn_manager (connection_at s k) = None then set_manager k (c, r) (ui_sshClient s) s else s))
                  s1 [0..<?n]"
  have t: "length (ui_connections t) = ?n" "ui_active t = ui_active s1" "list_all blank (ui_connections t)"
  proof -
    have "length (ui_connections t) = ?n \<and> ui_active t = ui_active s1 \<and>
        (\<forall>k < ?n. if k < ?n then blank (connection_at t k) else connection_at t k = connection_at s1 k)"
      using init_step [OF s1(1) order_refl, of "(c, r)"] unfolding Let_def t_def .
    then show "length (ui_connections t) = ?n" "ui_active t = ui_active s1" "list_all blank (ui_connections t)"
      by (simp_all add: list_all_length connection_at_def)
  qed
  have b: "list_all blank (ui_connections (foldl (\<lambda>s k. bindConnectionCallbacks k s) u xs)) \<and>
      ui_active (foldl (\<lambda>s k. bindConnectionCallbacks k s) u xs) = ui_active u \<and>
      length (ui_connections (foldl (\<lambda>s k. bindConnectionCallbacks k s) u xs)) = length (ui_connections u)"
    if "list_all blank (ui_connections u)" "list_all (\<lambda>k. k < length (ui_connections u)) xs" for xs and u :: "('a, 'b) ui"
    using that
  proof (induction xs arbitrary: u)
    case (Cons k xs)
    from bind_blank [of u k] Cons.prems Cons.IH [of "bindConnectionCallbacks k u"] show ?case by auto
  qed simp
  have "ui_ok (rebindConnectionCallbacks t)"
    unfolding rebindConnectionCallbacks_def
    by (rule blank_ok) (use b [of t "[0..<length (ui_connections t)]"] t s1(2) in \<open>auto simp: list_all_iff in_range_def\<close>)
  from syncActive_ok [OF this, of rnd] show ?thesis
    by (simp add: initManagers_def Let_def s1_def [symmetric] t_def [symmetric])
qed

section \<open>All states\<close>

text \<open>
  One step. What the read loops do to the heap is theirs (\<open>Session\<close>); agents and the set of
  suppressed exits may change at any time.
\<close>

inductive ui_step :: "('e, 'cs) ui_env \<Rightarrow> ('e, 'cs) ui \<Rightarrow> ('e, 'cs) ui \<Rightarrow> bool" for E :: "('e, 'cs) ui_env" where
  request: "handleControlRequest E U meth raw ctl s = Some (r, s') \<Longrightarrow> ui_step E s s'"
| focus: "focusConnection E rnd i s = Some s' \<Longrightarrow> ui_step E s s'"
| rename: "ui_step E s (renameConnection E i name s)"
| reorder: "ui_step E s (moveConnection E rnd src dst s)"
| remove: "ui_step E s (removeConnection E rnd i s)"
| resize: "ui_step E s (resize_all E (s\<lparr>ui_layout := ly\<rparr>))"
| outputs: "ui_step E s (snd (send_output k msg s))"
| loop_reads: "ui_step E s (s\<lparr>ui_world := loop_read (ue_emulator E) k chunk (ui_world s)\<rparr>)"
| loop_commits: "ui_step E s (s\<lparr>ui_world := loop_commit k (ui_world s)\<rparr>)"
| loop_sends: "ui_step E s (s\<lparr>ui_world := loop_send k (ui_world s)\<rparr>)"
| loop_errors: "ui_step E s (s\<lparr>ui_world := loop_error k (ui_world s)\<rparr>)"
| agents: "ui_step E s (s\<lparr>ui_statuses := st\<rparr>)"
| expire: "ui_step E s (s\<lparr>ui_suppressed := ss\<rparr>)"

lemma loops_core:
  "same_managers s (s\<lparr>ui_world := loop_read em k chunk (ui_world s)\<rparr>)"
  "same_managers s (s\<lparr>ui_world := loop_commit k (ui_world s)\<rparr>)"
  "same_managers s (s\<lparr>ui_world := loop_send k (ui_world s)\<rparr>)"
  "same_managers s (s\<lparr>ui_world := loop_error k (ui_world s)\<rparr>)"
  by (simp_all add: same_managers_def session_at_def loop_read_def loop_commit_def loop_send_def loop_error_def Let_def
      case_prod_beta upd_run_def upd_screen_def upd_session_def split: phase.split)

lemma ui_step_ok: "ui_step E s s' \<Longrightarrow> ui_ok s \<Longrightarrow> ui_ok s'"
proof (induction rule: ui_step.induct)
  case (request U meth raw ctl s r s')
  then show ?case using request_answered [of s E U meth raw ctl] by (simp add: answered_def)
next
  case (focus rnd i s s')
  then show ?case using focusConnection_good [of s E rnd i] by simp
next
  case (resize s ly)
  have "ui_ok (s\<lparr>ui_layout := ly\<rparr>)" by (rule same_managers_ok [OF resize]) (simp add: same_managers_def session_at_def)
  then show ?case by (rule resize_all_ok)
next
  case (outputs s k msg)
  then show ?case
    by (auto simp: send_output_def Let_def intro: same_managers_ok [OF _ upd_connection_core])
qed (auto intro: renameConnection_ok moveConnection_ok removeConnection_ok same_managers_ok loops_core
      simp: same_managers_def session_at_def)

lemma ui_steps_ok: "(ui_step E)\<^sup>*\<^sup>* s s' \<Longrightarrow> ui_ok s \<Longrightarrow> ui_ok s'"
  by (induction rule: rtranclp_induct) (auto intro: ui_step_ok)

end
