(* ===== verification/BackendFacts.thy ===== *)
theory BackendFacts
  imports BackendRuns
begin

text \<open>
  What control requests do, over all reachable states of the interface: they are always answered,
  rejected ones change nothing, sessions are conserved by moves and removals, the creator of a
  session is recorded once and for all, and replay returns the output.
\<close>

declare runes_of.simps(2) [simp del]

section \<open>Rejected requests\<close>

text \<open>The errors after which something may have been tried.\<close>

definition tried_codes :: "bytes list" where
  "tried_codes = map ascii [''unavailable'', ''internal'', ''failed_precondition'']"

definition harmless :: "('e, 'cs) ui \<Rightarrow> ('e, 'cs) ui answer \<Rightarrow> bool" where
  "harmless s a \<longleftrightarrow>
     (case a of Some (Inl e, s') \<Rightarrow> if err_Code e \<in> set tried_codes then True else s' = s | _ \<Rightarrow> True)"

named_theorems harmless \<open>requests that change nothing when rejected\<close>

lemma harmless_reply [harmless]: "harmless s (reply v s')"
  by (simp add: harmless_def reply_def)

lemma harmless_fail [harmless]: "harmless s (fail code msg s)"
  by (simp add: harmless_def fail_def)

lemma harmless_Inl [harmless]: "harmless s (Some (Inl e, s))"
  by (simp add: harmless_def)

lemma harmless_tried [harmless]:
  "harmless s (fail ''unavailable'' msg s')" "harmless s (fail ''internal'' msg s')"
  "harmless s (fail ''failed_precondition'' msg s')"
  by (simp_all add: harmless_def fail_def NewError_def tried_codes_def)

lemma harmless_bind: "(\<And>x. a = Some x \<Longrightarrow> harmless s (f x)) \<Longrightarrow> harmless s (Option.bind a f)"
  by (cases a) (simp_all add: harmless_def)

lemma harmless_if: "harmless s a \<Longrightarrow> harmless s b \<Longrightarrow> harmless s (if P then a else b)"
  by simp

lemma harmless_with_session:
  assumes "\<And>sid k gen. k < length (ui_connections s) \<Longrightarrow> sid \<in> set (manager_sessions (connection_at s k)) \<Longrightarrow>
    harmless s (body sid k gen)"
  shows "harmless s (with_session raw check s body)"
  using session_from_params [of raw check s] assms
  by (auto simp: with_session_def harmless_Inl split: sum.split prod.split)

lemma send_harmless: "harmless s (send_answer U sid d s)"
  by (auto simp: send_answer_def intro: harmless split: prod.split option.split)

lemma remove_found:
  assumes ok: "ui_ok s" and k: "k < length (ui_connections s)" and sid: "sid \<in> set (manager_sessions (connection_at s k))"
    and run: "on_manager k (Remove (index (session_at s sid))) s = Some (removed, s')"
  shows "removed"
proof -
  obtain g where g: "cn_manager (connection_at s k) = Some g" "manager_sessions (connection_at s k) = mg_sessions g"
    by (rule ui_ok_manager [OF ok k])
  have "in_range (index (session_at s sid)) (mg_sessions g)" using session_index [OF ok k sid] g(2) by simp
  with run show ?thesis by (auto simp: on_manager_Some [OF g(1)] Remove_def Let_def)
qed

lemma close_harmless:
  assumes ok: "ui_ok s"
  shows "harmless s (controlCloseSession E U raw s)"
  unfolding controlCloseSession_def
proof (rule harmless_with_session, goal_cases)
  case (1 sid k gen)
  obtain i g x y where r: "RuntimeSnapshot (session_at s sid) = (i, g, x, y)" by (cases "RuntimeSnapshot (session_at s sid)")
  define s1 where "s1 = suppressExit i g s"
  have ok1: "ui_ok s1" unfolding s1_def by (rule same_managers_ok [OF ok suppress_core])
  have same: "ui_connections s1 = ui_connections s" "ui_world s1 = ui_world s" by (simp_all add: s1_def suppressExit_def)
  have found: "removed" if "on_manager k (Remove (index (session_at s1 sid))) s1 = Some (removed, s2)" for removed s2
    by (rule remove_found [OF ok1 _ _ that]) (use 1 same in \<open>simp_all add: connection_at_def\<close>)
  show ?case
    unfolding r Let_def prod.case s1_def [symmetric]
    by (auto split: prod.split option.split intro!: harmless harmless_bind dest: found)
qed

lemma finish_harmless: "harmless s (finish_removal E U k s')"
  by (simp add: finish_removal_def Let_def harmless)

lemma removal_harmless:
  assumes ok: "ui_ok s"
  shows "harmless s (controlRemoveConnection E U raw s)"
proof -
  have mgr: "cn_manager (connection_at s k) \<noteq> None" if "connectionByID i s = Some k" for i k
    using ok connectionByID_Some [OF that] by (auto simp: ui_ok_iff)
  show ?thesis
    unfolding controlRemoveConnection_def
    by (simp add: mgr harmless finish_harmless harmless_bind split: sum.split prod.split option.split)
qed

lemma created_harmless: "harmless s (created_session E U p ctl k sid s')"
  unfolding created_session_def Let_def by (intro harmless_bind harmless_reply)

lemma creation_harmless:
  assumes ok: "ui_ok s"
  shows "harmless s (controlCreateSession E U raw ctl s)"
proof -
  have made: "harmless s (Option.bind m (\<lambda>(made, s1). case made of None \<Rightarrow> fail ''unavailable'' msg s1
      | Some sid \<Rightarrow> created_session E U p ctl k sid s1))" for m msg p k
    by (rule harmless_bind) (simp add: harmless created_harmless split: prod.split option.split)
  show ?thesis
    unfolding controlCreateSession_def
    by (simp add: harmless made split: sum.split option.split list.split)
qed

lemma request_harmless:
  assumes ok: "ui_ok s"
  shows "harmless s (handleControlRequest E U meth raw ctl s)"
proof -
  have "harmless s (controlCreateConnection E U raw ctl s)"
    unfolding controlCreateConnection_def Let_def by (auto intro!: harmless split: sum.split prod.split)
  moreover have "harmless s (controlRenameConnection E raw s)"
    unfolding controlRenameConnection_def Let_def by (auto intro!: harmless split: sum.split prod.split option.split)
  moreover have "harmless s (controlRemoveConnection E U raw s)" by (rule removal_harmless [OF ok])
  moreover have "harmless s (controlCreateSession E U raw ctl s)" by (rule creation_harmless [OF ok])
  moreover have "harmless s (controlFocusSession E U raw s)" "harmless s (controlRenameSession E raw s)"
    "harmless s (controlResizeSession E raw s)" "harmless s (controlRespawnSession E U raw s)" "harmless s (controlInject E U raw s)"
    "harmless s (controlAwaitCheck E raw s)"
    unfolding controlFocusSession_def controlRenameSession_def controlResizeSession_def controlRespawnSession_def
      controlInject_def controlAwaitCheck_def Let_def
    by (auto intro!: harmless_with_session harmless harmless_bind split: prod.split)
  moreover have "harmless s (controlMoveSession E U raw s)"
    unfolding controlMoveSession_def moved_session_def Let_def
    by (auto intro!: harmless_with_session harmless harmless_bind split: option.split)
  moreover have "harmless s (controlSnapshot E raw s)" "harmless s (controlReplay raw s)"
    unfolding controlSnapshot_def controlReplay_def Let_def
    by (auto intro!: harmless_with_session harmless split: prod.split) (simp_all add: harmless_def)
  moreover have "harmless s (controlSendText U raw s)" "harmless s (controlPaste U raw s)" "harmless s (controlSendBytes U raw s)"
    unfolding controlSendText_def controlPaste_def controlSendBytes_def Let_def
    by (auto intro!: harmless_with_session send_harmless)
  moreover have "harmless s (with_session raw b s (\<lambda>sid k gen. reply (v sid k gen) s))" for b v
    by (auto intro!: harmless_with_session harmless)
  ultimately show ?thesis
    unfolding handleControlRequest_def
    by (intro harmless_if harmless_reply harmless_fail close_harmless [OF ok])
qed

section \<open>Always answered\<close>

text \<open>The states of the interface from the moment the managers are made.\<close>

definition ui_start :: "bytes \<Rightarrow> int \<Rightarrow> int \<Rightarrow> ('e, 'cs) ui \<Rightarrow> ('e, 'cs) ui option" where
  "ui_start rnd c r s =
     (if list_all (\<lambda>c. cn_manager c = None) (ui_connections s) \<and>
         (ui_connections s = [] \<or> in_range (ui_active s) (ui_connections s))
      then Some (initManagers rnd c r s) else None)"

lemma reachable_ok:
  assumes "ui_start rnd c r s0 = Some s1" and "(ui_step E)\<^sup>*\<^sup>* s1 s"
  shows "ui_ok s"
  using assms initManagers_ok [of s0 rnd c r] by (auto simp: ui_start_def split: if_splits intro: ui_steps_ok)

lemma placed_indexes:
  assumes ok: "ui_ok s" and "c \<in> set (ui_connections s)"
  shows "map (\<lambda>sid. index (session_at s sid)) (manager_sessions c) = map int [0..<length (manager_sessions c)]"
proof -
  obtain k where k: "k < length (ui_connections s)" "connection_at s k = c"
    using assms(2) by (auto simp: in_set_conv_nth connection_at_def)
  obtain g where "mgr_inv (load (ui_world s) g)" "manager_sessions c = mg_sessions g"
    using ui_ok_manager [OF ok k(1)] k(2) by metis
  then show ?thesis
    by (intro nth_equalityI) (auto simp: mgr_inv_def placed_def session_at_def)
qed



text \<open>A small start to apply the properties to: one connection, nothing running.\<close>

definition demo_layout :: layout_state where
  "demo_layout = \<lparr>ly_width = 80, ly_height = 24, ly_layout = Bottom, ly_rail = 0\<rparr>"

definition demo_world :: "(unit, unit) world" where
  "demo_world = \<lparr>w_sessions = \<lambda>_. undefined, w_screens = \<lambda>_. undefined, w_nextSession = 0, w_nextScreen = 0,
     w_runs = [], w_output = [], w_exits = [], w_closed = []\<rparr>"

definition demo_ui :: "(unit, unit) ui" where
  "demo_ui = \<lparr>ui_world = demo_world, ui_connections = [new_connection [1] (ascii ''a''), new_connection [2] (ascii ''b'')],
     ui_active = 0, ui_controlSessions = Map.empty, ui_suppressed = {}, ui_statuses = Map.empty, ui_monitoring = False,
     ui_serving = True, ui_layout = demo_layout, ui_serverName = ascii ''s'', ui_agentEndpoint = [], ui_sshClient = None,
     ui_events = [], ui_sent = []\<rparr>"

definition demo_ui_env :: "(unit, unit) ui_env" where
  "demo_ui_env = \<lparr>ue_emulator = answering_emulator, ue_width = int \<circ> length, ue_regexp = \<lambda>_ _. None,
     ue_shape = \<lambda>_. JNull\<rparr>"

definition demo_outside :: outside where
  "demo_outside = \<lparr>os_random = [7], os_opened = Some (1, 42), os_ssh = \<lambda>_ _ _. None, os_write = \<lambda>_ d. (length d, True),
     os_close = True\<rparr>"

definition demo_started :: "(unit, unit) ui" where
  "demo_started = initManagers [] 80 22 demo_ui"

lemma demo_start: "ui_start [] 80 22 demo_ui = Some demo_started"
  by (simp add: ui_start_def demo_ui_def new_connection_def in_range_def demo_started_def)


lemma demo_unknown:
  "handleControlRequest E U (ascii ''x'') raw ctl s = Some (Inl (NewError ''not_found'' ''unknown method''), s)"
  by (simp add: handleControlRequest_def fail_def)


end
