(* ===== verification/BackendCreate.thy ===== *)
theory BackendCreate
  imports BackendFacts
begin

text \<open>
  What \<open>session.create\<close> leaves (\<open>src/pkg/ui/control.go\<close>): the new session at the end of its
  connection, with its creator on record.
\<close>

declare runes_of.simps(2) [simp del]

section \<open>The new session\<close>

lemma NewConfigured_new:
  fixes m :: "('e, 'cs) sessionManager" and E :: "('e, 'cs) emulator" and rnd :: bytes and command :: "bytes list"
    and ssh :: "nat option" and d :: bytes and env :: "bytes list"
  assumes "opened \<noteq> None"
  defines "m' \<equiv> snd (NewConfigured E rnd command ssh d env opened m)" and "sid \<equiv> w_nextSession m"
  shows "fst (NewConfigured E rnd command ssh d env opened m) = Some sid"
    "runtimeID (w_sessions m' sid) = newRuntimeID rnd" "generation (w_sessions m' sid) = 1"
    "index (w_sessions m' sid) = int (length (sessions m))" "exited (w_sessions m' sid) = False"
    "sessions m' = sessions m @ [sid]" "w_nextSession m' = Suc sid"
proof -
  obtain ch pid where o: "opened = Some (ch, pid)" using assms(1) by (cases opened) auto
  define m1 where "m1 = snd (NewConfigured_begin E rnd command ssh d env m)"
  have b: "NewConfigured_begin E rnd command ssh d env m = (sid, m1)"
    unfolding m1_def sid_def by (rule prod_eqI) (simp_all add: conf_begin_frame(1))
  have x: "w_sessions m1 sid = \<lparr>runtimeID = newRuntimeID rnd, index = int (length (sessions m)), cmd = command, cmdLine = [],
      workDir = d, title = [], screen = w_nextScreen m, exited = False, processID = 0, generation = 0, runToken = 0,
      outputSequence = 0, agentEndpoint = mgr_agentEndpoint m, extraEnv = env, rw = None, resizeFn = None, sshClient = ssh,
      SendOutput = mgr_SendOutput m, SendExit = mgr_SendExit m\<rparr>"
    by (simp add: m1_def sid_def NewConfigured_begin_def newSession_def Let_def mgr_frame setCallbacks_def)
  have n: "sessions m1 = sessions m @ [sid]" "w_nextSession m1 = Suc sid" by (simp_all add: m1_def sid_def mgr_frame)
  have c: "NewConfigured E rnd command ssh d env opened m = (Some sid, snd (Start sid opened m1))"
    by (simp add: NewConfigured_def b o Start_def)
  show "fst (NewConfigured E rnd command ssh d env opened m) = Some sid" by (simp add: c)
  have m': "m' = snd (Start sid opened m1)" by (simp add: m'_def c)
  show "sessions m' = sessions m @ [sid]" "w_nextSession m' = Suc sid" using n by (simp_all add: m' mgr_frame)
  show "runtimeID (w_sessions m' sid) = newRuntimeID rnd" "generation (w_sessions m' sid) = 1"
    "index (w_sessions m' sid) = int (length (sessions m))" "exited (w_sessions m' sid) = False"
    by (simp_all add: m' o Start_def start_locked_def Let_def upd_session_def upd_screen_def x)
qed

text \<open>A session created with no more than a command, in a connection that has a manager.\<close>

definition plain_params :: "bytes \<Rightarrow> bytes list \<Rightarrow> createSessionParams" where
  "plain_params con command = \<lparr>cp_ConnectionID = con, cp_Title = [], cp_Focus = False, cp_Cmd = command, cp_Cwd = [],
     cp_Env = [], cp_Labels = [], cp_Kind = [], cp_Target = [], cp_Port = [], cp_KeyRef = [], cp_VerifyHostKey = False,
     cp_Cols = 0, cp_Rows = 0, cp_Cleanup = [], cp_ParentSessionID = []\<rparr>"

definition demo_creation :: raw where
  "demo_creation = Some (JObj [(ascii ''connectionId'', JStr (ascii ''con_01'')), (ascii ''cmd'', JArr [JStr (ascii ''sh'')])])"

lemma demo_creation_decoded: "decodeControl dec_createSession demo_creation = Inr (plain_params (ascii ''con_01'') [ascii ''sh''])"
  by (simp add: decodeControl_def raw_members_def dec_createSession_def demo_creation_def members_def field_def sub_field_def
      key_simps dec_str_def dec_str_list_def dec_bool_def dec_labels_def plain_params_def)

lemma created_plain:
  assumes ok: "ui_ok s" and k: "k < length (ui_connections s)"
    and plain: "cp_Title p = []" "\<not> cp_Focus p" "cp_Cols p = 0"
  shows "created_session E U p ctl k sid s =
    (let s2 = s\<lparr>ui_controlSessions := (ui_controlSessions s)(runtimeID (session_at s sid) \<mapsto>
               \<lparr>cm_createdBy = ctl, cm_parentID = cp_ParentSessionID p, cm_labels = cloneLabels (cp_Labels p),
                cm_cleanup = (if cp_Cleanup p = [] then ascii ''retain'' else cp_Cleanup p)\<rparr>)\<rparr>;
         s3 = notifyMeta E s2;
         s4 = publishSessionEvent ''session.lifecycle'' ''session.created'' sid
                [(''connectionId'', GStr (cn_id (connection_at s3 k)))] s3;
         s5 = publishSessionEvent ''session.lifecycle'' ''session.started'' sid [] s4
     in reply (session_result E k sid s5) s5)"
proof -
  obtain g where g: "cn_manager (connection_at s k) = Some g" by (rule ui_ok_manager [OF ok k])
  have r: "run_manager k (if 0 < cp_Cols p \<and> 0 < cp_Rows p then f else id) s = Some s" for f
    using plain(3) by (simp add: run_manager_Some [OF g] put_manager_same [OF g])
  show ?thesis
    unfolding created_session_def Let_def
    by (simp only: plain(1,2) simp_thms if_False if_True r Option.bind.simps)
qed

section \<open>Connections\<close>

text \<open>The identifiers of connections stay when managers are made.\<close>

definition ids :: "('e, 'cs) ui \<Rightarrow> bytes list" where
  "ids s = map cn_id (ui_connections s)"

lemma connectionByID_ids: "ids s = ids t \<Longrightarrow> connectionByID i s = connectionByID i t"
proof -
  have "map cn_id cs = map cn_id ds \<Longrightarrow> find_conn (\<lambda>c. cn_id c = i) cs = find_conn (\<lambda>c. cn_id c = i) ds" for cs ds
    by (induction cs ds rule: list_induct2') simp_all
  then show "ids s = ids t \<Longrightarrow> connectionByID i s = connectionByID i t" unfolding connectionByID_def ids_def .
qed

lemma upd_ids: "(\<And>c. cn_id (f c) = cn_id c) \<Longrightarrow> ids (upd_connection k f s) = ids s"
  by (cases "k < length (ui_connections s)")
    (simp_all add: ids_def upd_connection_def map_update list_update_same_conv list_update_beyond)

lemma run_ids: "run_manager k f s = Some s' \<Longrightarrow> ids s' = ids s"
proof -
  have w: "ids (upd_connection k (\<lambda>c. c\<lparr>cn_manager := g\<rparr>) (s\<lparr>ui_world := w\<rparr>)) = ids s" for g w
    by (subst upd_ids) (simp_all add: ids_def)
  show "run_manager k f s = Some s' \<Longrightarrow> ids s' = ids s"
    by (auto simp: run_manager_def on_manager_def w split: option.splits)
qed

lemma init_ids:
  assumes "ui_connections s \<noteq> []"
  shows "ids (initManagers rnd c r s) = ids s"
proof -
  have e: "ids (set_endpoint k s) = ids s" for k and s :: "('a, 'b) ui"
    by (auto simp: set_endpoint_def run_ids split: option.split)
  have m: "ids (set_manager k sz ssh s) = ids s" for k sz ssh and s :: "('a, 'b) ui"
    by (simp add: set_manager_def upd_ids)
  have b: "ids (bindConnectionCallbacks k s) = ids s" for k and s :: "('a, 'b) ui"
    by (auto simp: bindConnectionCallbacks_def upd_ids dest: run_ids split: option.split)
  have y: "ids (syncActiveConnectionFields rnd s) = ids s" if "ids s \<noteq> []" for rnd and s :: "('a, 'b) ui"
  proof -
    have "map (\<lambda>x. cn_id (case x of (i, c) \<Rightarrow> c\<lparr>cn_webActive := w i\<rparr>)) (enumerate n cs) = map cn_id cs"
      for w n and cs :: "connection list" by (induction cs arbitrary: n) simp_all
    with that show ?thesis
      by (simp add: ids_def syncActiveConnectionFields_def activeConnection_def sync_active_def Let_def comp_def)
  qed
  have f: "ids (foldl g s xs) = ids s" if "\<And>s x. ids (g s x) = ids s" for g xs and s :: "('a, 'b) ui"
    using that by (induction xs arbitrary: s) simp_all
  define t where "t = foldl (\<lambda>s k. set_endpoint k (if cn_manager (connection_at s k) = None
      then set_manager k (c, r) (ui_sshClient s) s else s)) s [0..<length (ui_connections s)]"
  have "ids t = ids s" unfolding t_def by (rule f) (simp add: e m)
  then have "ids (rebindConnectionCallbacks t) = ids s" by (simp add: rebindConnectionCallbacks_def f b)
  moreover have "ids s \<noteq> []" using assms by (simp add: ids_def)
  ultimately show ?thesis
    using assms by (simp add: initManagers_def Let_def t_def [symmetric] y)
qed

lemma demo_connections:
  "connectionByID (ascii ''con_01'') demo_started = Some 0" "connectionByID (ascii ''con_02'') demo_started = Some 1"
proof -
  have "ids demo_started = ids demo_ui" by (simp add: demo_started_def demo_ui_def init_ids)
  then have eq: "connectionByID i demo_started = connectionByID i demo_ui" for i by (rule connectionByID_ids)
  show "connectionByID (ascii ''con_01'') demo_started = Some 0" "connectionByID (ascii ''con_02'') demo_started = Some 1"
    unfolding eq by (simp_all add: connectionByID_def demo_ui_def new_connection_def hex_encode_def hex_digit_def byte_of_def)
qed

section \<open>Steps that leave sessions where and what they are\<close>

definition session_lists :: "('e, 'cs) ui \<Rightarrow> nat list list" where
  "session_lists s = map manager_sessions (ui_connections s)"

definition calm :: "('e, 'cs) ui \<Rightarrow> ('e, 'cs) ui \<Rightarrow> bool" where
  "calm s s' \<longleftrightarrow>
     session_lists s' = session_lists s \<and> ids s' = ids s \<and> w_nextSession (ui_world s') = w_nextSession (ui_world s) \<and>
     (\<forall>x. runtimeID (session_at s' x) = runtimeID (session_at s x) \<and> generation (session_at s' x) = generation (session_at s x))"

named_theorems calm \<open>operations that are calm\<close>

lemma calm_refl [calm]: "calm s s"
  by (simp add: calm_def)

lemma calm_trans: "calm s s1 \<Longrightarrow> calm s1 s2 \<Longrightarrow> calm s s2"
  by (auto simp: calm_def)

lemma calm_world [calm]:
  "calm s (notifyMeta E s)" "calm s (publishControlEvent a b c d e s)" "calm s (publishSessionEvent a b sid e s)"
  "calm s (s\<lparr>ui_controlSessions := m\<rparr>)" "calm s (s\<lparr>ui_active := n\<rparr>)" "calm s (acknowledge_session E sid s)"
  "calm s (upd_ui_session sid (\<lambda>x. SetTitle x t) s)"
  by (simp_all add: calm_def notifyMeta_def publishControlEvent_def publishSessionEvent_def session_lists_def session_at_def
      acknowledge_session_def upd_ui_session_def upd_session_def SetTitle_def ids_def)

lemma calm_sync [calm]: "calm s (sync_active s)"
proof -
  have "map (\<lambda>x. f (case x of (i, c) \<Rightarrow> c\<lparr>cn_webActive := w i\<rparr>)) (enumerate n cs) = map f cs"
    if "\<And>c b. f (c\<lparr>cn_webActive := b\<rparr>) = f c" for f :: "connection \<Rightarrow> 'c" and w n cs
    using that by (induction cs arbitrary: n) simp_all
  from this [of manager_sessions] this [of cn_id] show ?thesis
    by (simp add: calm_def sync_active_def session_lists_def ids_def session_at_def Let_def comp_def manager_sessions_def)
qed

lemma calm_run:
  assumes "run_manager k f s = Some s'"
    and "\<And>m. sessions (f m) = sessions m \<and> w_nextSession (f m) = w_nextSession m \<and>
      (\<forall>x. runtimeID (w_sessions (f m) x) = runtimeID (w_sessions m x) \<and> generation (w_sessions (f m) x) = generation (w_sessions m x))"
  shows "calm s s'" and "ui_controlSessions s' = ui_controlSessions s"
proof -
  obtain g where g: "cn_manager (connection_at s k) = Some g"
    using assms(1) by (cases "cn_manager (connection_at s k)") (auto simp: run_manager_def on_manager_def)
  have s': "s' = put_manager k (f (load (ui_world s) g)) s" using assms(1) by (simp add: run_manager_Some [OF g])
  show "ui_controlSessions s' = ui_controlSessions s" by (simp add: s')
  have "session_lists s' = session_lists s"
  proof (cases "k < length (ui_connections s)")
    case True
    then have "manager_sessions (connection_at s' k) = manager_sessions (connection_at s k)"
      using g assms(2) by (simp add: s' manager_sessions_def)
    with True show ?thesis
      by (auto simp: session_lists_def s' put_manager_def upd_connection_def map_update connection_at_def list_update_same_conv)
  next
    case False
    then show ?thesis by (simp add: session_lists_def s' put_manager_def upd_connection_def list_update_beyond)
  qed
  moreover have "ids s' = ids s" using assms(1) by (rule run_ids)
  ultimately show "calm s s'" using assms(2) by (simp add: calm_def s' session_at_def)
qed

lemma resize_keeps:
  "sessions (ResizeOne E i c r m) = sessions m \<and> w_nextSession (ResizeOne E i c r m) = w_nextSession m \<and>
   (\<forall>x. runtimeID (w_sessions (ResizeOne E i c r m) x) = runtimeID (w_sessions m x) \<and>
        generation (w_sessions (ResizeOne E i c r m) x) = generation (w_sessions m x))"
  by (simp add: ResizeOne_def mgr_frame split: option.split)

lemma focus_keeps:
  "sessions (Focus i m) = sessions m \<and> w_nextSession (Focus i m) = w_nextSession m \<and>
   (\<forall>x. runtimeID (w_sessions (Focus i m) x) = runtimeID (w_sessions m x) \<and>
        generation (w_sessions (Focus i m) x) = generation (w_sessions m x))"
  by (simp add: Focus_def mgr_frame)

lemma refresh_calm:
  assumes "refreshFocused E s = Some s'"
  shows "calm s s'" and "ui_controlSessions s' = ui_controlSessions s"
proof -
  let ?f = "\<lambda>m. ResizeOne (ue_emulator E) (FocusedIndex m) (fst (pane_size s)) (snd (pane_size s)) m"
  from assms obtain i s1 where on: "on_manager (nat (ui_active s)) (\<lambda>m. (FocusedIndex m, ?f m)) s = Some (i, s1)"
    and s': "s' = s1 \<or> (\<exists>sid. s' = acknowledge_session E sid s1)"
    by (fastforce simp: refreshFocused_def Let_def split: option.splits bind_splits)
  from on have "run_manager (nat (ui_active s)) ?f s = Some s1"
    using on_manager_run [of "nat (ui_active s)" "\<lambda>m. (FocusedIndex m, ?f m)" s] by simp
  note c = calm_run [OF this resize_keeps]
  have "calm s1 s' \<and> ui_controlSessions s' = ui_controlSessions s1"
    using s' calm_world(6) [of s1 E] by (auto simp: calm) (auto simp: acknowledge_session_def)
  with c show "calm s s'" "ui_controlSessions s' = ui_controlSessions s" using calm_trans by auto
qed

lemma notify_world [simp]:
  "ui_world (notifyMeta E s) = ui_world s" "ui_world (publishControlEvent a b c d e s) = ui_world s"
  "ui_world (publishSessionEvent a b sid f s) = ui_world s"
  "ui_controlSessions (notifyMeta E s) = ui_controlSessions s"
  "ui_controlSessions (publishControlEvent a b c d e s) = ui_controlSessions s"
  "ui_controlSessions (publishSessionEvent a b sid f s) = ui_controlSessions s"
  by (simp_all add: notifyMeta_def publishControlEvent_def publishSessionEvent_def)

lemma announced_calm: "calm s (publishSessionEvent a b sid c (publishSessionEvent d e sid' f (notifyMeta E s)))"
  using calm_world(1,3) calm_trans by metis

text \<open>What follows the start of a session only records its creator.\<close>

lemma created_facts:
  assumes ok: "ui_ok s" and k: "k < length (ui_connections s)"
    and run: "created_session E U p ctl k sid s = Some (a, s')"
  shows "calm s s'" and "\<exists>v. a = Inr v"
    and "\<exists>m. cm_createdBy m = ctl \<and> ui_controlSessions s' = (ui_controlSessions s)(runtimeID (session_at s sid) \<mapsto> m)"
proof -
  define s1 where "s1 = (if cp_Title p \<noteq> [] then upd_ui_session sid (\<lambda>x. SetTitle x (trim_space (cp_Title p))) s else s)"
  define f where "f = (if 0 < cp_Cols p \<and> 0 < cp_Rows p
    then (\<lambda>m. ResizeOne (ue_emulator E) (index (session_at s1 sid)) (cp_Cols p) (cp_Rows p) m) else id)"
  define meta where "meta = \<lparr>cm_createdBy = ctl, cm_parentID = cp_ParentSessionID p, cm_labels = cloneLabels (cp_Labels p),
    cm_cleanup = (if cp_Cleanup p = [] then ascii ''retain'' else cp_Cleanup p)\<rparr>"
  have c1: "calm s s1" "ui_controlSessions s1 = ui_controlSessions s"
    using calm_world(7) [of s sid] by (simp_all add: s1_def calm) (simp add: upd_ui_session_def)
  from run obtain s2 where s2: "run_manager k f s1 = Some s2"
    unfolding created_session_def Let_def s1_def [symmetric] f_def [symmetric] by (auto split: bind_splits)
  have fk: "sessions (f m) = sessions m \<and> w_nextSession (f m) = w_nextSession m \<and>
      (\<forall>x. runtimeID (w_sessions (f m) x) = runtimeID (w_sessions m x) \<and> generation (w_sessions (f m) x) = generation (w_sessions m x))" for m
    by (simp add: f_def resize_keeps)
  have c2: "calm s1 s2" "ui_controlSessions s2 = ui_controlSessions s1"
    using calm_run [OF s2 fk] by simp_all
  define s3 where "s3 = s2\<lparr>ui_controlSessions := (ui_controlSessions s2)(runtimeID (session_at s2 sid) \<mapsto> meta)\<rparr>"
  have c3: "calm s s3" unfolding s3_def using c1(1) c2(1) calm_world(4) calm_trans by metis
  define foc where "foc = (if cp_Focus p then Option.bind (run_manager k (Focus (index (session_at s3 sid)))
      (syncActiveConnectionFields (os_random U) (s3\<lparr>ui_active := int k\<rparr>))) (refreshFocused E) else Some s3)"
  have "Option.bind foc (\<lambda>s4.
      (let s5 = notifyMeta E s4;
           s6 = publishSessionEvent ''session.lifecycle'' ''session.created'' sid
                  [(''connectionId'', GStr (cn_id (connection_at s5 k)))] s5;
           s7 = publishSessionEvent ''session.lifecycle'' ''session.started'' sid [] s6
       in reply (session_result E k sid s7) s7)) = Some (a, s')"
    using run unfolding created_session_def Let_def s1_def [symmetric] f_def [symmetric] s2 Option.bind.simps
      meta_def [symmetric] s3_def [symmetric] foc_def [symmetric] .
  then obtain s4 where s4: "foc = Some s4" and out: "(let s5 = notifyMeta E s4;
           s6 = publishSessionEvent ''session.lifecycle'' ''session.created'' sid
                  [(''connectionId'', GStr (cn_id (connection_at s5 k)))] s5;
           s7 = publishSessionEvent ''session.lifecycle'' ''session.started'' sid [] s6
       in reply (session_result E k sid s7) s7) = Some (a, s')"
    by (cases foc) simp_all
  have s': "calm s4 s'" "ui_controlSessions s' = ui_controlSessions s4" "\<exists>v. a = Inr v"
    using out announced_calm by (auto simp: Let_def reply_def)
  have "calm s3 s4 \<and> ui_controlSessions s4 = ui_controlSessions s3"
  proof (cases "cp_Focus p")
    case True
    let ?t = "s3\<lparr>ui_active := int k\<rparr>"
    have ok3: "ui_ok s3"
    proof -
      have "ui_ok s1" using ok same_managers_ok [OF ok upd_ui_session_core] by (simp add: s1_def SetTitle_def)
      moreover have "local_operation (f :: ('a, 'b) sessionManager \<Rightarrow> _)"
        by unfold_locales (simp add: f_def ResizeOne_local local_step_refl)
      moreover have "k < length (ui_connections s1)" using k by (simp add: s1_def upd_ui_session_def)
      ultimately have "ui_ok s2" using local_operation.run_good [of f s1 k] s2 by simp
      then show ?thesis unfolding s3_def by (rule same_managers_ok [OF _ meta_core])
    qed
    have "length (ui_connections s3) = length (ui_connections s)"
      using c3 by (simp add: calm_def session_lists_def) (metis length_map)
    then have "ui_ok ?t" using k by (intro set_active_ok [OF ok3]) (auto simp: in_range_def)
    then have sync: "syncActiveConnectionFields (os_random U) ?t = sync_active ?t"
      by (simp add: syncActiveConnectionFields_def ok_active)
    obtain s5 where s5: "run_manager k (Focus (index (session_at s3 sid))) (sync_active ?t) = Some s5" "refreshFocused E s5 = Some s4"
      using s4 True by (auto simp: foc_def sync split: bind_splits)
    have "calm s3 (sync_active ?t)" using calm_world(5) calm_sync calm_trans by metis
    moreover have "ui_controlSessions (sync_active ?t) = ui_controlSessions s3" by (simp add: sync_active_def Let_def)
    ultimately show ?thesis
      using calm_run [OF s5(1) focus_keeps] refresh_calm [OF s5(2)] calm_trans by metis
  qed (use s4 in \<open>simp add: foc_def calm\<close>)
  with c3 s'(1) show "calm s s'" using calm_trans by metis
  show "\<exists>v. a = Inr v" by (rule s'(3))
  have "runtimeID (session_at s2 sid) = runtimeID (session_at s sid)" using c1(1) c2(1) by (simp add: calm_def)
  then show "\<exists>m. cm_createdBy m = ctl \<and> ui_controlSessions s' = (ui_controlSessions s)(runtimeID (session_at s sid) \<mapsto> m)"
    using \<open>calm s3 s4 \<and> ui_controlSessions s4 = ui_controlSessions s3\<close> s'(2) c1(2) c2(2)
    by (intro exI [of _ meta]) (simp add: s3_def meta_def)
qed

lemma creation_made:
  assumes "controlCreateSession E U raw ctl s = Some (Inr v, s')"
  obtains p k client where "decodeControl dec_createSession raw = Inr p" and "connectionByID (cp_ConnectionID p) s = Some k"
    and "Option.bind (on_manager k (NewConfigured (ue_emulator E) (os_random U) (cp_Cmd p) client (cp_Cwd p)
           (environment_of (cp_Env p)) (os_opened U)) s)
         (\<lambda>(made, s1). case made of None \<Rightarrow> fail ''unavailable'' ''start'' s1
            | Some sid \<Rightarrow> created_session E U p ctl k sid s1) = Some (Inr v, s')"
proof -
  obtain p where p: "decodeControl dec_createSession raw = Inr p"
    using assms by (cases "decodeControl dec_createSession raw") (simp_all add: controlCreateSession_def)
  obtain k where k: "connectionByID (cp_ConnectionID p) s = Some k"
    using assms by (cases "connectionByID (cp_ConnectionID p) s") (simp_all add: controlCreateSession_def p fail_def)
  have c: "cn_manager (connection_at s k) \<noteq> None" "\<not> (case cp_Cmd p of [] \<Rightarrow> True | c # _ \<Rightarrow> trim_space c = [])"
    "\<not> (cp_Cwd p \<noteq> [] \<and> \<not> has_prefix (cp_Cwd p) [slash])" "\<not> list_ex reserved_key (map fst (cp_Env p))"
    using assms unfolding controlCreateSession_def p k sum.case option.case fail_def by (auto split: if_splits)
  obtain client where "backend_client U p = Inr client"
  proof (cases "backend_client U p")
    case (Inl e)
    have "controlCreateSession E U raw ctl s = Some (Inl e, s)"
      unfolding controlCreateSession_def p k sum.case option.case by (simp only: c Inl if_False sum.case)
    with assms show ?thesis by simp
  qed (rule that)
  then show ?thesis
    using that [OF p k] assms unfolding controlCreateSession_def p k sum.case option.case
    by (simp only: c if_False sum.case)
qed

text \<open>
  A session that was created is the last of its connection, in its first generation, with its own
  identifier, and the one who asked for it is on record as its creator; nothing else changes on
  record, and no other session changes its identifier or its place.
\<close>

lemma creation_facts:
  assumes ok: "ui_ok s" and run: "controlCreateSession E U raw ctl s = Some (Inr v, s')"
  defines "sid \<equiv> w_nextSession (ui_world s)" and "rid \<equiv> newRuntimeID (os_random U)"
  obtains p k m where "decodeControl dec_createSession raw = Inr p" and "connectionByID (cp_ConnectionID p) s = Some k"
    and "k < length (ui_connections s)" and "cm_createdBy m = ctl"
    and "session_lists s' = (session_lists s)[k := session_lists s ! k @ [sid]]"
    and "runtimeID (session_at s' sid) = rid" and "generation (session_at s' sid) = 1"
    and "ui_controlSessions s' = (ui_controlSessions s)(rid \<mapsto> m)"
    and "\<And>x. x < sid \<Longrightarrow> runtimeID (session_at s' x) = runtimeID (session_at s x)" and "ids s' = ids s"
proof -
  obtain p k client where dec: "decodeControl dec_createSession raw = Inr p" and con: "connectionByID (cp_ConnectionID p) s = Some k"
    and b: "Option.bind (on_manager k (NewConfigured (ue_emulator E) (os_random U) (cp_Cmd p) client (cp_Cwd p)
           (environment_of (cp_Env p)) (os_opened U)) s)
         (\<lambda>(made, s1). case made of None \<Rightarrow> fail ''unavailable'' ''start'' s1
            | Some sid \<Rightarrow> created_session E U p ctl k sid s1) = Some (Inr v, s')"
    using creation_made [OF run] by blast
  have k: "k < length (ui_connections s)" using con by (simp add: connectionByID_Some)
  obtain g where g: "cn_manager (connection_at s k) = Some g" "mgr_inv (load (ui_world s) g)"
    "manager_sessions (connection_at s k) = mg_sessions g" by (rule ui_ok_manager [OF ok k])
  let ?N = "NewConfigured (ue_emulator E) (os_random U) (cp_Cmd p) client (cp_Cwd p) (environment_of (cp_Env p)) (os_opened U)"
  let ?m = "snd (?N (load (ui_world s) g))"
  have opened: "os_opened U \<noteq> None"
  proof
    assume "os_opened U = None"
    then have "fst (?N (load (ui_world s) g)) = None"
      by (simp add: NewConfigured_def Start_def case_prod_beta)
    with b show False by (simp add: on_manager_Some [OF g(1)] fail_def)
  qed
  note new = NewConfigured_new [OF opened, where m = "load (ui_world s) g" and E = "ue_emulator E" and rnd = "os_random U"
      and command = "cp_Cmd p" and ssh = client and d = "cp_Cwd p" and env = "environment_of (cp_Env p)"]
  let ?s1 = "put_manager k ?m s"
  have c: "created_session E U p ctl k sid ?s1 = Some (Inr v, s')"
    using b by (simp add: on_manager_Some [OF g(1)] new(1) sid_def)
  have ok1: "ui_ok ?s1" by (rule put_manager_local_ok [OF ok k g(1) NewConfigured_local [OF g(2)]])
  have step: "local_step (load (ui_world s) g) ?m" by (rule NewConfigured_local [OF g(2)])
  have k1: "k < length (ui_connections ?s1)" using k by simp
  note f = created_facts [OF ok1 k1 c]
  have rid: "runtimeID (session_at ?s1 sid) = rid" "generation (session_at ?s1 sid) = 1"
    using new(2,3) by (simp_all add: session_at_def sid_def rid_def)
  have "manager_sessions (connection_at ?s1 k) = mg_sessions g @ [sid]"
    using k new(6) by (simp add: manager_sessions_def sid_def)
  then have l: "session_lists ?s1 = (session_lists s)[k := session_lists s ! k @ [sid]]"
    using k g(3) by (simp add: session_lists_def put_manager_def upd_connection_def map_update connection_at_def)
  have i1: "ids ?s1 = ids s" using run_ids [OF run_manager_Some [OF g(1), of "\<lambda>_. ?m"]] .
  obtain m where m: "cm_createdBy m = ctl" "ui_controlSessions s' = (ui_controlSessions s)(rid \<mapsto> m)"
    using f(3) rid(1) by auto
  show ?thesis
    by (rule that [OF dec con k m(1) _ _ _ m(2)])
      (use f(1) l rid i1 step in \<open>simp_all add: calm_def sid_def local_step_def session_at_def\<close>)
qed

lemma find_session_lists:
  assumes "sid \<in> set (concat (session_lists s))" and "runtimeID (session_at s sid) = i"
    and "\<And>x. x \<in> set (concat (session_lists s)) \<Longrightarrow> runtimeID (session_at s x) = i \<Longrightarrow> x = sid"
  shows "\<exists>k. find_session (ui_world s) i (ui_connections s) = Some (sid, k)"
proof -
  have find: "\<exists>k. find_session w i cs = Some (sid, k)"
    if "sid \<in> set (concat (map manager_sessions cs))" "runtimeID (w_sessions w sid) = i"
      "\<And>x. x \<in> set (concat (map manager_sessions cs)) \<Longrightarrow> runtimeID (w_sessions w x) = i \<Longrightarrow> x = sid" for w :: "('a, 'b) world" and cs
    using that
  proof (induction cs)
    case (Cons c cs)
    show ?case
    proof (cases "List.find (\<lambda>sid. runtimeID (w_sessions w sid) = i) (manager_sessions c)")
      case None
      then have "sid \<notin> set (manager_sessions c)" using Cons.prems(2) by (auto simp: find_None_iff)
      then have "sid \<in> set (concat (map manager_sessions cs))" using Cons.prems(1) by simp
      moreover have "x = sid" if "x \<in> set (concat (map manager_sessions cs))" "runtimeID (w_sessions w x) = i" for x
        using Cons.prems(3) [of x] that by simp
      ultimately obtain k where "find_session w i cs = Some (sid, k)" using Cons.IH Cons.prems(2) by blast
      with None show ?thesis by simp
    next
      case (Some x)
      then have "x \<in> set (manager_sessions c)" "runtimeID (w_sessions w x) = i" by (auto simp: find_Some_iff)
      then have "x = sid" using Cons.prems(3) [of x] by simp
      with Some show ?thesis by simp
    qed
  qed simp
  show ?thesis by (rule find) (use assms in \<open>unfold session_lists_def session_at_def, blast+\<close>)
qed

text \<open>The demonstration with one session in its first connection.\<close>

lemma run_next:
  assumes "run_manager k f s = Some s'" and "\<And>m. w_nextSession (f m) = w_nextSession m"
  shows "w_nextSession (ui_world s') = w_nextSession (ui_world s)"
  using assms(1) by (auto simp: run_manager_def on_manager_def upd_connection_def assms(2) split: option.splits)

lemma foldl_next: "w_nextSession (foldl (\<lambda>m sid. upd_session sid (g sid) m) m xs) = w_nextSession m"
  by (induction xs arbitrary: m) (simp_all add: upd_session_def)

lemma init_next:
  assumes "ui_connections s \<noteq> []"
  shows "w_nextSession (ui_world (initManagers rnd c r s)) = w_nextSession (ui_world s)"
proof -
  let ?n = "\<lambda>s. w_nextSession (ui_world s)"
  have e: "?n (set_endpoint k s) = ?n s" for k and s :: "('a, 'b) ui"
  proof -
    have "w_nextSession (SetAgentStateEndpoint e m) = w_nextSession m" for e and m :: "('a, 'b) sessionManager"
      by (simp add: SetAgentStateEndpoint_def foldl_next)
    from run_next [OF _ this] show ?thesis by (auto simp: set_endpoint_def split: option.split)
  qed
  have m: "?n (set_manager k sz ssh s) = ?n s" for k sz ssh and s :: "('a, 'b) ui"
    by (simp add: set_manager_def upd_connection_def)
  have b: "?n (bindConnectionCallbacks k s) = ?n s" for k and s :: "('a, 'b) ui"
    by (auto simp: bindConnectionCallbacks_def SetSendExit_def SetSendOutput_def foldl_next upd_connection_def
        dest!: run_next split: option.split)
  have y: "?n (syncActiveConnectionFields rnd s) = ?n s" for rnd and s :: "('a, 'b) ui"
    by (simp add: syncActiveConnectionFields_def activeConnection_def sync_active_def addConnection_def Let_def)
  have f: "?n (foldl g s xs) = ?n s" if "\<And>s x. ?n (g s x) = ?n s" for g xs and s :: "('a, 'b) ui"
    using that by (induction xs arbitrary: s) simp_all
  show ?thesis
    using assms by (simp add: initManagers_def Let_def y) (simp add: rebindConnectionCallbacks_def f b e m)
qed

lemma demo_ids: "ids demo_ui = [cn_id (new_connection [1] (ascii ''a'')), cn_id (new_connection [2] (ascii ''b''))]"
  by (simp add: ids_def demo_ui_def)

lemma demo_started_next: "w_nextSession (ui_world demo_started) = 0"
  by (simp add: demo_started_def init_next) (simp add: demo_ui_def demo_world_def init_next)

lemma demo_started_empty: "session_lists demo_started = [[], []]"
proof -
  have ok: "ui_ok demo_started" by (rule reachable_ok [OF demo_start rtranclp.rtrancl_refl])
  have "ids demo_started = ids demo_ui" by (simp add: demo_started_def demo_ui_def init_ids)
  then have "length (ui_connections demo_started) = 2"
    by (metis ids_def demo_ids length_map length_Cons list.size(3) numeral_2_eq_2)
  moreover have "manager_sessions c = []" if "c \<in> set (ui_connections demo_started)" for c
    using ok that demo_started_next by (auto simp: ui_ok_def list_all_iff mgr_inv_def placed_def manager_sessions_def split: option.splits)
  ultimately show ?thesis
    by (auto simp: session_lists_def numeral_2_eq_2 length_Suc_conv)
qed

definition demo_created :: "(unit, unit) ui" where
  "demo_created = snd (the (handleControlRequest demo_ui_env demo_outside (ascii ''session.create'') demo_creation
     (ascii ''me'') demo_started))"

lemma demo_command: "trim_space (ascii ''sh'') \<noteq> []"
  by (simp add: trim_space_def Let_def space_rune_def trim_right_space.simps ends_in_space_def decode_lead_def)

lemma demo_create:
  "\<exists>v. handleControlRequest demo_ui_env demo_outside (ascii ''session.create'') demo_creation (ascii ''me'') demo_started
     = Some (Inr v, demo_created)"
proof -
  let ?C = "controlCreateSession demo_ui_env demo_outside demo_creation (ascii ''me'') demo_started"
  have ok: "ui_ok demo_started" by (rule reachable_ok [OF demo_start rtranclp.rtrancl_refl])
  have k: "0 < length (ui_connections demo_started)" by (rule conjunct1 [OF connectionByID_Some [OF demo_connections(1)]])
  obtain g where g: "cn_manager (connection_at demo_started 0) = Some g" "mgr_inv (load (ui_world demo_started) g)"
    by (rule ui_ok_manager [OF ok k])
  let ?p = "plain_params (ascii ''con_01'') [ascii ''sh'']"
  let ?m = "snd (NewConfigured (ue_emulator demo_ui_env) (os_random demo_outside) (cp_Cmd ?p) None (cp_Cwd ?p)
    (environment_of (cp_Env ?p)) (os_opened demo_outside) (load (ui_world demo_started) g))"
  let ?s1 = "put_manager 0 ?m demo_started"
  have opened: "os_opened demo_outside \<noteq> None" by (simp add: demo_outside_def)
  have c: "cp_ConnectionID ?p = ascii ''con_01''" "\<not> (case cp_Cmd ?p of [] \<Rightarrow> True | c # _ \<Rightarrow> trim_space c = [])" "cp_Cwd ?p = []"
    "cp_Env ?p = []" "backend_client demo_outside ?p = Inr None"
    "cp_Title ?p = []" "\<not> cp_Focus ?p" "cp_Cols ?p = 0"
    using demo_command by (simp_all add: plain_params_def backend_client_def Let_def)
  have "?C = created_session demo_ui_env demo_outside ?p (ascii ''me'') 0 (w_nextSession (ui_world demo_started)) ?s1"
  proof -
    have on: "on_manager 0 (NewConfigured (ue_emulator demo_ui_env) (os_random demo_outside) (cp_Cmd ?p) None (cp_Cwd ?p)
        (environment_of (cp_Env ?p)) (os_opened demo_outside)) demo_started =
        Some (Some (w_nextSession (ui_world demo_started)), ?s1)"
      by (simp only: on_manager_Some [OF g(1)] NewConfigured_new(1) [OF opened] load_simps)
    have none: "cn_manager (connection_at demo_started 0) \<noteq> None" "\<not> (cp_Cwd ?p \<noteq> [] \<and> \<not> has_prefix (cp_Cwd ?p) [slash])"
      "\<not> list_ex reserved_key (map fst (cp_Env ?p))" using g(1) c(3,4) by simp_all
    show ?thesis
      by (simp only: controlCreateSession_def demo_creation_decoded c(1,2,5) demo_connections(1) none on sum.case option.case
          prod.case if_False Option.bind.simps)
  qed
  also have "\<exists>v s'. \<dots> = Some (Inr v, s')"
  proof -
    have ok1: "ui_ok ?s1" by (rule put_manager_local_ok [OF ok k g(1) NewConfigured_local [OF g(2)]])
    have k1: "0 < length (ui_connections ?s1)" using k by simp
    show ?thesis by (simp only: created_plain [OF ok1 k1 c(6-8)] Let_def reply_def) blast
  qed
  finally show ?thesis
    by (auto simp: demo_created_def handleControlRequest_def)
qed

lemma demo_created_facts:
  "session_lists demo_created = [[0], []]" "ids demo_created = ids demo_started"
  "runtimeID (session_at demo_created 0) = newRuntimeID [7]" "generation (session_at demo_created 0) = 1"
  "map_option cm_createdBy (ui_controlSessions demo_created (newRuntimeID [7])) = Some (ascii ''me'')"
proof -
  obtain v where "controlCreateSession demo_ui_env demo_outside demo_creation (ascii ''me'') demo_started = Some (Inr v, demo_created)"
    using demo_create by (auto simp: handleControlRequest_def)
  then obtain p k m where dec: "decodeControl dec_createSession demo_creation = Inr p" "connectionByID (cp_ConnectionID p) demo_started = Some k"
    and m: "cm_createdBy m = ascii ''me''"
    and l: "session_lists demo_created = (session_lists demo_started)[k := session_lists demo_started ! k @ [w_nextSession (ui_world demo_started)]]"
    and r: "runtimeID (session_at demo_created (w_nextSession (ui_world demo_started))) = newRuntimeID (os_random demo_outside)"
    and g: "generation (session_at demo_created (w_nextSession (ui_world demo_started))) = 1"
    and c: "ui_controlSessions demo_created = (ui_controlSessions demo_started)(newRuntimeID (os_random demo_outside) \<mapsto> m)"
    and i: "ids demo_created = ids demo_started"
    by (rule creation_facts [OF reachable_ok [OF demo_start rtranclp.rtrancl_refl]]) blast
  have "cp_ConnectionID p = ascii ''con_01''" using dec(1) by (auto simp: demo_creation_decoded plain_params_def)
  then have "k = 0" using dec(2) demo_connections(1) by simp
  then show "session_lists demo_created = [[0], []]" using l by (simp add: demo_started_next demo_started_empty)
  show "ids demo_created = ids demo_started" by (rule i)
  have o: "os_random demo_outside = [7]" by (simp add: demo_outside_def)
  show "runtimeID (session_at demo_created 0) = newRuntimeID [7]" "generation (session_at demo_created 0) = 1"
    using r g by (simp_all add: demo_started_next o)
  show "map_option cm_createdBy (ui_controlSessions demo_created (newRuntimeID [7])) = Some (ascii ''me'')"
    using m by (simp add: c o)
qed

section \<open>Creation\<close>



end
