(* ===== verification/BackendSessions.thy ===== *)
theory BackendSessions
  imports BackendCreate
begin

text \<open>
  What happens to the sessions (\<open>src/pkg/ui/control.go\<close>): moving a session or removing a connection
  conserves them, the creator of a session is recorded once and for all, and replay gives back the
  output.
\<close>

declare runes_of.simps(2) [simp del]

section \<open>The lists of sessions\<close>

lemma same_managers_lists: "same_managers s s' \<Longrightarrow> session_lists s' = session_lists s"
proof -
  have "map manager_sessions xs = map (\<lambda>m. case m of None \<Rightarrow> [] | Some g \<Rightarrow> mg_sessions g) (map cn_manager xs)" for xs
    by (simp add: manager_sessions_def)
  then show "same_managers s s' \<Longrightarrow> session_lists s' = session_lists s"
    unfolding same_managers_def session_lists_def by metis
qed

lemma sync_lists:
  assumes "ui_ok s"
  shows "session_lists (syncActiveConnectionFields rnd s) = session_lists s"
    "ui_world (syncActiveConnectionFields rnd s) = ui_world s"
  using same_managers_lists [OF sync_active_core [OF assms]]
  by (simp_all add: syncActiveConnectionFields_def ok_active [OF assms]) (simp add: sync_active_def Let_def)

lemma lists_nth: "k < length (ui_connections s) \<Longrightarrow> session_lists s ! k = manager_sessions (connection_at s k)"
  by (simp add: session_lists_def connection_at_def)

lemma length_lists [simp]: "length (session_lists s) = length (ui_connections s)"
  by (simp add: session_lists_def)

text \<open>Removing a connection without sessions closes nothing.\<close>

lemma CloseAll_empty: "sessions m = [] \<Longrightarrow> same_world m (CloseAll m)"
  by (simp add: CloseAll_def same_world_def updateTerminalRepliesLocked_def)

lemma remove_at_update: "remove_at k (xs[k := y]) = remove_at k xs"
  by (simp add: remove_at_def)

lemma removeConnection_lists:
  assumes ok: "ui_ok s" and k: "k < length (ui_connections s)" and two: "1 < length (ui_connections s)"
  shows "session_lists (removeConnection E rnd (int k) s) = remove_at k (session_lists s)"
    "manager_sessions (connection_at s k) = [] \<Longrightarrow> same_processes s (removeConnection E rnd (int k) s)"
proof -
  obtain g where g: "cn_manager (connection_at s k) = Some g" "manager_sessions (connection_at s k) = mg_sessions g"
    "mgr_inv (load (ui_world s) g)" by (rule ui_ok_manager [OF ok k])
  define s1 where "s1 = put_manager k (CloseAll (load (ui_world s) g)) s"
  have ok1: "ui_ok s1" unfolding s1_def by (rule put_manager_local_ok [OF ok k g(1) CloseAll_local [OF g(3)]])
  have c1: "ui_connections s1 = (ui_connections s)[k := connection_at s1 k]"
    using k by (simp add: s1_def put_manager_def upd_connection_def connection_at_def)
  define cs where "cs = remove_at k (ui_connections s1)"
  define a where "a = (let a1 = (if int (length cs) \<le> ui_active s1 then int (length cs) - 1 else ui_active s1)
    in if a1 < 0 then 0 else a1)"
  have k1: "k < length (ui_connections s1)" using k by (simp add: s1_def)
  have lc: "length cs = length (ui_connections s) - 1" using k1 by (simp add: cs_def s1_def)
  have "in_range a cs" using two lc by (auto simp: a_def in_range_def Let_def)
  then have ok2: "ui_ok (s1\<lparr>ui_connections := cs, ui_active := a\<rparr>)"
    unfolding cs_def by (intro drop_connection_ok [OF ok1 k1]) simp
  have r: "removeConnection E rnd (int k) s = notifyMeta E (syncActiveConnectionFields rnd (s1\<lparr>ui_connections := cs, ui_active := a\<rparr>))"
    using k two by (simp add: removeConnection_def Let_def in_range_def run_manager_Some [OF g(1)] s1_def [symmetric]
        cs_def [symmetric] a_def)
  have "map manager_sessions cs = remove_at k (session_lists s)"
    using c1 by (simp add: cs_def session_lists_def remove_at_def take_map drop_map)
  then show "session_lists (removeConnection E rnd (int k) s) = remove_at k (session_lists s)"
    unfolding r by (simp add: same_managers_lists [OF notifyMeta_core] sync_lists [OF ok2]) (simp add: session_lists_def)
  assume "manager_sessions (connection_at s k) = []"
  then have "same_processes s s1"
    unfolding s1_def using g(2) CloseAll_empty [of "load (ui_world s) g"] by (intro put_manager_processes [of s g]) simp
  then show "same_processes s (removeConnection E rnd (int k) s)"
    unfolding r by (simp add: same_processes_def sync_lists [OF ok2])
qed

lemma move_all_lists:
  assumes "ui_ok s" and "k < length (ui_connections s)" and "j < length (ui_connections s)" and "j \<noteq> k"
  obtains s' where "move_all k j s = Some s'" and "ui_ok s'" and "length (ui_connections s') = length (ui_connections s)"
    and "manager_sessions (connection_at s' k) = []" and "same_processes s s'"
    and "session_lists s' = (session_lists s)[j := session_lists s ! j @ session_lists s ! k, k := []]"
proof -
  from move_all_moves [OF assms(1-3)] assms(4) obtain s' where s': "move_all k j s = Some s'" "ui_ok s'"
    "length (ui_connections s') = length (ui_connections s)" "manager_sessions (connection_at s' k) = []"
    "manager_sessions (connection_at s' j) = manager_sessions (connection_at s j) @ manager_sessions (connection_at s k)"
    "\<forall>i. i \<noteq> k \<longrightarrow> i \<noteq> j \<longrightarrow> connection_at s' i = connection_at s i" "same_processes s s'" by blast
  have "session_lists s' = (session_lists s)[j := session_lists s ! j @ session_lists s ! k, k := []]"
  proof (rule nth_equalityI)
    show "length (session_lists s') = length ((session_lists s)[j := session_lists s ! j @ session_lists s ! k, k := []])"
      using s'(3) by simp
    fix i
    assume "i < length (session_lists s')"
    then show "session_lists s' ! i = (session_lists s)[j := session_lists s ! j @ session_lists s ! k, k := []] ! i"
      using s'(3-6) assms by (auto simp: lists_nth nth_list_update)
  qed
  with s' that show ?thesis by blast
qed

text \<open>
  C8. Removing a connection with the policy \<open>move\<close> always comes to its end and loses nothing: the sessions
  of the removed connection follow those of the target, in order, the other connections keep
  theirs, and no session notices: its process, channel, screen and read loop stay as they were.
\<close>

theorem removed_connection_hands_over:
  assumes "ui_start rnd c r s0 = Some s1" and "(ui_step E)\<^sup>*\<^sup>* s1 s"
    and "decodeControl dec_removal raw = Inr (i, ascii ''move'', t)"
    and "connectionByID i s = Some k" and "connectionByID t s = Some j" and "j \<noteq> k"
  shows "\<exists>v s'. handleControlRequest E U (ascii ''connection.remove'') raw ctl s = Some (Inr v, s') \<and>
    session_lists s' = remove_at k ((session_lists s)[j := session_lists s ! j @ session_lists s ! k]) \<and>
    same_processes s s'"
proof -
  note ok = reachable_ok [OF assms(1,2)]
  have k: "k < length (ui_connections s)" and j: "j < length (ui_connections s)"
    using assms(4,5) by (simp_all add: connectionByID_Some)
  then have two: "1 < length (ui_connections s)" using assms(6) by linarith
  obtain s' where s': "move_all k j s = Some s'" "ui_ok s'" "length (ui_connections s') = length (ui_connections s)"
    "manager_sessions (connection_at s' k) = []" "same_processes s s'"
    "session_lists s' = (session_lists s)[j := session_lists s ! j @ session_lists s ! k, k := []]"
    by (rule move_all_lists [OF ok k j assms(6)])
  have mgr: "cn_manager (connection_at s k) \<noteq> None" using ok k by (auto simp: ui_ok_iff)
  define s2 where "s2 = removeConnection E (os_random U) (int k) s'"
  have l: "session_lists s2 = remove_at k (session_lists s')" and p: "same_processes s' s2"
    unfolding s2_def using removeConnection_lists [OF s'(2), of k] s'(3,4) k two by simp_all
  define s3 where "s3 = publishControlEvent ''session.lifecycle'' ''connection.removed'' [] 0
    [(''connectionId'', GStr (cn_id (connection_at s' k)))] s2"
  have "handleControlRequest E U (ascii ''connection.remove'') raw ctl s =
      Some (Inr (GMap (gofields [(''removed'', GBool True)])), s3)"
    using two by (simp add: handleControlRequest_def controlRemoveConnection_def assms(3-6) mgr s'(1)
        finish_removal_def Let_def s2_def [symmetric] s3_def [symmetric] reply_def)
  moreover have "session_lists s3 = remove_at k ((session_lists s)[j := session_lists s ! j @ session_lists s ! k])"
    using l s'(6) by (simp add: s3_def remove_at_update same_managers_lists [OF publish_core])
  moreover have "same_processes s s3"
    using same_processes_trans [OF s'(5) p] by (simp add: s3_def same_processes_def)
  ultimately show ?thesis by blast
qed

definition demo_removal :: raw where
  "demo_removal = Some (JObj [(ascii ''connectionId'', JStr (ascii ''con_01'')), (ascii ''sessionPolicy'', JStr (ascii ''move'')),
     (ascii ''targetConnectionId'', JStr (ascii ''con_02''))])"

lemma demo_removal_decoded: "decodeControl dec_removal demo_removal = Inr (ascii ''con_01'', ascii ''move'', ascii ''con_02'')"
  by (simp add: decodeControl_def raw_members_def dec_removal_def demo_removal_def members_def field_def key_simps dec_str_def)

theorem removed_connection_hands_over_witness:
  "\<exists>v s'. handleControlRequest demo_ui_env demo_outside (ascii ''connection.remove'') demo_removal [] demo_started = Some (Inr v, s') \<and>
    session_lists s' = remove_at 0 ((session_lists demo_started)[1 := session_lists demo_started ! 1 @ session_lists demo_started ! 0]) \<and>
    same_processes demo_started s'"
  by (rule removed_connection_hands_over [OF demo_start rtranclp.rtrancl_refl demo_removal_decoded demo_connections]) simp

section \<open>Moving one session\<close>

lemma clear_lists:
  assumes "ui_ok s"
  shows "session_lists (clearConnectionViewports U k s) = session_lists s" "ui_world (clearConnectionViewports U k s) = ui_world s"
  using assms by (simp_all add: clearConnectionViewports_def ok_active sync_lists)

text \<open>
  C30. A session that is moved to another connection leaves its own and is put at the position asked for,
  or last when there is no such position; all others keep their connection and order, and the session
  runs on.
\<close>

theorem moved_session_arrives:
  assumes "ui_start rnd c r s0 = Some s1" and "(ui_step E)\<^sup>*\<^sup>* s1 s"
    and "controlSessionFromParams raw True s = Inr (sid, k, gen)"
    and "connectionByID (lax_str ''connectionId'' raw) s = Some j" and "j \<noteq> k"
  shows "\<exists>v s'. handleControlRequest E U (ascii ''session.move'') raw ctl s = Some (Inr v, s') \<and>
    session_lists s' = (session_lists s)[k := remove1 sid (session_lists s ! k),
      j := (let xs = session_lists s ! j; n = int (length xs); pos = lax_int ''position'' raw
            in insert_at (nat (if pos < 0 \<or> n < pos then n else pos)) sid xs)] \<and>
    same_processes s s'"
proof -
  note ok = reachable_ok [OF assms(1,2)]
  note at = session_from_params [OF assms(3)]
  have j: "j < length (ui_connections s)" using assms(4) by (simp add: connectionByID_Some)
  then have mgr: "cn_manager (connection_at s j) \<noteq> None" using ok by (auto simp: ui_ok_iff)
  let ?pos = "lax_int ''position'' raw"
  obtain s2 where t: "transfer_session k j sid ?pos s = Some s2" "ui_ok s2"
    "length (ui_connections s2) = length (ui_connections s)"
    "manager_sessions (connection_at s2 k) = remove1 sid (manager_sessions (connection_at s k))"
    "manager_sessions (connection_at s2 j) =
      (let xs = manager_sessions (connection_at s j); n = int (length xs)
       in insert_at (nat (if ?pos < 0 \<or> n < ?pos then n else ?pos)) sid xs)"
    "\<forall>i. i \<noteq> k \<longrightarrow> i \<noteq> j \<longrightarrow> connection_at s2 i = connection_at s i" "same_processes s s2"
    using transfer_across [OF ok at(1,2) j assms(5), of ?pos] by blast
  have l: "session_lists s2 = (session_lists s)[k := remove1 sid (session_lists s ! k),
      j := (let xs = session_lists s ! j; n = int (length xs)
            in insert_at (nat (if ?pos < 0 \<or> n < ?pos then n else ?pos)) sid xs)]" (is "_ = ?new")
  proof (rule nth_equalityI)
    show "length (session_lists s2) = length ?new" using t(3) by simp
    fix i
    assume "i < length (session_lists s2)"
    then show "session_lists s2 ! i = ?new ! i"
      using t(3-6) at(1) j assms(5) by (auto simp: lists_nth nth_list_update)
  qed
  define s3 where "s3 = clearConnectionViewports U j (clearConnectionViewports U k s2)"
  have l3: "session_lists s3 = session_lists s2" "ui_world s3 = ui_world s2"
    by (simp_all add: s3_def clear_lists t(2) clear_ok)
  define s4 where "s4 = publishSessionEvent ''session.metadata'' ''session.moved'' sid
    [(''connectionId'', GStr (cn_id (connection_at s3 j))), (''position'', gint (index (session_at s3 sid)))] (notifyMeta E s3)"
  have "handleControlRequest E U (ascii ''session.move'') raw ctl s = Some (Inr (session_result E j sid s4), s4)"
  proof -
    have "handleControlRequest E U (ascii ''session.move'') raw ctl s = controlMoveSession E U raw s"
      by (simp add: handleControlRequest_def)
    then show ?thesis
      by (simp only: controlMoveSession_def with_session_def assms(3,4) sum.case prod.case option.case mgr if_False t(1)
          Option.bind.simps moved_session_def Let_def s3_def [symmetric] s4_def [symmetric] reply_def)
  qed
  moreover have "session_lists s4 = session_lists s2"
    by (simp add: s4_def same_managers_lists [OF publishSession_core] same_managers_lists [OF notifyMeta_core] l3)
  moreover have "same_processes s s4" using t(7) l3 by (simp add: s4_def same_processes_def)
  ultimately show ?thesis using l by (simp add: Let_def)
qed

definition demo_move :: raw where
  "demo_move = Some (JObj [(ascii ''sessionId'', JStr (newRuntimeID [7])), (ascii ''generation'', JInt 1),
     (ascii ''connectionId'', JStr (ascii ''con_02''))])"

lemma demo_move_decoded:
  "decodeControl sessionRefParams demo_move = Inr (newRuntimeID [7], 1)" "lax_str ''connectionId'' demo_move = ascii ''con_02''"
  "lax_int ''position'' demo_move = 0"
  by (simp_all add: decodeControl_def raw_members_def sessionRefParams_def demo_move_def members_def field_def field_value_def
      some_members_def key_simps dec_str_def dec_uint64_def)

lemma demo_move_session: "controlSessionFromParams demo_move True demo_created = Inr (0, 0, 1)"
proof -
  obtain k where k: "find_session (ui_world demo_created) (newRuntimeID [7]) (ui_connections demo_created) = Some (0, k)"
    using find_session_lists [of 0 demo_created "newRuntimeID [7]"] by (auto simp: demo_created_facts)
  then have r: "controlSessionFromParams demo_move True demo_created = Inr (0, k, 1)"
    by (simp add: controlSessionFromParams_def demo_move_decoded demo_created_facts)
  have "k < length (session_lists demo_created)" "0 \<in> set (session_lists demo_created ! k)"
    using session_from_params [OF r] by (simp_all add: lists_nth)
  then have "k = 0" by (cases k) (auto simp: demo_created_facts less_Suc_eq)
  with r show ?thesis by simp
qed

theorem moved_session_arrives_witness:
  "\<exists>v s'. handleControlRequest demo_ui_env demo_outside (ascii ''session.move'') demo_move [] demo_created = Some (Inr v, s') \<and>
    session_lists s' = [[], [0]] \<and> same_processes demo_created s'"
proof -
  obtain v where "handleControlRequest demo_ui_env demo_outside (ascii ''session.create'') demo_creation (ascii ''me'') demo_started
      = Some (Inr v, demo_created)" using demo_create by blast
  then have reach: "(ui_step demo_ui_env)\<^sup>*\<^sup>* demo_started demo_created"
    by (intro r_into_rtranclp ui_step.request)
  have "connectionByID (lax_str ''connectionId'' demo_move) demo_created = Some 1"
    using demo_connections(2) connectionByID_ids [OF demo_created_facts(2)] by (simp only: demo_move_decoded)
  from moved_session_arrives [OF demo_start reach demo_move_session this, of demo_outside "[]"]
  show ?thesis by (simp add: demo_created_facts demo_move_decoded insert_at_def Let_def)
qed

section \<open>Replay\<close>

lemma last_n_length: "length (last_n n xs) = min n (length xs)"
  by (simp add: last_n_def)

lemma last_n_drop: "last_n n xs = drop (length xs - length (last_n n xs)) xs"
  by (simp add: last_n_def min_def)

text \<open>What a replay answers when the numbers and the history belong together.\<close>

lemma replay_exact:
  assumes ref: "controlSessionFromParams raw True s = Inr (sid, k, gen)"
    and hist: "RawSnapshot (screen_of s sid) = last_n maxScrollback out"
    and num: "outputSequence (session_at s sid) = of_nat (length out)" and big: "length out < 2 ^ 64"
    and q: "field_value dec_uint64 0 (ascii ''sequence'') (some_members raw) = of_nat q" "q < 2 ^ 64"
  shows "controlReplay raw s =
    (if length out < q then fail ''invalid_argument'' ''sequence exceeds current output'' s
     else if q + min maxScrollback (length out) < length out then
       Some (Inl \<lparr>err_Code = ascii ''output_gap'', err_Message = ascii ''requested output is no longer retained'',
         err_Details = gofields [(''requestedSequence'', GUint (of_nat q)),
           (''availableSequence'', GUint (of_nat (length out - maxScrollback)))]\<rparr>, s)
     else reply (GMap (gofields [(''data'', GBytes (drop q out)), (''sequence'', GUint (of_nat q)),
       (''generation'', GUint gen)])) s)"
proof -
  let ?d = "last_n maxScrollback out"
  define a where "a = length out - length ?d"
  have d: "length ?d = min maxScrollback (length out)" by (rule last_n_length)
  have a: "(of_nat (length out) - of_nat (length ?d) :: 64 word) = of_nat a"
    by (simp add: a_def d of_nat_diff)
  have ab: "a < 2 ^ 64" using big by (simp add: a_def)
  have cmp: "(of_nat x < (of_nat y :: 64 word)) = (x < y)" if "x < 2 ^ 64" "y < 2 ^ 64" for x y
    using that by (simp add: word_less_nat_alt unat_of_nat)
  have raw: "controlReplay raw s =
    (if (of_nat q :: 64 word) < of_nat a then
       Some (Inl \<lparr>err_Code = ascii ''output_gap'', err_Message = ascii ''requested output is no longer retained'',
         err_Details = gofields [(''requestedSequence'', GUint (of_nat q)), (''availableSequence'', GUint (of_nat a))]\<rparr>, s)
     else if (of_nat (length out) :: 64 word) < of_nat q then fail ''invalid_argument'' ''sequence exceeds current output'' s
     else if length ?d < unat (of_nat q - of_nat a :: 64 word) then None
     else reply (GMap (gofields [(''data'', GBytes (drop (unat (of_nat q - of_nat a :: 64 word)) ?d)),
       (''sequence'', GUint (of_nat q)), (''generation'', GUint gen)])) s)"
    by (simp only: controlReplay_def with_session_def ref sum.case prod.case Let_def hist num q(1) a)
  show ?thesis
  proof (cases "q < a")
    case True
    then have g: "q + min maxScrollback (length out) < length out" "\<not> length out < q"
      and am: "length out - maxScrollback = a" by (auto simp: a_def d)
    have c: "(of_nat q :: 64 word) < of_nat a" using True cmp [OF q(2) ab] by simp
    show ?thesis unfolding raw am by (simp only: g c if_True if_False)
  next
    case False
    then have g: "\<not> q + min maxScrollback (length out) < length out" by (auto simp: a_def d)
    have na: "\<not> (of_nat q < (of_nat a :: 64 word))" using False cmp [OF q(2) ab] by simp
    show ?thesis
    proof (cases "length out < q")
      case True
      then have "(of_nat (length out) < (of_nat q :: 64 word))" using cmp [OF big q(2)] by simp
      with True na show ?thesis unfolding raw by simp
    next
      case le: False
      have nn: "\<not> (of_nat (length out) < (of_nat q :: 64 word))" using le cmp [OF big q(2)] by simp
      have "(of_nat q - of_nat a :: 64 word) = of_nat (q - a)" using False by (simp add: of_nat_diff)
      then have off: "unat (of_nat q - of_nat a :: 64 word) = q - a" using q(2) by (simp add: unat_of_nat)
      have le_d: "\<not> length ?d < q - a" using le by (auto simp: a_def d min_def)
      have dr: "drop (q - a) ?d = drop q out"
      proof -
        have "drop (q - a) ?d = drop (q - a) (drop a out)" using last_n_drop [of maxScrollback out] by (simp add: a_def)
        also have "\<dots> = drop q out" using False by simp
        finally show ?thesis .
      qed
      show ?thesis unfolding raw off by (simp only: na nn g le le_d dr if_False)
    qed
  qed
qed

text \<open>
  A chunk that is on the screen but has no number yet spoils the arithmetic: while the history is not
  full, every request is answered with a gap.
\<close>

lemma replay_during_capture:
  assumes ref: "controlSessionFromParams raw True s = Inr (sid, k, gen)"
    and hist: "RawSnapshot (screen_of s sid) = out @ chunk" and "chunk \<noteq> []"
    and num: "outputSequence (session_at s sid) = of_nat (length out)" and small: "length (out @ chunk) < 2 ^ 63"
    and q: "field_value dec_uint64 0 (ascii ''sequence'') (some_members raw) = of_nat q" "q \<le> length out"
  shows "\<exists>e. controlReplay raw s = Some (Inl e, s) \<and> err_Code e = ascii ''output_gap''"
proof -
  have "(of_nat (length out) - of_nat (length (out @ chunk)) :: 64 word) = - of_nat (length chunk)" by simp
  moreover have "of_nat q < (- of_nat (length chunk) :: 64 word)"
  proof -
    have "length chunk \<noteq> 0" using assms(3) by simp
    moreover have "(of_nat (2 ^ 64 - length chunk) :: 64 word) = of_nat (2 ^ 64) - of_nat (length chunk)"
      by (rule of_nat_diff) (use small in simp)
    then have "(- of_nat (length chunk) :: 64 word) = of_nat (2 ^ 64 - length chunk)" by simp
    moreover have "unat (of_nat (2 ^ 64 - length chunk) :: 64 word) = (2 ^ 64 - length chunk) mod 2 ^ 64"
      unfolding unat_of_nat by simp
    ultimately have "unat (- of_nat (length chunk) :: 64 word) = 2 ^ 64 - length chunk" by simp
    moreover have "unat (of_nat q :: 64 word) = q" using q(2) small by (simp add: unat_of_nat)
    ultimately show ?thesis using q(2) small by (simp add: word_less_nat_alt)
  qed
  ultimately have lt: "(of_nat q :: 64 word) < of_nat (length out) - of_nat (length (out @ chunk))" by simp
  show ?thesis
    by (simp only: controlReplay_def with_session_def ref sum.case prod.case Let_def hist num q(1) lt if_True) auto
qed

end
