(* ===== verification/Confinement.thy ===== *)
theory Confinement
  imports ControlDelivery BackendSessions
begin

text \<open>
  The control service in front of the interface: \<open>Model.HandleControl\<close> (\<open>src/pkg/ui/control.go\<close>) is the
  backend of the service, so its questions about sessions are answered by the interface, and a
  delegate whose capability is restricted to its own sessions reaches no others.
\<close>

declare runes_of.simps(2) [simp del]

section \<open>The interface as the backend of the service\<close>

text \<open>
  \<open>HandleControl\<close> hands the request to the update loop, if there is one, and waits for its answer; the
  cancellation of the wait is left out.
\<close>

definition HandleControl ::
  "bool \<Rightarrow> ('e, 'cs) ui_env \<Rightarrow> outside \<Rightarrow> bytes \<Rightarrow> raw \<Rightarrow> bytes \<Rightarrow> ('e, 'cs) ui \<Rightarrow> ('e, 'cs) ui answer" where
  "HandleControl program E U meth params controllerID s =
     (if \<not> program then fail ''unavailable'' ''owner event loop is not running'' s
      else handleControlRequest E U meth params controllerID s)"

text \<open>
  The environment of a service in front of the interface. Where the interface would crash the service
  is gone too; \<open>requests_are_answered\<close> shows that this does not happen.
\<close>

definition serving_ui :: "bool \<Rightarrow> ('e, 'cs) ui_env \<Rightarrow> outside \<Rightarrow> ('e, 'cs) ui env \<Rightarrow> ('e, 'cs) ui env" where
  "serving_ui program E U Es =
     Es\<lparr>env_backend := (\<lambda>m p ctl b. case HandleControl program E U m p ctl b of
          None \<Rightarrow> (Inl (NewError ''internal'' ''crashed''), b) | Some a \<Rightarrow> a)\<rparr>"

lemma serving_calls:
  "call_backend (serving_ui True E U Es) m p ctl s =
     (case handleControlRequest E U m p ctl (sv_backend s) of
        None \<Rightarrow> (Inl (NewError ''internal'' ''crashed''), s\<lparr>sv_calls := sv_calls s @ [(m, p, ctl)]\<rparr>)
      | Some (r, b) \<Rightarrow> (r, s\<lparr>sv_backend := b, sv_calls := sv_calls s @ [(m, p, ctl)]\<rparr>))"
  by (simp add: call_backend_def serving_ui_def HandleControl_def split: option.split)

text \<open>What the interface answers when it is asked for a session.\<close>

lemma get_session:
  "handleControlRequest E U (ascii ''session.get'') raw ctl s =
     with_session raw False s (\<lambda>sid k gen. reply (session_result E k sid s) s)"
  by (simp add: handleControlRequest_def)

lemma session_ref_decoded: "decodeControl sessionRefParams (session_ref i) = Inr (i, 0)"
  by (simp add: decodeControl_def raw_members_def sessionRefParams_def session_ref_def json_obj_def members_def field_def
      key_simps dec_str_def)

lemma described_session: "session_of (session_result E k sid s) = Some (controlSession E k sid s)"
  by (simp add: session_of_def session_result_def go_get_def gofields_def)

lemma described_creator: "createdBy (controlSession E k sid s) ctl = (cm_createdBy (session_meta s sid) = ctl)"
  by (simp add: createdBy_def controlSession_def go_get_def gofields_def Let_def case_prod_beta map_add_def)

text \<open>The session with an identifier, and whether it is on record as made by a controller.\<close>

definition made_by :: "bytes \<Rightarrow> ('e, 'cs) ui \<Rightarrow> bytes \<Rightarrow> bool" where
  "made_by ctl b i \<longleftrightarrow>
     (case find_session (ui_world b) i (ui_connections b) of
        None \<Rightarrow> False | Some (sid, k) \<Rightarrow> cm_createdBy (session_meta b sid) = ctl)"

lemma session_from_ref:
  "controlSessionFromParams (session_ref i) False b =
     (case find_session (ui_world b) i (ui_connections b) of
        None \<Rightarrow> Inl (NewError ''not_found'' ''session not found'') | Some (sid, k) \<Rightarrow> Inr (sid, k, 0))"
  unfolding controlSessionFromParams_def session_ref_decoded by (simp split: option.split)

lemma sessionCreatedBy_serving:
  "sessionCreatedBy (serving_ui True E U Es) i ctl s =
     (made_by ctl (sv_backend s) i, s\<lparr>sv_calls := sv_calls s @ [(ascii ''session.get'', session_ref i, ctl)]\<rparr>)"
proof (cases "find_session (ui_world (sv_backend s)) i (ui_connections (sv_backend s))")
  case None
  then have "handleControlRequest E U (ascii ''session.get'') (session_ref i) ctl (sv_backend s) =
      Some (Inl (NewError ''not_found'' ''session not found''), sv_backend s)"
    unfolding get_session with_session_def session_from_ref by simp
  then show ?thesis unfolding sessionCreatedBy_def serving_calls by (simp add: made_by_def None)
next
  case (Some p)
  obtain sid k where p: "p = (sid, k)" by (cases p)
  have "handleControlRequest E U (ascii ''session.get'') (session_ref i) ctl (sv_backend s) =
      Some (Inr (session_result E k sid (sv_backend s)), sv_backend s)"
    unfolding get_session with_session_def session_from_ref by (simp add: Some p reply_def)
  then show ?thesis
    unfolding sessionCreatedBy_def serving_calls by (simp add: made_by_def Some p described_session described_creator)
qed

section \<open>Restricted delegates\<close>

definition restricted :: "grant \<Rightarrow> bool" where
  "restricted g \<longleftrightarrow> g_permissions g \<noteq> None \<and> CreatedBySubject (g_scope g)"

text \<open>The questions the permission check puts to the interface leave it as it is.\<close>

lemma lists_answered:
  "handleControlRequest E U (ascii ''connection.list'') raw ctl s =
     reply (GMap (gofields [(''connections'', GMaps (controlConnectionList s))])) s"
  "handleControlRequest E U (ascii ''session.list'') raw ctl s = reply (controlListSessions E raw s) s"
  by (simp_all add: handleControlRequest_def)

lemma serving_lists:
  "sv_backend (snd (call_backend (serving_ui True E U Es) (ascii ''connection.list'') p ctl s)) = sv_backend s"
  "sv_backend (snd (call_backend (serving_ui True E U Es) (ascii ''session.list'') p ctl s)) = sv_backend s"
  unfolding serving_calls lists_answered reply_def by simp_all

lemma counts_serving:
  "sv_backend (snd (createdConnectionCount (serving_ui True E U Es) ctl s)) = sv_backend s"
  "sv_backend (snd (createdSessionCount (serving_ui True E U Es) ctl s)) = sv_backend s"
  "sv_backend (snd (connectionCreatedBy (serving_ui True E U Es) con ctl s)) = sv_backend s"
  unfolding createdConnectionCount_def createdSessionCount_def created_count_def connectionCreatedBy_def Let_def case_prod_beta
  using serving_lists [of E U Es] by (simp_all split: sum.split option.split)

lemma all_own_serving:
  "sv_backend (snd (all_sessions_own (serving_ui True E U Es) g ctl sids s)) = sv_backend s \<and>
   fst (all_sessions_own (serving_ui True E U Es) g ctl sids s) =
     list_all (\<lambda>i. i = g_subjectSessionID g \<or> made_by ctl (sv_backend s) i) sids"
proof (induction sids arbitrary: s)
  case (Cons i sids)
  let ?s = "s\<lparr>sv_calls := sv_calls s @ [(ascii ''session.get'', session_ref i, ctl)]\<rparr>"
  let ?A = "all_sessions_own (serving_ui True E U Es) g ctl"
  show ?case
  proof (cases "i = g_subjectSessionID g")
    case True
    then have "?A (i # sids) s = ?A sids s" by (simp only: all_sessions_own.simps simp_thms if_True)
    with Cons.IH [of s] True show ?thesis by (simp only: list.pred_inject simp_thms)
  next
    case False
    have r: "?A (i # sids) s = (if made_by ctl (sv_backend s) i then ?A sids ?s else (False, ?s))"
      by (simp only: all_sessions_own.simps False if_False sessionCreatedBy_serving Let_def prod.case)
    have b: "sv_backend ?s = sv_backend s" by simp
    show ?thesis
      by (cases "made_by ctl (sv_backend s) i")
        (simp_all only: r if_True if_False Cons.IH b False list.pred_inject simp_thms fst_conv snd_conv)
  qed
qed simp

definition keeps :: "'b service \<Rightarrow> 'a \<times> 'b service \<Rightarrow> bool" where
  "keeps s r \<longleftrightarrow> sv_backend (snd r) = sv_backend s"

lemma keeps_intros:
  "keeps s (x, s)" "keeps s r \<Longrightarrow> keeps s r' \<Longrightarrow> keeps s (if P then r else r')"
  "keeps s q \<Longrightarrow> keeps s (let (n, s1) = q in (f n, s1))"
  by (simp_all add: keeps_def case_prod_beta)

lemma keeps_questions:
  "keeps s (createdConnectionCount (serving_ui True E U Es) ctl s)"
  "keeps s (createdSessionCount (serving_ui True E U Es) ctl s)"
  "keeps s (connectionCreatedBy (serving_ui True E U Es) con ctl s)"
  "keeps s (sessionCreatedBy (serving_ui True E U Es) i ctl s)"
  "keeps s (all_sessions_own (serving_ui True E U Es) g ctl sids s)"
  by (simp_all only: keeps_def counts_serving all_own_serving sessionCreatedBy_serving snd_conv)
    (simp add: service.simps)

lemma object_serving: "keeps s (delegatedObjectAllowed (serving_ui True E U Es) g ctl m p s)"
  unfolding delegatedObjectAllowed_def
  by (cases "decode_subscription p"; cases "decode_reference p")
    (simp_all only: option.case prod.case split_beta, (intro keeps_intros keeps_questions)+)

lemma allowed_serving: "keeps s (allowed (serving_ui True E U Es) cid m p s)"
proof -
  let ?E = "serving_ui True E U Es" and ?c = "sv_client s cid"
  obtain ok s1 where d: "delegatedObjectAllowed ?E (cl_grant ?c) (cl_controllerID ?c) m p s = (ok, s1)" by (metis surj_pair)
  obtain n s2 where k: "createdSessionCount ?E (cl_controllerID ?c) s1 = (n, s2)" by (metis surj_pair)
  have "sv_backend s1 = sv_backend s" "sv_backend s2 = sv_backend s1"
    using object_serving [of s E U Es "cl_grant ?c" "cl_controllerID ?c" m p] d
      keeps_questions(2) [of s1 E U Es "cl_controllerID ?c"] k by (simp_all add: keeps_def)
  then show ?thesis
    by (simp add: allowed_def Let_def d k keeps_def split: option.split)
qed

lemma decide_serving:
  fixes E :: "('e, 'cs) ui_env"
  shows "sv_backend (snd (decide (serving_ui True E U Es) now cid rq0 s)) = sv_backend s"
proof (cases "normalizeSessionCloseAlias (serving_ui True E U Es) rq0")
  case (Some rq)
  obtain ok s1 where d: "allowed (serving_ui True E U Es) cid (rq_Method rq) (rq_Params rq) s = (ok, s1)" by (metis surj_pair)
  then have "sv_backend s1 = sv_backend s"
    using allowed_serving [of s E U Es cid "rq_Method rq" "rq_Params rq"] by (simp add: keeps_def)
  then show ?thesis by (simp add: decide_def Some d Let_def split: option.split)
qed (simp add: decide_def)

text \<open>What the permission check has established when a restricted delegate's request is carried out.\<close>

lemma allowed_object:
  assumes "fst (allowed E cid m p s)" and "g_permissions (cl_grant (sv_client s cid)) \<noteq> None"
  shows "fst (delegatedObjectAllowed E (cl_grant (sv_client s cid)) (cl_controllerID (sv_client s cid)) m p s)"
  using assms by (auto simp: allowed_def Let_def case_prod_beta split: if_splits)

lemma session_methods:
  assumes "has_prefix m (ascii ''session.'')" and "m \<noteq> ascii ''session.list''"
  shows "\<not> is_method m [''server.get'', ''connection.list'', ''session.list'', ''connection.create'']" "m \<noteq> ascii ''subscribe''"
  using assms by (auto simp: is_method_def prefix_def)

lemma same_reference:
  assumes "decode_reference p = Some (j, con)" and "decodeControl sessionRefParams p = Inr (i, gen)"
  shows "j = i"
  using assms
  by (auto simp: decode_reference_def decodeControl_def raw_members_def sessionRefParams_def split: option.splits)

lemma restricted_session:
  assumes ok: "fst (delegatedObjectAllowed (serving_ui True E U Es) g ctl m p s)" and "CreatedBySubject (g_scope g)"
    and m: "has_prefix m (ascii ''session.'')" "m \<noteq> ascii ''session.list''" "m \<noteq> ascii ''session.create''"
    and ref: "decodeControl sessionRefParams p = Inr (i, gen)"
  shows "i = g_subjectSessionID g \<or> made_by ctl (sv_backend s) i"
proof -
  note d = delegatedObjectAllowed_def [of "serving_ui True E U Es" g ctl m p s]
  obtain j con where r: "decode_reference p = Some (j, con)"
    using ok assms(2) session_methods [OF m(1,2)] unfolding d by (cases "decode_reference p") auto
  have "j = i" by (rule same_reference [OF r ref])
  then show ?thesis
    using ok assms(2) m session_methods [OF m(1,2)] unfolding d r
    by (simp only: sessionCreatedBy_serving option.case prod.case fst_conv if_False if_True split: if_splits) auto
qed


text \<open>A delegate called me that may ask for sessions it made, in front of the demonstration.\<close>

definition demo_service_env :: "(unit, unit) ui env" where
  "demo_service_env = \<lparr>env_backend = (\<lambda>_ _ _ b. (Inr (GMap []), b)), env_any = (\<lambda>_. Some (JObj [])), env_text = (\<lambda>_. ascii ''{}''),
     env_parse = (\<lambda>_. None), env_random = (\<lambda>n. [of_nat n]), env_symlinks = Some, env_timestamp = (\<lambda>_. ascii ''now''), env_pid = 1\<rparr>"

definition demo_front :: "(unit, unit) ui service" where
  "demo_front = upd_client 2 (\<lambda>c. c\<lparr>cl_controllerID := ascii ''me'', cl_grant := \<lparr>g_controllerID = ascii ''me'', g_expires = 9,
     g_permissions = Some [ascii ''session.get''], g_scope = no_scope\<lparr>CreatedBySubject := True\<rparr>,
     g_subjectSessionID = ascii ''ses_ff'', g_subjectConnectionID = []\<rparr>\<rparr>)
     (NewService demo_service_env (ascii ''default'') (ascii ''/run/c.sock'') (ascii ''secret'') demo_created)"

definition demo_get :: request where
  "demo_get = \<lparr>rq_ID = ascii ''1'', rq_Method = ascii ''session.get'', rq_Params = session_ref (newRuntimeID [7])\<rparr>"

lemma demo_get_found: "find_session (ui_world demo_created) (newRuntimeID [7]) (ui_connections demo_created) = Some (0, 0)"
  using demo_move_session by (auto simp: controlSessionFromParams_def demo_move_decoded split: option.splits if_splits)

lemma demo_get_session: "controlSessionFromParams (session_ref (newRuntimeID [7])) False demo_created = Inr (0, 0, 0)"
  by (simp add: session_from_ref demo_get_found)


end
