(* ===== verification/Owner.thy ===== *)
theory Owner
  imports Frame GoPath Json Osc52
begin

text \<open>
  The attach server of one terminal (\<open>src/pkg/localserver/server_unix.go\<close>, \<open>protocol.go\<close>,
  \<open>lb_status.go\<close>, \<open>fanout.go\<close>, \<open>path.go\<close>): the sockets in their directory, the clients attached to
  the owner, and the side of a client. Outside the model, as parameters: the text of JSON, the files
  and whether a connection still takes bytes.
\<close>

declare runes_of.simps(2) [simp del]

section \<open>Names\<close>

definition sanitize_name :: "bytes \<Rightarrow> bytes" where
  "sanitize_name s = sanitize_from False s"

text \<open>
  \<open>SocketDir\<close>: what the system says of the directory: making it worked or it existed, its kind, owner
  and permissions, and whether they could be set.
\<close>

record dir_info =
  di_made :: bool
  di_stat :: "(bool \<times> nat \<times> nat) option"
  di_chmod :: bool

definition owner_only :: nat where "owner_only = 0x1C0"

definition SocketDir :: "bytes \<Rightarrow> nat \<Rightarrow> dir_info \<Rightarrow> bytes option" where
  "SocketDir tmp uid d =
     (if \<not> di_made d then None
      else (case di_stat d of
              None \<Rightarrow> None
            | Some (isdir, owner, perm) \<Rightarrow>
                (if \<not> isdir then None
                 else if owner \<noteq> uid then None
                 else if perm \<noteq> owner_only \<and> \<not> di_chmod d then None
                 else Some (filepath_Clean (tmp @ [slash] @ ascii ''multicrum-'' @ decimal uid)))))"

definition SocketPath :: "bytes option \<Rightarrow> bytes \<Rightarrow> bytes option" where
  "SocketPath dir server =
     (if sanitize_name server = [] then None
      else map_option (\<lambda>d. filepath_Clean (d @ [slash] @ sanitize_name server @ ascii ''.sock'')) dir)"

definition LogPath :: "bytes option \<Rightarrow> bytes \<Rightarrow> bytes option" where
  "LogPath dir server =
     (if sanitize_name server = [] then None
      else map_option (\<lambda>d. filepath_Clean (d @ [slash] @ sanitize_name server @ ascii ''.log'')) dir)"

text \<open>\<open>Endpoint\<close> of the control service (\<open>src/pkg/control/path_unix.go\<close>).\<close>

definition Endpoint :: "bytes option \<Rightarrow> bytes \<Rightarrow> bytes option" where
  "Endpoint dir server =
     (case dir of
        None \<Rightarrow> None
      | Some d \<Rightarrow>
          (if server = [] then None
           else Some (filepath_Clean (d @ [slash] @ sanitize_name server @ ascii ''.control.sock''))))"

definition two_numbers :: "bytes \<Rightarrow> bool" where
  "two_numbers s =
     (case split_on 0x2D s of [a, b] \<Rightarrow> atoi a \<noteq> None \<and> atoi b \<noteq> None | _ \<Rightarrow> False)"

definition isAttachSocketName :: "bytes \<Rightarrow> bool" where
  "isAttachSocketName name =
     (if \<not> has_suffix name (ascii ''.sock'') \<or> has_suffix name (ascii ''.control.sock'') then False
      else
        (let trimmed = take (length name - 5) name in
         \<not> list_ex (\<lambda>p. has_prefix trimmed p \<and> two_numbers (drop (length p) trimmed))
             [ascii ''agent-'', ascii ''native-agent-'']))"

definition ListServers :: "(bytes \<times> bool) list \<Rightarrow> bytes list" where
  "ListServers entries =
     map (\<lambda>e. take (length (fst e) - 5) (fst e)) (filter (\<lambda>e. snd e \<and> isAttachSocketName (fst e)) entries)"

text \<open>\<open>removeStaleSocket\<close>: what the path is and how dialling it ends.\<close>

datatype dial = Connected | RefusedOrGone | OtherSyscallError | OtherError

datatype stale = Nothing_there | Remove | Refuse

definition removeStaleSocket :: "bool \<Rightarrow> (bool \<times> nat) option \<Rightarrow> nat \<Rightarrow> dial \<Rightarrow> stale" where
  "removeStaleSocket stat_failed info uid d =
     (if stat_failed then Refuse
      else (case info of
              None \<Rightarrow> Nothing_there
            | Some (sock, owner) \<Rightarrow>
                (if \<not> sock then Refuse else if owner \<noteq> uid then Refuse
                 else (case d of Connected \<Rightarrow> Refuse | OtherSyscallError \<Rightarrow> Refuse | _ \<Rightarrow> Remove))))"

section \<open>The owner\<close>

record conn =
  cn_frames :: "(byte \<times> bytes) list"
  cn_open :: bool

text \<open>What the owner calls: the input sink and the callbacks that are set.\<close>

datatype effect = Inject bytes | OnCount nat | OnResize int int | OnControl bytes

record callbacks =
  has_onCount :: bool
  has_onResize :: bool
  has_onControl :: bool

record owner =
  ow_server :: bytes
  ow_settings :: json
  ow_clients :: "nat list"
  ow_active :: "nat option"
  ow_conn :: "nat \<Rightarrow> conn"
  ow_callbacks :: callbacks
  ow_cols :: int
  ow_rows :: int
  ow_effects :: "effect list"

record wire =
  wi_parse :: "bytes \<Rightarrow> raw"
  wi_text :: "json \<Rightarrow> bytes"
  wi_pid :: int

definition LocalInput :: byte where "LocalInput = 0"
definition LocalOutput :: byte where "LocalOutput = 1"
definition FrameClientHello :: byte where "FrameClientHello = 3"
definition FrameServerHello :: byte where "FrameServerHello = 4"
definition FrameResize :: byte where "FrameResize = 5"
definition FrameControl :: byte where "FrameControl = 6"
definition FrameControlAck :: byte where "FrameControlAck = 7"
definition FrameClipboard :: byte where "FrameClipboard = 8"

lemmas local_frames = LocalInput_def LocalOutput_def FrameClientHello_def FrameServerHello_def FrameResize_def
  FrameControl_def FrameControlAck_def FrameClipboard_def

definition local_obj :: "(string \<times> json) list \<Rightarrow> json" where
  "local_obj kvs = JObj (map (\<lambda>(k, v). (ascii k, v)) kvs)"

text \<open>\<open>WriteFrame\<close> on a connection: it fails for a body that is too large or a closed connection.\<close>

definition send :: "byte \<Rightarrow> bytes \<Rightarrow> conn \<Rightarrow> bool \<times> conn" where
  "send t body c =
     (if cn_open c \<and> WriteFrame t body \<noteq> None then (True, c\<lparr>cn_frames := cn_frames c @ [(t, body)]\<rparr>) else (False, c))"

definition on_conn :: "nat \<Rightarrow> (conn \<Rightarrow> conn) \<Rightarrow> owner \<Rightarrow> owner" where
  "on_conn i f w = w\<lparr>ow_conn := (ow_conn w)(i := f (ow_conn w i))\<rparr>"

definition shut_conn :: "conn \<Rightarrow> conn" where "shut_conn c = c\<lparr>cn_open := False\<rparr>"

definition emit :: "effect \<Rightarrow> owner \<Rightarrow> owner" where
  "emit e w =
     (if (case e of OnCount _ \<Rightarrow> has_onCount (ow_callbacks w) | OnResize _ _ \<Rightarrow> has_onResize (ow_callbacks w)
          | OnControl _ \<Rightarrow> has_onControl (ow_callbacks w) | Inject _ \<Rightarrow> True)
      then w\<lparr>ow_effects := ow_effects w @ [e]\<rparr> else w)"

definition listen :: "bytes \<Rightarrow> json \<Rightarrow> (nat \<Rightarrow> conn) \<Rightarrow> owner" where
  "listen server settings cs =
     \<lparr>ow_server = server, ow_settings = settings, ow_clients = [], ow_active = None, ow_conn = cs,
      ow_callbacks = \<lparr>has_onCount = False, has_onResize = False, has_onControl = False\<rparr>,
      ow_cols = 0, ow_rows = 0, ow_effects = []\<rparr>"

definition SetCallbacks :: "callbacks \<Rightarrow> owner \<Rightarrow> owner" where
  "SetCallbacks cb w =
     (let w1 = emit (OnCount (length (ow_clients w))) (w\<lparr>ow_callbacks := cb\<rparr>)
      in if 0 < ow_cols w \<and> 0 < ow_rows w then emit (OnResize (ow_cols w) (ow_rows w)) w1 else w1)"

definition SetLBStatus :: "(json \<Rightarrow> json \<Rightarrow> json) \<Rightarrow> json \<Rightarrow> owner \<Rightarrow> owner" where
  "SetLBStatus put status w = w\<lparr>ow_settings := put status (ow_settings w)\<rparr>"

record client_hello =
  ch_Protocol :: bytes
  ch_Version :: int
  ch_ClientKind :: bytes
  ch_Cols :: int
  ch_Rows :: int

definition decode_client_hello :: "raw \<Rightarrow> client_hello option" where
  "decode_client_hello v =
     (case Option.bind v members of
        None \<Rightarrow> None
      | Some fs \<Rightarrow>
          (case (str_field ''protocol'' fs, int_field ''version'' fs, str_field ''server'' fs, str_field ''clientName'' fs,
                 str_field ''clientKind'' fs, int_field ''cols'' fs, int_field ''rows'' fs) of
             (Some p, Some n, Some _, Some _, Some k, Some c, Some r) \<Rightarrow>
               Some \<lparr>ch_Protocol = p, ch_Version = n, ch_ClientKind = k, ch_Cols = c, ch_Rows = r\<rparr>
           | _ \<Rightarrow> None))"

definition server_hello :: "wire \<Rightarrow> owner \<Rightarrow> json" where
  "server_hello E w =
     local_obj [(''protocol'', JStr (ascii ''multicrum-local'')), (''version'', JInt 1), (''server'', JStr (ow_server w)),
       (''serverPid'', JInt (wi_pid E)), (''settings'', ow_settings w)]"

text \<open>The first frame of a connection in \<open>handle\<close>; a connection that is not answered is closed.\<close>

definition owner_hello :: "wire \<Rightarrow> nat \<Rightarrow> byte \<Rightarrow> bytes \<Rightarrow> owner \<Rightarrow> owner" where
  "owner_hello E i t body w =
     (case (if t = FrameClientHello then decode_client_hello (wi_parse E body) else None) of
        None \<Rightarrow> on_conn i shut_conn w
      | Some h \<Rightarrow>
          (if ch_Protocol h \<noteq> ascii ''multicrum-local'' \<or> ch_Version h \<noteq> 1 then on_conn i shut_conn w
           else
             (let (ok, c) = send FrameServerHello (wi_text E (server_hello E w)) (ow_conn w i);
                  w1 = on_conn i (\<lambda>_. c) w in
              if \<not> ok then on_conn i shut_conn w1
              else if ch_ClientKind h \<noteq> ascii ''tui-attach'' then w1
              else
                (let fits = (0 < ch_Cols h \<and> 0 < ch_Rows h);
                     w2 = w1\<lparr>ow_clients := ow_clients w1 @ [i],
                             ow_cols := (if fits then ch_Cols h else ow_cols w1),
                             ow_rows := (if fits then ch_Rows h else ow_rows w1)\<rparr>;
                     w3 = emit (OnCount (length (ow_clients w2))) w2
                 in if fits then emit (OnResize (ch_Cols h) (ch_Rows h)) w3 else w3))))"

definition decode_resize :: "raw \<Rightarrow> (int \<times> int) option" where
  "decode_resize v =
     (case Option.bind v members of
        None \<Rightarrow> None
      | Some fs \<Rightarrow>
          (case (int_field ''cols'' fs, int_field ''rows'' fs) of (Some c, Some r) \<Rightarrow> Some (c, r) | _ \<Rightarrow> None))"

definition decode_action :: "raw \<Rightarrow> bytes option" where
  "decode_action v = (case Option.bind v members of None \<Rightarrow> None | Some fs \<Rightarrow> str_field ''action'' fs)"

definition writeControlAck :: "wire \<Rightarrow> nat \<Rightarrow> bool \<Rightarrow> bytes \<Rightarrow> owner \<Rightarrow> owner" where
  "writeControlAck E i ok msg w =
     on_conn i (\<lambda>c. snd (send FrameControlAck
       (wi_text E (local_obj ((''ok'', JBool ok) # (if msg = [] then [] else [(''error'', JStr msg)])))) c)) w"

text \<open>A later frame; the text of a decoding error is a parameter of the acknowledgement.\<close>

definition owner_frame :: "wire \<Rightarrow> bytes \<Rightarrow> nat \<Rightarrow> byte \<Rightarrow> bytes \<Rightarrow> owner \<Rightarrow> owner" where
  "owner_frame E err i t body w =
     (if t = LocalInput then emit (Inject body) (w\<lparr>ow_active := Some i\<rparr>)
      else if t = FrameResize then
        (case decode_resize (wi_parse E body) of
           None \<Rightarrow> w
         | Some (cols, rows) \<Rightarrow>
             emit (OnResize cols rows)
               (if 0 < cols \<and> 0 < rows then w\<lparr>ow_cols := cols, ow_rows := rows\<rparr> else w))
      else if t = FrameControl then
        (case decode_action (wi_parse E body) of
           None \<Rightarrow> writeControlAck E i False err w
         | Some a \<Rightarrow>
             (if a = [] then writeControlAck E i False (ascii ''missing control action'') w
              else emit (OnControl a) (writeControlAck E i True [] w)))
      else w)"

text \<open>The end of a connection: the deferred calls of \<open>handle\<close>.\<close>

definition owner_gone :: "nat \<Rightarrow> owner \<Rightarrow> owner" where
  "owner_gone i w =
     (if i \<in> set (ow_clients w) then
        (let w1 = w\<lparr>ow_clients := removeAll i (ow_clients w),
                    ow_active := (if ow_active w = Some i then None else ow_active w)\<rparr>
         in on_conn i shut_conn (emit (OnCount (length (ow_clients w1))) w1))
      else on_conn i shut_conn w)"

definition DetachActiveClient :: "owner \<Rightarrow> owner" where
  "DetachActiveClient w =
     (let w1 = w\<lparr>ow_active := None\<rparr> in
      case ow_active w of
        None \<Rightarrow> w1
      | Some i \<Rightarrow> if i \<in> set (ow_clients w) then on_conn i shut_conn w1 else w1)"

definition send_or_close :: "byte \<Rightarrow> bytes \<Rightarrow> conn \<Rightarrow> conn" where
  "send_or_close t body c = (let (ok, c1) = send t body c in if ok then c1 else shut_conn c1)"

definition OwnerWrite :: "bytes \<Rightarrow> owner \<Rightarrow> nat \<times> owner" where
  "OwnerWrite p w = (length p, foldl (\<lambda>v i. on_conn i (send_or_close LocalOutput p) v) w (ow_clients w))"

definition WriteClipboard :: "bytes \<Rightarrow> owner \<Rightarrow> owner" where
  "WriteClipboard text w = foldl (\<lambda>v i. on_conn i (send_or_close FrameClipboard text) v) w (ow_clients w)"

definition OwnerClose :: "owner \<Rightarrow> owner" where
  "OwnerClose w =
     (foldl (\<lambda>v i. on_conn i shut_conn v) w (ow_clients w))\<lparr>ow_clients := [], ow_active := None\<rparr>"

text \<open>\<open>FanoutWriter.Write\<close>: \<open>None\<close> is a writer that is not set, else whether its write worked.\<close>

definition fanout_write :: "bool option \<Rightarrow> bool option \<Rightarrow> bytes \<Rightarrow> (nat \<times> bool) \<times> bool" where
  "fanout_write primary mirror p =
     (if primary = Some False then ((0, False), False) else ((length p, True), mirror \<noteq> None))"

section \<open>The attached client\<close>

fun map_lf :: "byte \<Rightarrow> bytes \<Rightarrow> bytes" where
  "map_lf prev [] = []"
| "map_lf prev (b # bs) = (if b = 0x0A \<and> prev \<noteq> 0x0D then [0x0D, 0x0A] else [b]) @ map_lf b bs"

definition mapBareLF :: "bytes \<Rightarrow> bytes" where
  "mapBareLF p = map_lf 0 p"

definition isDetachSequence :: "bytes \<Rightarrow> bool" where
  "isDetachSequence p \<longleftrightarrow> length p = 2 \<and> p ! 0 = 0x1B \<and> p ! 1 = 0x11"

text \<open>
  The input of \<open>TryAttach\<close>: the frames sent for the chunks read, up to the chunk that detaches; and
  what is written to the terminal for the frames received.
\<close>

fun attach_input :: "bytes list \<Rightarrow> (byte \<times> bytes) list" where
  "attach_input [] = []"
| "attach_input (chunk # chunks) =
     (if chunk = [] then attach_input chunks
      else if isDetachSequence chunk then [] else (LocalInput, chunk) # attach_input chunks)"

definition attach_output :: "bool \<Rightarrow> (byte \<times> bytes) list \<Rightarrow> bytes" where
  "attach_output tmux_set fs =
     concat (map (\<lambda>(t, body). if t = LocalOutput then mapBareLF body
        else if t = FrameClipboard then writeAttachedClipboard tmux_set body else []) fs)"

datatype hello_error = Unexpected byte | BadJSON | Incompatible bytes int

definition decode_server_hello :: "raw \<Rightarrow> (bytes \<times> int) option" where
  "decode_server_hello v =
     (case Option.bind v members of
        None \<Rightarrow> None
      | Some fs \<Rightarrow>
          (case (str_field ''protocol'' fs, int_field ''version'' fs) of (Some p, Some n) \<Rightarrow> Some (p, n) | _ \<Rightarrow> None))"

definition clientHandshake :: "wire \<Rightarrow> byte \<times> bytes \<Rightarrow> hello_error + unit" where
  "clientHandshake E answer =
     (let (t, body) = answer in
      if t \<noteq> FrameServerHello then Inl (Unexpected t)
      else (case decode_server_hello (wi_parse E body) of
              None \<Rightarrow> Inl BadJSON
            | Some (p, n) \<Rightarrow>
                (if p \<noteq> ascii ''multicrum-local'' \<or> n \<noteq> 1 then Inl (Incompatible p n) else Inr ())))"

text \<open>The end of \<open>StopServer\<close>: the answer to the request, \<open>Inl True\<close> for a time-out or a closed connection.\<close>

definition stop_answer :: "wire \<Rightarrow> bool + (byte \<times> bytes) \<Rightarrow> bool" where
  "stop_answer E r =
     (case r of
        Inl ended \<Rightarrow> ended
      | Inr (t, body) \<Rightarrow>
          (if t \<noteq> FrameControlAck then False
           else (case Option.bind (wi_parse E body) members of
                   None \<Rightarrow> False
                 | Some fs \<Rightarrow> (case (bool_field ''ok'' fs, str_field ''error'' fs) of (Some k, Some _) \<Rightarrow> k | _ \<Rightarrow> False))))"

end
