(* ===== verification/OwnerProps.thy ===== *)
theory OwnerProps
  imports Owner
begin

text \<open>
  What the attach server guarantees: who gets the output, what the terminal of an attached client
  shows of it, and the state of the owner over all its events.
\<close>

section \<open>Writing to all clients\<close>

lemma on_conn_simps [simp]:
  "ow_clients (on_conn i f w) = ow_clients w" "ow_active (on_conn i f w) = ow_active w"
  "ow_conn (on_conn i f w) i = f (ow_conn w i)" "j \<noteq> i \<Longrightarrow> ow_conn (on_conn i f w) j = ow_conn w j"
  "ow_cols (on_conn i f w) = ow_cols w" "ow_rows (on_conn i f w) = ow_rows w"
  "ow_callbacks (on_conn i f w) = ow_callbacks w" "ow_effects (on_conn i f w) = ow_effects w"
  by (simp_all add: on_conn_def)

lemma foldl_on_conn:
  "distinct is \<Longrightarrow> ow_conn (foldl (\<lambda>v i. on_conn i f v) w is) j = (if j \<in> set is then f (ow_conn w j) else ow_conn w j)"
  by (induction "is" arbitrary: w) (auto simp: on_conn_def)

lemma foldl_on_conn_same [simp]:
  "ow_clients (foldl (\<lambda>v i. on_conn i f v) w is) = ow_clients w"
  "ow_active (foldl (\<lambda>v i. on_conn i f v) w is) = ow_active w"
  "ow_cols (foldl (\<lambda>v i. on_conn i f v) w is) = ow_cols w"
  "ow_rows (foldl (\<lambda>v i. on_conn i f v) w is) = ow_rows w"
  by (induction "is" arbitrary: w) auto

definition write_all :: "bytes list \<Rightarrow> owner \<Rightarrow> owner" where
  "write_all ps w = foldl (\<lambda>v p. snd (OwnerWrite p v)) w ps"

lemma write_all_same [simp]: "ow_clients (write_all ps w) = ow_clients w"
  unfolding write_all_def by (induction ps arbitrary: w) (simp_all add: OwnerWrite_def)

lemma send_or_close_fits:
  "cn_open c \<Longrightarrow> length p < MaxFrameSize \<Longrightarrow> send_or_close t p c = c\<lparr>cn_frames := cn_frames c @ [(t, p)]\<rparr>"
  by (simp add: send_or_close_def send_def WriteFrame_def)

lemma write_all_one:
  assumes "distinct (ow_clients w)" and "i \<in> set (ow_clients w)" and "cn_open (ow_conn w i)"
    and "list_all (\<lambda>p. length p < MaxFrameSize) ps"
  shows "ow_conn (write_all ps w) i = (ow_conn w i)\<lparr>cn_frames := cn_frames (ow_conn w i) @ map (Pair LocalOutput) ps\<rparr>"
  using assms
proof (induction ps arbitrary: w)
  case Nil
  then show ?case by (simp add: write_all_def)
next
  case (Cons p ps)
  let ?w = "snd (OwnerWrite p w)"
  have c: "ow_conn ?w i = (ow_conn w i)\<lparr>cn_frames := cn_frames (ow_conn w i) @ [(LocalOutput, p)]\<rparr>"
    using Cons.prems by (simp add: OwnerWrite_def foldl_on_conn send_or_close_fits)
  have "ow_conn (write_all ps ?w) i = (ow_conn ?w i)\<lparr>cn_frames := cn_frames (ow_conn ?w i) @ map (Pair LocalOutput) ps\<rparr>"
    using Cons.prems c by (intro Cons.IH) (simp_all add: OwnerWrite_def)
  with c show ?case by (simp add: write_all_def)
qed

lemma write_all_other:
  "i \<notin> set (ow_clients w) \<Longrightarrow> ow_conn (write_all ps w) i = ow_conn w i"
proof (induction ps arbitrary: w)
  case (Cons p ps)
  have "i \<notin> set is \<Longrightarrow> ow_conn (foldl (\<lambda>v i. on_conn i f v) w is) i = ow_conn w i" for f w "is"
    by (induction "is" arbitrary: w) auto
  with Cons show ?case by (simp add: write_all_def OwnerWrite_def)
qed (simp add: write_all_def)

text \<open>A write of a frame's size or more closes every attached client.\<close>

lemma large_write_closes_all:
  assumes "distinct (ow_clients w)" and "MaxFrameSize \<le> length p" and "i \<in> set (ow_clients w)"
  shows "\<not> cn_open (ow_conn (snd (OwnerWrite p w)) i)"
  using assms
  by (simp add: OwnerWrite_def foldl_on_conn send_or_close_def send_def WriteFrame_def shut_conn_def)

lemma attach_output_map: "attach_output tm (map (Pair LocalOutput) ps) = concat (map mapBareLF ps)"
  by (induction ps) (simp_all add: attach_output_def)


definition demo_owner :: owner where
  "demo_owner = (listen (ascii ''default'') JNull (\<lambda>_. \<lparr>cn_frames = [], cn_open = True\<rparr>))\<lparr>ow_clients := [1]\<rparr>"


section \<open>Line feeds\<close>

fun no_bare_lf :: "byte \<Rightarrow> bytes \<Rightarrow> bool" where
  "no_bare_lf prev [] = True"
| "no_bare_lf prev (b # bs) = ((b \<noteq> 0x0A \<or> prev = 0x0D) \<and> no_bare_lf b bs)"

lemma map_lf_no_bare: "no_bare_lf prev (map_lf prev bs)"
  by (induction bs arbitrary: prev) auto

lemma map_lf_id: "no_bare_lf prev bs \<Longrightarrow> map_lf prev bs = bs"
  by (induction bs arbitrary: prev) auto

lemma map_lf_filter: "filter (\<lambda>b. b \<noteq> 0x0D) (map_lf prev bs) = filter (\<lambda>b. b \<noteq> 0x0D) bs"
  by (induction bs arbitrary: prev) auto

text \<open>
  Expanding line feeds: the result has no line feed without a carriage return before it, only
  carriage returns are added, and a text without bare line feeds stays as it is.
\<close>

theorem mapBareLF_exact:
  "no_bare_lf 0 (mapBareLF p) \<and> filter (\<lambda>b. b \<noteq> 0x0D) (mapBareLF p) = filter (\<lambda>b. b \<noteq> 0x0D) p \<and>
   mapBareLF (mapBareLF p) = mapBareLF p \<and> (mapBareLF p = p) = no_bare_lf 0 p"
  using map_lf_no_bare [of 0 p] map_lf_filter [of 0 p] map_lf_id [of 0 "map_lf 0 p"] map_lf_id [of 0 p]
  by (auto simp: mapBareLF_def)

text \<open>It works frame by frame: a carriage return and its line feed in two frames become three bytes.\<close>

lemma crlf_across_frames:
  "attach_output tm [(LocalOutput, [0x61, 0x0D]), (LocalOutput, [0x0A])] = [0x61, 0x0D, 0x0D, 0x0A]"
  by (simp add: attach_output_def mapBareLF_def)

section \<open>The owner over its events\<close>

datatype owner_event = Hello nat byte bytes | Frm nat byte bytes bytes | Gone nat | Peer_closed nat
  | Detach | Output bytes | Clip bytes | Callbacks callbacks | Status json | Shut

text \<open>
  An event as it can come: a hello is the first frame of a connection that is open and not attached,
  other frames come from open connections.
\<close>

definition owner_step :: "wire \<Rightarrow> (json \<Rightarrow> json \<Rightarrow> json) \<Rightarrow> owner \<Rightarrow> owner_event \<Rightarrow> owner" where
  "owner_step E put w e =
     (case e of
        Hello i t body \<Rightarrow>
          if cn_open (ow_conn w i) \<and> cn_frames (ow_conn w i) = [] \<and> i \<notin> set (ow_clients w) then owner_hello E i t body w else w
      | Frm i t body err \<Rightarrow> if cn_open (ow_conn w i) then owner_frame E err i t body w else w
      | Gone i \<Rightarrow> owner_gone i w
      | Peer_closed i \<Rightarrow> on_conn i shut_conn w
      | Detach \<Rightarrow> DetachActiveClient w
      | Output p \<Rightarrow> snd (OwnerWrite p w)
      | Clip p \<Rightarrow> WriteClipboard p w
      | Callbacks cb \<Rightarrow> SetCallbacks cb w
      | Status st \<Rightarrow> SetLBStatus put st w
      | Shut \<Rightarrow> OwnerClose w)"

definition owner_ok :: "owner \<Rightarrow> bool" where
  "owner_ok w \<longleftrightarrow>
     distinct (ow_clients w) \<and> ((ow_cols w = 0 \<and> ow_rows w = 0) \<or> (0 < ow_cols w \<and> 0 < ow_rows w))"

lemma emit_same [simp]:
  "ow_clients (emit e w) = ow_clients w" "ow_cols (emit e w) = ow_cols w" "ow_rows (emit e w) = ow_rows w"
  "ow_conn (emit e w) = ow_conn w" "ow_active (emit e w) = ow_active w"
  by (simp_all add: emit_def)

lemma owner_ok_step: "owner_ok w \<Longrightarrow> owner_ok (owner_step E put w e)"
  by (cases e)
    (auto simp: owner_ok_def owner_step_def owner_hello_def owner_frame_def owner_gone_def DetachActiveClient_def
      OwnerWrite_def WriteClipboard_def SetCallbacks_def SetLBStatus_def OwnerClose_def writeControlAck_def Let_def
      distinct_removeAll split: option.splits prod.splits)

text \<open>
  The state of the owner over every sequence of events: no client is attached twice, and the size
  kept for later callbacks is unset or positive in both directions.
\<close>

theorem owner_invariant:
  "let w = foldl (owner_step E put) (listen server settings cs) es in
   distinct (ow_clients w) \<and> ((ow_cols w = 0 \<and> ow_rows w = 0) \<or> (0 < ow_cols w \<and> 0 < ow_rows w))"
proof -
  have "owner_ok w \<Longrightarrow> owner_ok (foldl (owner_step E put) w es)" for w
    by (induction es arbitrary: w) (simp_all add: owner_ok_step)
  moreover have "owner_ok (listen server settings cs)" by (simp add: owner_ok_def listen_def)
  ultimately show ?thesis by (simp add: owner_ok_def Let_def)
qed

text \<open>
  Detaching closes exactly one connection, the attached client that typed last, and none when
  there is no such client.
\<close>

theorem detach_closes_the_active_client:
  "ow_conn (DetachActiveClient w) i =
     (if ow_active w = Some i \<and> i \<in> set (ow_clients w) then (ow_conn w i)\<lparr>cn_open := False\<rparr> else ow_conn w i) \<and>
   ow_active (DetachActiveClient w) = None \<and> ow_clients (DetachActiveClient w) = ow_clients w"
  by (auto simp: DetachActiveClient_def Let_def shut_conn_def on_conn_def split: option.split)

text \<open>A resize frame is handed on without a check of its size.\<close>

lemma resize_not_checked:
  assumes "decode_resize (wi_parse E body) = Some (0, 0)" and "has_onResize (ow_callbacks w)"
  shows "ow_effects (owner_frame E err i FrameResize body w) = ow_effects w @ [OnResize 0 0]"
  using assms by (simp add: owner_frame_def local_frames emit_def)

text \<open>A connection that only asked for the status can type.\<close>

lemma unattached_input_is_injected:
  "ow_effects (owner_frame E err i LocalInput body w) = ow_effects w @ [Inject body]"
  by (simp add: owner_frame_def local_frames emit_def)

section \<open>Names of sockets\<close>

text \<open>The attach socket of a server named \<open>x.control\<close> is the control socket of \<open>x\<close>.\<close>

lemma control_socket_clash:
  assumes "x \<noteq> []"
  shows "SocketPath dir (x @ ascii ''.control'') = Endpoint dir x"
proof -
  have "sanitize_name (x @ ascii ''.control'') = sanitize_name x @ ascii ''.control''"
    unfolding sanitize_name_def by (rule sanitize_from_append) (simp add: safe_byte_def byte_in_def)
  then show ?thesis
    using assms by (simp add: SocketPath_def Endpoint_def split: option.split)
qed

lemma agent_names_are_hidden: "\<not> isAttachSocketName (ascii ''agent-1-2.sock'')"
  by (simp add: isAttachSocketName_def two_numbers_def atoi_def byte_in_def suffix_to_prefix)

end
