(* ===== verification/KeyboardStrip.thy ===== *)
theory KeyboardStrip
  imports GoStrings
begin

text \<open>
  The filter that takes keyboard enhancement sequences out of what the terminal library writes
  (\<open>src/pkg/ui/keyboardstrip.go\<close>). It holds back a sequence that is cut by the end of a write.
\<close>

abbreviation ESC :: byte where "ESC \<equiv> 0x1B"

text \<open>The index of the final byte behind \<open>ESC [\<close>, or none when the data end before it.\<close>

fun scanCSIEnd :: "bytes \<Rightarrow> nat option" where
  "scanCSIEnd [] = None"
| "scanCSIEnd (c # cs) =
     (if byte_in 0x40 0x7E c then Some 0
      else if c < 0x20 \<or> 0x3F < c then Some 0
      else map_option Suc (scanCSIEnd cs))"

definition is_digit :: "byte \<Rightarrow> bool" where "is_digit c \<longleftrightarrow> byte_in 0x30 0x39 c"

definition validKittyParams :: "bytes \<Rightarrow> bool" where
  "validKittyParams p = list_all (\<lambda>c. c = 0x3B \<or> is_digit c) p"

definition allDigits :: "bytes \<Rightarrow> bool" where
  "allDigits p = (p \<noteq> [] \<and> list_all is_digit p)"

definition isKeyboardEnhancement :: "bytes \<Rightarrow> bool" where
  "isKeyboardEnhancement sq =
     (if length sq < 3 \<or> sq ! 0 \<noteq> ESC \<or> sq ! 1 \<noteq> 0x5B then False
      else
        (let body = butlast (drop 2 sq) in
         if last sq = 0x6D then
           body \<noteq> [] \<and> hd body = 0x3E \<and>
           (tl body = [0x34] \<or> (has_prefix (tl body) [0x34, 0x3B] \<and> allDigits (drop 2 (tl body))))
         else if last sq = 0x75 \<and> body \<noteq> [] then
           (if hd body = 0x3F \<or> hd body = 0x3C then length body = 1
            else if hd body = 0x3D \<or> hd body = 0x3E then validKittyParams (tl body)
            else False)
         else False))"

text \<open>The loop of \<open>Write\<close>: what is written and what is held back.\<close>

function strip_loop :: "bytes \<Rightarrow> bytes \<times> bytes" where
  "strip_loop [] = ([], [])"
| "strip_loop (b # bs) =
     (if b \<noteq> ESC then (let (out, held) = strip_loop bs in (b # out, held))
      else if bs = [] then ([], [b])
      else if hd bs \<noteq> 0x5B then (let (out, held) = strip_loop bs in (b # out, held))
      else
        (case scanCSIEnd (tl bs) of
           None \<Rightarrow> ([], b # bs)
         | Some j \<Rightarrow>
             (let sq = b # hd bs # take (Suc j) (tl bs);
                  (out, held) = strip_loop (drop (Suc j) (tl bs))
              in ((if isKeyboardEnhancement sq then [] else sq) @ out, held))))"
  by pat_completeness auto
termination by (relation "measure length") auto

declare strip_loop.simps(2) [simp del]

text \<open>\<open>Write\<close> on the bytes held back before; \<open>ok\<close> says whether the writer below takes the result.\<close>

definition strip_write :: "bool \<Rightarrow> bytes \<Rightarrow> bytes \<Rightarrow> nat option \<times> bytes \<times> bytes" where
  "strip_write ok held p =
     (let (out, held1) = strip_loop (held @ p)
      in (if ok then Some (length p) else None, (if ok then out else []), held1))"

fun strip_writes :: "bytes \<Rightarrow> bytes list \<Rightarrow> bytes \<times> bytes" where
  "strip_writes held [] = ([], held)"
| "strip_writes held (p # ps) =
     (let (n, out, held1) = strip_write True held p; (out2, held2) = strip_writes held1 ps
      in (out @ out2, held2))"

section \<open>Chunks\<close>

lemma scanCSIEnd_append: "scanCSIEnd cs = Some j \<Longrightarrow> scanCSIEnd (cs @ ds) = Some j \<and> j < length cs"
  by (induction cs arbitrary: j) (auto split: if_splits)

lemma strip_loop_append:
  "strip_loop xs = (out, held) \<Longrightarrow>
   strip_loop (xs @ ys) = (let (out2, held2) = strip_loop (held @ ys) in (out @ out2, held2))"
proof (induction xs arbitrary: out held rule: strip_loop.induct)
  case 1
  then show ?case by simp
next
  case (2 b bs)
  consider (plain) "b \<noteq> ESC" | (esc) "b = ESC" "bs = []" | (other) "b = ESC" "bs \<noteq> []" "hd bs \<noteq> 0x5B"
    | (open_csi) "b = ESC" "bs \<noteq> []" "hd bs = 0x5B" "scanCSIEnd (tl bs) = None"
    | (csi) j where "b = ESC" "bs \<noteq> []" "hd bs = 0x5B" "scanCSIEnd (tl bs) = Some j"
    by (cases "scanCSIEnd (tl bs)") auto
  then show ?case
  proof cases
    case plain
    obtain o1 h1 where s: "strip_loop bs = (o1, h1)" by (metis surj_pair)
    with plain "2.prems" have oh: "out = b # o1" "held = h1" by (auto simp: strip_loop.simps(2))
    show ?thesis
      using "2.IH"(1) [OF plain s] plain oh by (simp add: strip_loop.simps(2) split: prod.split)
  next
    case esc
    with "2.prems" have "out = []" "held = [ESC]" by (auto simp: strip_loop.simps(2))
    with esc show ?thesis by (simp split: prod.split)
  next
    case other
    obtain o1 h1 where s: "strip_loop bs = (o1, h1)" by (metis surj_pair)
    with other "2.prems" have oh: "out = b # o1" "held = h1" by (auto simp: strip_loop.simps(2))
    show ?thesis
      using "2.IH"(2) [OF _ _ _ s] other oh by (simp add: strip_loop.simps(2) split: prod.split)
  next
    case open_csi
    with "2.prems" have "out = []" "held = b # bs" by (auto simp: strip_loop.simps(2))
    then show ?thesis by (simp split: prod.split)
  next
    case csi
    let ?sq = "b # hd bs # take (Suc j) (tl bs)"
    obtain o1 h1 where s: "strip_loop (drop (Suc j) (tl bs)) = (o1, h1)" by (metis surj_pair)
    with csi "2.prems" have oh: "out = (if isKeyboardEnhancement ?sq then [] else ?sq) @ o1" "held = h1"
      by (auto simp: strip_loop.simps(2) Let_def)
    have j: "scanCSIEnd (tl bs @ ys) = Some j" "j < length (tl bs)"
      using scanCSIEnd_append [OF csi(4), of ys] by simp_all
    have ih: "strip_loop (drop (Suc j) (tl bs) @ ys) =
        (let (out2, held2) = strip_loop (h1 @ ys) in (o1 @ out2, held2))"
      using "2.IH"(3) [OF _ _ _ csi(4) refl s] csi by simp
    have "strip_loop ((b # bs) @ ys) =
        (let (o2, h2) = strip_loop (drop (Suc j) (tl bs) @ ys)
         in ((if isKeyboardEnhancement ?sq then [] else ?sq) @ o2, h2))"
      using csi j by (subst append_Cons, subst strip_loop.simps(2)) (simp add: hd_append)
    with ih oh show ?thesis by (simp split: prod.split)
  qed
qed

text \<open>
  C18. The filter does not depend on how its input is cut: whatever the writes, what comes out and what
  is held back in the end is that of a single write of all the bytes.
\<close>

theorem keyboard_strip_chunks: "strip_writes [] ps = strip_loop (concat ps)"
proof -
  have "strip_writes held ps = strip_loop (held @ concat ps)" if "strip_loop held = ([], held)" for held
    using that
  proof (induction ps arbitrary: held)
    case Nil
    then show ?case by simp
  next
    case (Cons p ps)
    obtain o1 h1 where s: "strip_loop (held @ p) = (o1, h1)" by (metis surj_pair)
    have "strip_loop h1 = ([], h1)"
      using s strip_loop_append [OF s, of "[]"] by (auto split: prod.splits)
    from Cons.IH [OF this] show ?case
      using strip_loop_append [OF s, of "concat ps"] s
      by (simp add: strip_write_def split: prod.split)
  qed
  from this [of "[]"] show ?thesis by simp
qed

text \<open>
  Nothing but keyboard enhancement sequences is taken out: the input is a sequence of pieces and
  the bytes held back, and the output is the pieces that are not such a sequence, unchanged and in
  order.
\<close>

theorem keyboard_strip_only:
  "case strip_loop xs of
     (out, held) \<Rightarrow> \<exists>pieces. xs = concat pieces @ held \<and> out = concat (filter (\<lambda>p. \<not> isKeyboardEnhancement p) pieces)"
proof (induction xs rule: strip_loop.induct)
  case 1
  show ?case by (auto intro: exI [of _ "[]"])
next
  case (2 b bs)
  have one: "\<not> isKeyboardEnhancement [b]" by (simp add: isKeyboardEnhancement_def)
  show ?case
  proof (cases "b = ESC \<and> (bs = [] \<or> hd bs = 0x5B)")
    case False
    then have "\<exists>out held ps. strip_loop bs = (out, held) \<and> bs = concat ps @ held \<and>
        out = concat (filter (\<lambda>p. \<not> isKeyboardEnhancement p) ps)"
      using "2.IH"(1,2) by (cases "strip_loop bs") auto
    then obtain out held ps where s: "strip_loop bs = (out, held)" "bs = concat ps @ held"
      "out = concat (filter (\<lambda>p. \<not> isKeyboardEnhancement p) ps)" by blast
    have eq: "strip_loop (b # bs) = (b # out, held)" using False s(1) by (auto simp: strip_loop.simps(2))
    have "b # bs = concat ([b] # ps) @ held" using s(2) by simp
    moreover have "b # out = concat (filter (\<lambda>p. \<not> isKeyboardEnhancement p) ([b] # ps))"
      using s(3) one by simp
    ultimately have "b # bs = concat ([b] # ps) @ held \<and> b # out = concat (filter (\<lambda>p. \<not> isKeyboardEnhancement p) ([b] # ps))"
      by (rule conjI)
    then show ?thesis unfolding eq prod.case by (rule exI)
  next
    case True
    show ?thesis
    proof (cases "bs = [] \<or> scanCSIEnd (tl bs) = None")
      case nil: True
      then have "strip_loop (b # bs) = ([], b # bs)" using True by (auto simp: strip_loop.simps(2))
      then show ?thesis by (auto intro: exI [of _ "[]"])
    next
      case False
      then obtain j where j: "scanCSIEnd (tl bs) = Some j" and ne: "bs \<noteq> []" by auto
      let ?sq = "b # hd bs # take (Suc j) (tl bs)"
      obtain out held where s: "strip_loop (drop (Suc j) (tl bs)) = (out, held)" by (metis surj_pair)
      have "case strip_loop (drop (Suc j) (tl bs)) of
          (out, held) \<Rightarrow> \<exists>pieces. drop (Suc j) (tl bs) = concat pieces @ held \<and>
            out = concat (filter (\<lambda>p. \<not> isKeyboardEnhancement p) pieces)"
        using "2.IH"(3) [OF _ ne _ j refl] True ne by simp
      then obtain ps where ps: "drop (Suc j) (tl bs) = concat ps @ held"
        "out = concat (filter (\<lambda>p. \<not> isKeyboardEnhancement p) ps)" using s by auto
      have eq: "strip_loop (b # bs) = ((if isKeyboardEnhancement ?sq then [] else ?sq) @ out, held)"
        using True ne j s by (auto simp: strip_loop.simps(2) Let_def)
      have "b # bs = concat (?sq # ps) @ held"
        using ne ps(1) append_take_drop_id [of "Suc j" "tl bs"] by (cases bs) auto
      moreover have "(if isKeyboardEnhancement ?sq then [] else ?sq) @ out =
          concat (filter (\<lambda>p. \<not> isKeyboardEnhancement p) (?sq # ps))"
        using ps(2) by simp
      ultimately have "b # bs = concat (?sq # ps) @ held \<and> (if isKeyboardEnhancement ?sq then [] else ?sq) @ out =
          concat (filter (\<lambda>p. \<not> isKeyboardEnhancement p) (?sq # ps))" by (rule conjI)
      then show ?thesis unfolding eq prod.case by (rule exI)
    qed
  qed
qed

text \<open>Taking a sequence out can put another one together, which is let through.\<close>

lemma strip_makes_sequence:
  "strip_loop ([ESC, ESC, 0x5B, 0x3C, 0x75, 0x5B, 0x3C, 0x75]) = ([ESC, 0x5B, 0x3C, 0x75], []) \<and>
   isKeyboardEnhancement [ESC, 0x5B, 0x3C, 0x75]"
  by (simp add: strip_loop.simps(2) isKeyboardEnhancement_def byte_in_def)

end
