(* ===== verification/Recorder.thy ===== *)
theory Recorder
  imports GoStrings
begin

text \<open>
  The diagnostic recorder (\<open>src/pkg/diagnostics/recorder.go\<close>): a ring of the last 256 events, which
  refines a capped log, and its checkpoints. Messages come formatted; the time of an event, the
  process number and the build text are given; the file operations are the outcome of a checkpoint.
\<close>

definition maxEvents :: nat where "maxEvents = 256"
definition maxEventBytes :: nat where "maxEventBytes = 768"

record trace_event =
  te_sequence :: "64 word"
  te_at :: int
  te_message :: bytes

record recorder =
  rc_events :: "trace_event list"
  rc_sequence :: "64 word"
  rc_count :: nat
  rc_persisted :: "64 word"

definition new_recorder :: recorder where
  "new_recorder = \<lparr>rc_events = replicate maxEvents \<lparr>te_sequence = 0, te_at = 0, te_message = []\<rparr>,
     rc_sequence = 0, rc_count = 0, rc_persisted = 0\<rparr>"

text \<open>One line per event: CR and LF are escaped, and a long message is cut.\<close>

definition escape_line :: "bytes \<Rightarrow> bytes" where
  "escape_line m = concat (map (\<lambda>b. if b = 0x0D then [0x5C, 0x72] else if b = 0x0A then [0x5C, 0x6E] else [b]) m)"

definition trace_message :: "bytes \<Rightarrow> bytes" where
  "trace_message m =
     (let e = escape_line m
      in if maxEventBytes < length e then take (maxEventBytes - 3) e @ [0x2E, 0x2E, 0x2E] else e)"

text \<open>\<open>Record\<close>: storing an event under the next number.\<close>

definition store_event :: "recorder \<Rightarrow> int \<times> bytes \<Rightarrow> recorder" where
  "store_event r e =
     (let n = rc_sequence r + 1 in
      r\<lparr>rc_sequence := n,
        rc_events := (rc_events r)[unat ((n - 1) mod of_nat maxEvents) :=
          \<lparr>te_sequence = n, te_at = fst e, te_message = snd e\<rparr>],
        rc_count := min (rc_count r + 1) maxEvents\<rparr>)"

definition Record :: "recorder \<Rightarrow> int \<Rightarrow> bytes \<Rightarrow> recorder" where
  "Record r now m = store_event r (now, trace_message m)"

text \<open>The events \<open>snapshot\<close> writes, in its order, and its text.\<close>

definition snapshot_events :: "recorder \<Rightarrow> trace_event list" where
  "snapshot_events r =
     (let first = rc_sequence r - of_nat (rc_count r)
      in map (\<lambda>i. rc_events r ! unat ((first + of_nat i) mod of_nat maxEvents)) [0..<rc_count r])"

definition snapshot_text :: "(int \<Rightarrow> bytes) \<Rightarrow> nat \<Rightarrow> bytes \<Rightarrow> recorder \<Rightarrow> bytes" where
  "snapshot_text fmt pid quoted_build r =
     ascii ''multicrum diagnostic trace pid='' @ decimal pid @ ascii '' events='' @ decimal (rc_count r) @
     ascii '' dropped='' @ decimal (unat (rc_sequence r - of_nat (rc_count r))) @
     ascii '' last_sequence='' @ decimal (unat (rc_sequence r)) @ ascii '' build='' @ quoted_build @ [0x0A] @
     concat (map (\<lambda>e. fmt (te_at e) @ ascii '' #'' @ decimal (unat (te_sequence e)) @ [0x20] @ te_message e @ [0x0A])
       (snapshot_events r))"

text \<open>\<open>checkpoint\<close>: the text to write, if any, and the recorder after it.\<close>

definition checkpoint :: "(recorder \<Rightarrow> bytes) \<Rightarrow> bool \<Rightarrow> recorder \<Rightarrow> bytes option \<times> recorder" where
  "checkpoint text_of ok r =
     (if rc_sequence r = rc_persisted r then (None, r)
      else if ok then (Some (text_of r), r\<lparr>rc_persisted := rc_sequence r\<rparr>) else (None, r))"

section \<open>The ring\<close>

definition slot :: "64 word \<Rightarrow> nat" where
  "slot w = unat w mod 256"

lemma slot_unat: "unat (w mod of_nat maxEvents) = slot w" for w :: "64 word"
  by (simp add: slot_def maxEvents_def unat_mod_distrib)

lemma slot_add: "slot (a + of_nat i) = (slot a + i) mod 256"
proof -
  have "(unat a + i) mod 2 ^ 64 mod 256 = (unat a + i) mod 256"
    by (rule mod_mod_cancel) (simp add: dvd_eq_mod_eq_0)
  then show ?thesis
    by (simp add: slot_def unat_word_ariths unsigned_of_nat take_bit_eq_mod mod_add_right_eq mod_add_left_eq)
qed

text \<open>A ring of 256 with its next place and count, apart from words.\<close>

definition ring_view :: "nat \<Rightarrow> nat \<Rightarrow> 'a list \<Rightarrow> 'a list" where
  "ring_view k c xs = map (\<lambda>i. xs ! ((k + (256 - c) + i) mod 256)) [0..<c]"

lemma ring_view_push:
  assumes len: "length xs = 256" and k: "k < 256" and c: "c \<le> 256"
  shows "ring_view (Suc k mod 256) (min (Suc c) 256) (xs[k := x]) = last_n 256 (ring_view k c xs @ [x])"
proof (cases "c = 256")
  case False
  then have c': "c < 256" using c by simp
  have idx: "(Suc k mod 256 + (256 - Suc c) + i) mod 256 = (k + (256 - c) + i) mod 256" for i
  proof -
    have "(Suc k mod 256 + (256 - Suc c) + i) mod 256 = (Suc k + ((256 - Suc c) + i)) mod 256"
      by (simp add: mod_add_left_eq add.assoc)
    also have "Suc k + ((256 - Suc c) + i) = k + (256 - c) + i" using c' by simp
    finally show ?thesis .
  qed
  have old: "(xs[k := x]) ! ((k + (256 - c) + i) mod 256) = xs ! ((k + (256 - c) + i) mod 256)" if "i < c" for i
  proof -
    have "(k + (256 - c) + i) mod 256 \<noteq> k"
    proof (cases "k + (256 - c) + i < 256")
      case True
      then show ?thesis using c' by simp
    next
      case False
      then have "(k + (256 - c) + i) mod 256 = k + (256 - c) + i - 256"
        using k that c' by (simp add: mod_if)
      then show ?thesis using that c' False by simp
    qed
    then show ?thesis by simp
  qed
  have "(xs[k := x]) ! ((k + (256 - c) + c) mod 256) = x" using c' k len by simp
  then have "ring_view (Suc k mod 256) (Suc c) (xs[k := x]) = ring_view k c xs @ [x]"
    by (simp add: ring_view_def idx [simplified] old)
  then show ?thesis using c' by (simp add: last_n_all ring_view_def)
next
  case True
  have idx: "(Suc k mod 256 + i) mod 256 = (k + Suc i) mod 256" for i
    by (simp add: mod_add_left_eq)
  have old: "(xs[k := x]) ! ((k + Suc i) mod 256) = xs ! ((k + Suc i) mod 256)" if "i < 255" for i
  proof -
    have "(k + Suc i) mod 256 \<noteq> k"
    proof (cases "k + Suc i < 256")
      case False
      then have "(k + Suc i) mod 256 = k + Suc i - 256" using k that by (simp add: mod_if)
      then show ?thesis using that False by simp
    qed simp
    then show ?thesis by simp
  qed
  have "ring_view (Suc k mod 256) 256 (xs[k := x]) = map (\<lambda>i. (xs[k := x]) ! ((k + Suc i) mod 256)) ([0..<255] @ [255])"
    by (simp add: ring_view_def idx upt_rec [of 0 256] flip: upt_Suc_append)
  also have "\<dots> = map (\<lambda>i. xs ! ((k + Suc i) mod 256)) [0..<255] @ [x]"
    using k len old by simp
  also have "map (\<lambda>i. xs ! ((k + Suc i) mod 256)) [0..<255] = tl (ring_view k 256 xs)"
    by (rule nth_equalityI) (simp_all add: ring_view_def nth_tl del: upt_Suc)
  finally show ?thesis
    using True by (simp add: last_n_snoc_full ring_view_def)
qed

lemma slot_Suc: "slot (w + 1) = Suc (slot w) mod 256"
  using slot_add [of w 1] by simp

lemma slot_sub:
  assumes "c \<le> 256"
  shows "slot (w - of_nat c + of_nat i) = (slot w + (256 - c) + i) mod 256"
proof -
  have "w - of_nat c = w + of_nat (2 ^ 64 - c)"
    using assms by (simp add: of_nat_diff)
  then have "slot (w - of_nat c) = (slot w + (2 ^ 64 - c)) mod 256" by (simp only: slot_add)
  also have "slot w + (2 ^ 64 - c) = (slot w + (256 - c)) + 256 * (2 ^ 56 - 1)" using assms by simp
  also have "\<dots> mod 256 = (slot w + (256 - c)) mod 256" by (rule mod_mult_self2)
  finally show ?thesis by (simp add: slot_add mod_add_left_eq)
qed

definition recorder_inv :: "recorder \<Rightarrow> bool" where
  "recorder_inv r \<longleftrightarrow> length (rc_events r) = 256 \<and> rc_count r \<le> 256"

lemma snapshot_ring:
  "recorder_inv r \<Longrightarrow> snapshot_events r = ring_view (slot (rc_sequence r)) (rc_count r) (rc_events r)"
  by (simp add: snapshot_events_def Let_def ring_view_def slot_unat slot_sub recorder_inv_def)

lemma store_event_fields:
  "rc_sequence (store_event r e) = rc_sequence r + 1"
  "rc_count (store_event r e) = min (Suc (rc_count r)) 256"
  "rc_events (store_event r e) = (rc_events r)[slot (rc_sequence r) :=
     \<lparr>te_sequence = rc_sequence r + 1, te_at = fst e, te_message = snd e\<rparr>]"
  by (simp_all add: store_event_def Let_def slot_unat) (simp_all add: maxEvents_def)

lemma recorder_inv_store: "recorder_inv r \<Longrightarrow> recorder_inv (store_event r e)"
  by (simp add: recorder_inv_def store_event_fields)

lemma snapshot_store:
  assumes "recorder_inv r"
  shows "snapshot_events (store_event r e) =
    last_n 256 (snapshot_events r @ [\<lparr>te_sequence = rc_sequence r + 1, te_at = fst e, te_message = snd e\<rparr>])"
proof -
  have "slot (rc_sequence r) < 256" by (simp add: slot_def)
  then show ?thesis
    using assms ring_view_push [of "rc_events r" "slot (rc_sequence r)" "rc_count r"]
    by (simp add: snapshot_ring recorder_inv_store store_event_fields slot_Suc) (simp add: recorder_inv_def)
qed

lemma recorder_inv_new: "recorder_inv new_recorder" "snapshot_events new_recorder = []"
  by (simp_all add: recorder_inv_def new_recorder_def maxEvents_def snapshot_events_def)

definition trace_items :: "recorder \<Rightarrow> (int \<times> bytes) list" where
  "trace_items r = map (\<lambda>e. (te_at e, te_message e)) (snapshot_events r)"

lemma map_last_n: "map f (last_n n xs) = last_n n (map f xs)"
  by (simp add: last_n_def drop_map)

interpretation trace: capped_queue 256 new_recorder store_event trace_items recorder_inv
proof unfold_locales
  fix r x
  assume "recorder_inv r"
  then show "trace_items (store_event r x) = last_n 256 (trace_items r @ [x])"
    by (simp add: trace_items_def snapshot_store map_last_n)
  show "length (trace_items r) \<le> 256"
    using \<open>recorder_inv r\<close> by (simp add: trace_items_def snapshot_ring ring_view_def recorder_inv_def)
qed (simp_all add: recorder_inv_new recorder_inv_store trace_items_def)

section \<open>Messages\<close>

lemma escape_line_clean: "0x0A \<notin> set (escape_line m) \<and> 0x0D \<notin> set (escape_line m)"
  by (auto simp: escape_line_def split: if_splits)

lemma trace_message_ok:
  "length (trace_message m) \<le> 768 \<and> 0x0A \<notin> set (trace_message m) \<and> 0x0D \<notin> set (trace_message m)"
  using escape_line_clean [of m] by (auto simp: trace_message_def maxEventBytes_def Let_def dest: in_set_takeD)

definition record_all :: "(int \<times> bytes) list \<Rightarrow> recorder" where
  "record_all es = foldl (\<lambda>r e. Record r (fst e) (snd e)) new_recorder es"

lemma record_all_store: "record_all es = foldl store_event new_recorder (map (\<lambda>e. (fst e, trace_message (snd e))) es)"
proof -
  have "foldl (\<lambda>r e. Record r (fst e) (snd e)) r es = foldl store_event r (map (\<lambda>e. (fst e, trace_message (snd e))) es)" for r
    by (induction es arbitrary: r) (simp_all add: Record_def)
  then show ?thesis by (simp add: record_all_def)
qed

lemma record_all_sequence: "rc_sequence (record_all es) = of_nat (length es)"
  by (induction es rule: rev_induct) (simp_all add: record_all_def new_recorder_def Record_def store_event_fields)

lemma recorder_inv_all: "recorder_inv (record_all es)"
  by (induction es rule: rev_induct) (simp_all add: record_all_def recorder_inv_new Record_def recorder_inv_store)

lemma record_all_numbers:
  "map te_sequence (snapshot_events (record_all es)) = last_n 256 (map (\<lambda>i. of_nat (Suc i)) [0..<length es])"
proof (induction es rule: rev_induct)
  case Nil
  then show ?case by (simp add: record_all_def recorder_inv_new)
next
  case (snoc e es)
  have "recorder_inv (record_all es)" by (rule recorder_inv_all)
  moreover have "record_all (es @ [e]) = store_event (record_all es) (fst e, trace_message (snd e))"
    by (simp add: record_all_def Record_def)
  ultimately show ?case
    using snoc by (simp add: snapshot_store map_last_n record_all_sequence last_n_last_n_append add.commute)
qed

text \<open>
  C19. A dump of the recorder shows exactly the last 256 events recorded, in order, numbered as they
  came, whatever was recorded before; every message of it is one line of at most 768 bytes.
\<close>

theorem trace_shows_last_events:
  "trace_items (record_all es) = last_n 256 (map (\<lambda>e. (fst e, trace_message (snd e))) es) \<and>
   map te_sequence (snapshot_events (record_all es)) = last_n 256 (map (\<lambda>i. of_nat (Suc i)) [0..<length es]) \<and>
   list_all (\<lambda>e. length (te_message e) \<le> 768 \<and> 0x0A \<notin> set (te_message e)) (snapshot_events (record_all es))"
proof -
  have items: "trace_items (record_all es) = last_n 256 (map (\<lambda>e. (fst e, trace_message (snd e))) es)"
  proof -
    have "foldl (foldl store_event) new_recorder [map (\<lambda>e. (fst e, trace_message (snd e))) es] = record_all es"
      by (simp add: record_all_store)
    with trace.chunks.contents_from_empty [of "[map (\<lambda>e. (fst e, trace_message (snd e))) es]"]
    show ?thesis by simp
  qed
  have "length (te_message e) \<le> 768 \<and> 0x0A \<notin> set (te_message e)" if "e \<in> set (snapshot_events (record_all es))" for e
  proof -
    have "(te_at e, te_message e) \<in> set (trace_items (record_all es))" using that by (auto simp: trace_items_def)
    then obtain d where "te_message e = trace_message (snd d)"
      unfolding items using set_last_n_subset by fastforce
    then show ?thesis using trace_message_ok by simp
  qed
  with items record_all_numbers show ?thesis by (simp add: list_all_iff)
qed

end
