(* ===== verification/Spec2Isabelle.thy ===== *)
theory Spec2Isabelle
  imports SessionRuns ManagerProps ControlDelivery Confinement OwnerProps AgentStatus KeyboardStrip Recorder Layout
begin

text \<open>
  Multicrum is a terminal multiplexer written in Go. One \<^emph>\<open>owner\<close> process keeps sessions (a PTY or an
  SSH channel, a virtual screen that interprets the output, and a read loop between them), groups
  them into managers, one per connection, shows them in a terminal interface and serves them to
  attached clients, browsers and programs. This library models the parts that decide what the
  program keeps, delivers and permits, and proves them correct. All source names below are under
  \<open>src/pkg\<close>.

  \<^bold>\<open>Shared theories.\<close> \<open>Prelude\<close> has bytes, list surgery by index and the interfaces \<open>capped_log\<close> and
  \<open>capped_queue\<close>: stores that keep the last so many bytes or items of what is appended. \<open>GoText\<close>
  (UTF-8 and runes), \<open>GoStrings\<close> (\<open>strings\<close>, \<open>strconv\<close>), \<open>GoPath\<close> (\<open>filepath\<close>, the names of sockets in
  \<open>localserver/path_unix.go\<close>) and \<open>Json\<close> (\<open>encoding/json\<close> decoding into structs) model what the program
  uses of Go's library.

  \<^bold>\<open>The screen of a session\<close> (\<open>session/vtscreen.go\<close>, \<open>osc52.go\<close>). \<open>ByteRing\<close>: the raw replay history, a
  ring of 256 KiB. \<open>Osc52\<close>: the decoder of clipboard writes in the output, and its encoders. \<open>ScreenText\<close>:
  wrapping and cursor arithmetic. \<open>WrapMeta\<close>: which painted rows are soft wraps. \<open>Capture\<close>: the byte
  machine that recovers logical lines for the scrollback. \<open>Screen\<close>: the whole \<open>VTScreen\<close> around an
  emulator of a third party, which is a record of functions (\<open>emulator\<close>) the operations take as an
  argument. \<open>CaptureProps\<close> and \<open>ScreenProps\<close> show that the captured text is exact on line output and
  independent of how the output is cut into writes, that resizing keeps it, that the caps hold, and
  what the visible rows are. The interfaces of the prelude are interpreted here: \<open>ring\<close> on the byte
  ring, \<open>sblog\<close> and \<open>obslog\<close> on the two line logs of the capture.

  \<^bold>\<open>Sessions and managers\<close> (\<open>session/session.go\<close>, \<open>start_unix.go\<close>, \<open>manager.go\<close>). \<open>Session\<close>: sessions,
  screens and read loops live in the heaps of a \<open>world\<close>; an operation takes the number of its session.
  A read loop is split at its locks into steps, so that \<open>SessionRuns\<close> can interleave the loops of all
  starts with respawns, closes and resizes: sequence numbers are contiguous, a snapshot agrees with the
  messages, and loops of earlier runs are silent. \<open>Manager\<close>: the ordered list with its focus;
  \<open>ManagerProps\<close>: its invariant under every sequence of operations, moves and failed creations.

  \<^bold>\<open>The control service\<close> (\<open>control/service.go\<close>, \<open>protocol.go\<close>, \<open>client.go\<close>). \<open>Control\<close>: clients, grants,
  the queue of a client (256 frames, a client that does not read is dropped), events and permissions.
  \<open>ControlRun\<close>: subscribing with replay, delegating, reading input. \<open>ControlServe\<close>: waiting, requests with
  their idempotency keys, the frame loop. What the requests reach (the interface of the program) is
  the field \<open>env_backend\<close> of the environment, any function on a state of any type. Waiting is modelled over the
  list of times at which it is woken, so a run of it is as long as that list; \<open>await_ends\<close> shows that every
  wait ends. \<open>ControlClient\<close> is the other end. \<open>ControlProps\<close>, \<open>ControlFlow\<close> and \<open>ControlDelivery\<close>
  show which requests run and with whose rights, the invariant of the service over every interleaving,
  that delegates are confined and leave, that a repeated request is not run again, and that output and
  input arrive complete and in order.

  \<^bold>\<open>The control requests of the interface\<close> (\<open>ui/connections.go\<close>, \<open>control.go\<close>), which the service reaches
  through \<open>env_backend\<close>. \<open>Connections\<close>: the connections with their managers. All managers share one heap
  of sessions; an operation of \<open>Manager\<close> runs on the heap and the list of one connection (\<open>load\<close>,
  \<open>run_manager\<close>). \<open>Backend\<close> and \<open>BackendOps\<close>: every method of \<open>handleControlRequest\<close>, with its errors; a panic
  is \<open>None\<close>, and \<open>move_all\<close>, a loop that could run forever, is a partial function that is shown to end.
  \<open>BackendInv\<close>: the invariant \<open>ui_ok\<close> and the interface \<open>local_operation\<close>, an operation of a manager that leaves
  the sessions of others alone, interpreted on those of \<open>Manager\<close>. \<open>BackendMoves\<close>: moving sessions between
  managers. \<open>BackendProps\<close> and \<open>BackendRuns\<close>: every request keeps the invariant and is answered, and so do
  all steps of users, programs and read loops (\<open>ui_step\<close>). \<open>BackendFacts\<close>, \<open>BackendCreate\<close>,
  \<open>BackendSessions\<close>: rejected requests change nothing, a new session has its creator on record, moves and
  removals conserve sessions, replay is exact. \<open>Confinement\<close> puts the service in front of the
  interface and shows that a restricted delegate reaches its own sessions only. The caches of what is on display and the texts of library
  errors are left out.

  \<^bold>\<open>Attaching\<close> (\<open>localserver/frame.go\<close>, \<open>server_unix.go\<close>, \<open>protocol.go\<close>). \<open>Frame\<close>: length-prefixed frames,
  round trip and bounds. \<open>Owner\<close> and \<open>OwnerProps\<close>: the attached client, what its terminal shows, the
  taking over of a terminal and the size it has.

  \<^bold>\<open>Detection of agents\<close> (\<open>agentdetect\<close>, \<open>ui/agent_status.go\<close>). \<open>Agent\<close> and \<open>AgentProps\<close>: the search of
  the process tree, what screens tell, native reports and the monitor. \<open>AgentStatus\<close>: what the
  interface makes of them.

  \<^bold>\<open>The interface and the recorder.\<close> \<open>KeyboardStrip\<close> (\<open>ui/keyboardstrip.go\<close>), \<open>Layout\<close> (\<open>ui/layout.go\<close>,
  \<open>textedit.go\<close>, \<open>cmdline.go\<close>) and \<open>Recorder\<close> (\<open>diagnostics/recorder.go\<close>, the interpretation \<open>trace\<close>).

  \<^bold>\<open>Conventions.\<close> A Go string or byte slice is a list of bytes. Counters and generations are 64-bit words
  and wrap; lengths, indices and sizes that the program keeps as \<open>int\<close> are integers, as they stay far
  below the range. A mutex section is one definition. Errors are values; a panic of the program is a
  value too where it can happen (\<open>None\<close> of \<open>Move\<close>, \<open>IndexOutOfRange\<close> of \<open>Focused\<close>). Loops are structural or have
  a termination proof; none needs fuel.

  \<^bold>\<open>Not modelled.\<close> The emulator (a library), opening and reading of PTYs, sockets and SSH channels
  (their results are arguments), rendering with styles, the browser page and its server, the Windows
  variants of the console and of the attach server, and the wiring of the commands. Times are numbers.
\<close>

end
